theory Spec2Isabelle
  imports Main "HOL-Library.Word"
begin

unbundle bit_operations_syntax

section \<open>Machine types of mpegvideo.c\<close>

text \<open>
  The C types of the source: \<open>int\<close> is a 32-bit two's complement word, \<open>int16_t\<close> a
  16-bit one, \<open>uint8_t\<close> and \<open>uint16_t\<close> unsigned 8- and 16-bit words. Arithmetic on
  \<open>int\<close> wraps as the target machines do; a store into an \<open>int16_t\<close> keeps the low 16
  bits. The slice rows, the quantiser scale and the picture pool work on integers far
  from the limits of \<open>int\<close>; they are modelled as mathematical integers.
\<close>

type_synonym c_int = "32 word"
type_synonym int16_t = "16 word"
type_synonym uint8_t = "8 word"
type_synonym uint16_t = "16 word"

section \<open>ff_set_qscale\<close>

text \<open>
  The fields of \<open>MpegEncContext\<close> that \<open>ff_set_qscale\<close> reads and writes. The three
  tables are \<open>const uint8_t *\<close> in the source; an entry is read as a non-negative
  \<open>int\<close>.
\<close>

record qscale_ctx =
  qscale :: int
  chroma_qscale :: int
  y_dc_scale :: int
  c_dc_scale :: int
  chroma_qscale_table :: "uint8_t list"
  y_dc_scale_table :: "uint8_t list"
  c_dc_scale_table :: "uint8_t list"

definition table_at :: "uint8_t list \<Rightarrow> int \<Rightarrow> int" where
  "table_at t i = uint (t ! nat i)"

definition ff_set_qscale :: "qscale_ctx \<Rightarrow> int \<Rightarrow> qscale_ctx" where
  "ff_set_qscale s q =
     (let q1 = (if q < 1 then 1 else if q > 31 then 31 else q);
          s1 = s\<lparr>qscale := q1\<rparr>;
          s2 = s1\<lparr>chroma_qscale := table_at (chroma_qscale_table s1) q1\<rparr>;
          s3 = s2\<lparr>y_dc_scale := table_at (y_dc_scale_table s2) q1\<rparr>
      in s3\<lparr>c_dc_scale := table_at (c_dc_scale_table s3) (chroma_qscale s3)\<rparr>)"

text \<open>\<open>ff_default_chroma_qscale_table\<close>: the identity on 0..31.\<close>

definition ff_default_chroma_qscale_table :: "uint8_t list" where
  "ff_default_chroma_qscale_table =
     [ 0,  1,  2,  3,  4,  5,  6,  7,  8,  9, 10, 11, 12, 13, 14, 15,
      16, 17, 18, 19, 20, 21, 22, 23, 24, 25, 26, 27, 28, 29, 30, 31]"

text \<open>\<open>ff_mpeg1_dc_scale_table\<close>: 128 entries, all 8.\<close>

definition ff_mpeg1_dc_scale_table :: "uint8_t list" where
  "ff_mpeg1_dc_scale_table = replicate 128 8"

text \<open>
  The three tables are pointers that a codec sets to tables of its own. A context for
  evaluation whose chroma table is not the identity: it halves the scale, the luma DC
  scale is 8 throughout and the chroma DC table holds 8 plus its index.
\<close>

definition halved_chroma_ctx :: qscale_ctx where
  "halved_chroma_ctx =
     \<lparr>qscale = 0, chroma_qscale = 0, y_dc_scale = 0, c_dc_scale = 0,
      chroma_qscale_table =
        [ 0,  0,  1,  1,  2,  2,  3,  3,  4,  4,  5,  5,  6,  6,  7,  7,
          8,  8,  9,  9, 10, 10, 11, 11, 12, 12, 13, 13, 14, 14, 15, 15],
      y_dc_scale_table = replicate 32 8,
      c_dc_scale_table =
        [ 8,  9, 10, 11, 12, 13, 14, 15, 16, 17, 18, 19, 20, 21, 22, 23,
         24, 25, 26, 27, 28, 29, 30, 31, 32, 33, 34, 35, 36, 37, 38, 39]\<rparr>"

section \<open>Slice row ranges\<close>

text \<open>C's integer division truncates towards zero.\<close>

definition c_div :: "int \<Rightarrow> int \<Rightarrow> int" where
  "c_div a b = sgn a * sgn b * (\<bar>a\<bar> div \<bar>b\<bar>)"

record slice_rows =
  start_mb_y :: int
  end_mb_y :: int

text \<open>
  The assignment at the end of \<open>ff_mpv_common_init\<close> and of
  \<open>ff_mpv_common_frame_size_change\<close>: with more than one slice, context \<open>i\<close> gets the
  rounded share; with one slice the master context gets all rows.
\<close>

definition slice_start :: "int \<Rightarrow> int \<Rightarrow> int \<Rightarrow> int" where
  "slice_start mb_height nb_slices i =
     c_div (mb_height * i + c_div nb_slices 2) nb_slices"

definition slice_end :: "int \<Rightarrow> int \<Rightarrow> int \<Rightarrow> int" where
  "slice_end mb_height nb_slices i =
     c_div (mb_height * (i + 1) + c_div nb_slices 2) nb_slices"

definition assign_slice_rows :: "int \<Rightarrow> int \<Rightarrow> slice_rows list" where
  "assign_slice_rows mb_height nb_slices =
     (if nb_slices > 1
      then map (\<lambda>i. \<lparr>start_mb_y = slice_start mb_height nb_slices (int i),
                      end_mb_y = slice_end mb_height nb_slices (int i)\<rparr>)
               [0 ..< nat nb_slices]
      else [\<lparr>start_mb_y = 0, end_mb_y = mb_height\<rparr>])"

definition rows_of :: "slice_rows \<Rightarrow> int set" where
  "rows_of r = {start_mb_y r ..< end_mb_y r}"

section \<open>Pictures\<close>

text \<open>
  A reference to a buffer (\<open>AVBufferRef *\<close>) is \<open>Some b\<close> for the buffer \<open>b\<close> it refers
  to and \<open>None\<close> for \<open>NULL\<close>; reference counts are not modelled. Of the \<open>AVFrame\<close>
  behind \<open>pic->f\<close> the model keeps \<open>buf[0]\<close>, the planes \<open>data[i]\<close> (the bytes that
  start at each plane pointer), \<open>linesize[i]\<close> and \<open>pict_type\<close>.
\<close>

type_synonym bufref = "nat option"

record AVFrame =
  buf0 :: bufref
  data :: "uint8_t list list"
  frame_linesize :: "int list"
  frame_pict_type :: int

text \<open>
  Modelled from the spec: the declaration of \<open>Picture\<close> is in mpegvideo.h, which is not
  among the sources. The fields are those that mpegvideo.c reads and writes; the
  auxiliary tables (quantizer-scale map, macroblock-type map, skip flags, the two
  motion-vector and reference-index tables, and the encoder's variance and mean tables)
  come first and end with \<open>mb_mean\<close> (the record holds their buffer references as one
  field \<open>tables\<close>, indexed by the name of the C field), so that the \<open>memset\<close> of
  \<open>ff_mpeg_unref_picture\<close>, which starts behind \<open>mb_mean\<close>, keeps them for reuse by
  the next allocation, as the spec describes; behind \<open>mb_mean\<close> come the fields that
  \<open>ff_mpeg_ref_picture\<close> copies one by one. The data pointers into the tables
  (\<open>qscale_table\<close>, \<open>mb_type\<close>, ...) alias the table buffers and are not modelled.
\<close>

datatype table =
    mb_var_buf | mc_mb_var_buf | mb_mean_buf
  | mbskip_table_buf | qscale_table_buf | mb_type_buf
  | motion_val_buf0 | ref_index_buf0 | motion_val_buf1 | ref_index_buf1

record Picture =
  pic_f :: AVFrame
  tables :: "table \<Rightarrow> bufref"
  hwaccel_priv_buf :: bufref
  hwaccel_picture_private :: bufref
  field_picture :: int
  mb_var_sum :: int
  mc_mb_var_sum :: int
  b_frame_score :: int
  needs_realloc :: int
  reference :: int
  shared :: int

text \<open>
  The table references in the order in which \<open>ff_free_picture_tables\<close>,
  \<open>make_tables_writable\<close> and \<open>update_picture_tables\<close> go through them.
\<close>

definition picture_tables :: "table list" where
  "picture_tables =
     [mb_var_buf, mc_mb_var_buf, mb_mean_buf, mbskip_table_buf, qscale_table_buf,
      mb_type_buf, motion_val_buf0, ref_index_buf0, motion_val_buf1, ref_index_buf1]"

text \<open>Header constants: \<open>DELAYED_PIC_REF\<close> (mpegvideo.h) and two error codes (error.h).\<close>

definition DELAYED_PIC_REF :: int where
  "DELAYED_PIC_REF = 4"

definition AVERROR_INVALIDDATA :: int where
  "AVERROR_INVALIDDATA = - 1094995529"

definition AVERROR_ENOMEM :: int where
  "AVERROR_ENOMEM = - 12"

definition av_buffer_unref :: "table \<Rightarrow> Picture \<Rightarrow> Picture" where
  "av_buffer_unref t pic = pic\<lparr>tables := (tables pic)(t := None)\<rparr>"

definition ff_free_picture_tables :: "Picture \<Rightarrow> Picture" where
  "ff_free_picture_tables pic = fold av_buffer_unref picture_tables pic"

text \<open>
  Modelled from the spec: \<open>ff_thread_release_buffer\<close> and \<open>av_frame_unref\<close> are library
  functions outside the sources; releasing the pixel storage leaves the frame without a
  buffer and without planes.
\<close>

definition av_frame_unref :: "AVFrame \<Rightarrow> AVFrame" where
  "av_frame_unref fr = \<lparr>buf0 = None, data = [], frame_linesize = [], frame_pict_type = 0\<rparr>"

text \<open>
  \<open>ff_mpeg_unref_picture\<close>: both branches on \<open>codec_id\<close> release the frame; the tables are
  freed only under \<open>needs_realloc\<close>; the \<open>memset\<close> clears everything behind \<open>mb_mean\<close>.
\<close>

definition ff_mpeg_unref_picture :: "Picture \<Rightarrow> Picture" where
  "ff_mpeg_unref_picture pic =
     (let p1 = pic\<lparr>pic_f := av_frame_unref (pic_f pic)\<rparr>;
          p2 = p1\<lparr>hwaccel_priv_buf := None\<rparr>;
          p3 = (if needs_realloc p2 \<noteq> 0 then ff_free_picture_tables p2 else p2)
      in p3\<lparr>hwaccel_priv_buf := None, hwaccel_picture_private := None,
             field_picture := 0, mb_var_sum := 0, mc_mb_var_sum := 0,
             b_frame_score := 0, needs_realloc := 0, reference := 0, shared := 0\<rparr>)"

section \<open>The picture pool\<close>

text \<open>
  \<open>s->picture\<close> is an array of \<open>MAX_PICTURE_COUNT\<close> pictures; the constant is declared
  in mpegvideo.h, outside the sources, and is taken as the length of the pool.
\<close>

definition c_and :: "int \<Rightarrow> int \<Rightarrow> int" where
  "c_and a b = a AND b"

definition pic_is_unused :: "Picture \<Rightarrow> int" where
  "pic_is_unused pic =
     (if buf0 (pic_f pic) = None then 1
      else if needs_realloc pic \<noteq> 0 \<and> c_and (reference pic) DELAYED_PIC_REF = 0 then 1
      else 0)"

text \<open>The loop \<open>for (i = 0; i < MAX_PICTURE_COUNT; i++) if (test) return i;\<close> from index \<open>i\<close>.\<close>

fun first_slot :: "(Picture \<Rightarrow> bool) \<Rightarrow> Picture list \<Rightarrow> int \<Rightarrow> int option" where
  "first_slot test [] i = None"
| "first_slot test (p # ps) i = (if test p then Some i else first_slot test ps (i + 1))"

definition find_unused_picture :: "Picture list \<Rightarrow> int \<Rightarrow> int" where
  "find_unused_picture pool sh =
     (case (if sh \<noteq> 0
            then first_slot (\<lambda>p. buf0 (pic_f p) = None) pool 0
            else first_slot (\<lambda>p. pic_is_unused p \<noteq> 0) pool 0) of
        Some i \<Rightarrow> i
      | None \<Rightarrow> AVERROR_INVALIDDATA)"

text \<open>
  \<open>ff_find_unused_picture\<close> returns the index (or the error) together with the pool, in
  which a slot found under \<open>needs_realloc\<close> has been released.
\<close>

definition ff_find_unused_picture :: "Picture list \<Rightarrow> int \<Rightarrow> int \<times> Picture list" where
  "ff_find_unused_picture pool sh =
     (let ret = find_unused_picture pool sh
      in if ret \<ge> 0 \<and> ret < int (length pool)
         then (if needs_realloc (pool ! nat ret) \<noteq> 0
               then (ret, pool[nat ret :=
                       ff_mpeg_unref_picture
                         (ff_free_picture_tables ((pool ! nat ret)\<lparr>needs_realloc := 0\<rparr>))])
               else (ret, pool))
         else (ret, pool))"

text \<open>
  A pool slot as \<open>ff_mpv_common_init\<close> leaves it: the array is allocated zeroed and each
  slot gets an empty frame from \<open>av_frame_alloc\<close>.
\<close>

definition blank_frame :: AVFrame where
  "blank_frame = \<lparr>buf0 = None, data = [], frame_linesize = [], frame_pict_type = 0\<rparr>"

definition blank_picture :: Picture where
  "blank_picture =
     \<lparr>pic_f = blank_frame, tables = (\<lambda>t. None), hwaccel_priv_buf = None,
      hwaccel_picture_private = None, field_picture = 0, mb_var_sum = 0,
      mc_mb_var_sum = 0, b_frame_score = 0, needs_realloc = 0, reference = 0, shared = 0\<rparr>"

section \<open>The dequantizers\<close>

text \<open>
  The fields of \<open>MpegEncContext\<close> that the \<open>dct_unquantize_*\<close> functions read, on top
  of the DC scales set by \<open>ff_set_qscale\<close>. The scan tables are the arrays
  \<open>intra_scantable.permutated\<close> and \<open>inter_scantable.raster_end\<close>.
\<close>

record dequant_ctx = qscale_ctx +
  block_last_index :: "int list"
  intra_matrix :: "uint16_t list"
  inter_matrix :: "uint16_t list"
  intra_scantable_permutated :: "uint8_t list"
  inter_scantable_raster_end :: "uint8_t list"
  alternate_scan :: int
  h263_aic :: int
  ac_pred :: int

datatype fault = AssertionFailed | NullDereference

text \<open>
  A coefficient block is an array of 64 \<open>int16_t\<close>. Reading a coefficient promotes it to
  \<open>int\<close>; storing a level keeps its low 16 bits; \<open>>>\<close> on an \<open>int\<close> is the arithmetic
  shift.
\<close>

definition load_coeff :: "int16_t list \<Rightarrow> nat \<Rightarrow> c_int" where
  "load_coeff blk j = scast (blk ! j)"

definition store_coeff :: "c_int \<Rightarrow> int16_t" where
  "store_coeff level = ucast level"

definition c_shr :: "c_int \<Rightarrow> nat \<Rightarrow> c_int" where
  "c_shr x k = signed_drop_bit k x"

text \<open>
  The loop shared by all seven functions: for \<open>i\<close> up to \<open>nCoeffs\<close>, read the
  coefficient at position \<open>pos i\<close> and, when it is not zero, replace it by its dequantized
  level \<open>dq j level\<close> and add that level to the running sum. The functions differ in \<open>dq\<close>, in
  \<open>pos\<close> (the scan permutation, or raster order for H.263) and in the first index; only
  the two bit-exact MPEG-2 functions keep the sum, the others drop it.
\<close>

function unquantize_loop ::
  "(nat \<Rightarrow> c_int \<Rightarrow> c_int) \<Rightarrow> (int \<Rightarrow> nat) \<Rightarrow> int \<Rightarrow> int \<Rightarrow>
   int16_t list \<times> c_int \<Rightarrow> int16_t list \<times> c_int" where
  "unquantize_loop dq pos nCoeffs i (blk, sumv) =
     (if i \<le> nCoeffs
      then (let j = pos i; level = load_coeff blk j
            in if level \<noteq> 0
               then unquantize_loop dq pos nCoeffs (i + 1)
                      (blk[j := store_coeff (dq j level)], sumv + dq j level)
               else unquantize_loop dq pos nCoeffs (i + 1) (blk, sumv))
      else (blk, sumv))"
  by pat_completeness auto
termination
  by (relation "measure (\<lambda>(dq, pos, nCoeffs, i, st). nat (nCoeffs + 1 - i))") auto

definition permutated_pos :: "dequant_ctx \<Rightarrow> int \<Rightarrow> nat" where
  "permutated_pos s i = unat (intra_scantable_permutated s ! nat i)"

definition raster_pos :: "int \<Rightarrow> nat" where
  "raster_pos i = nat i"

text \<open>\<open>block[0] = block[0] * s->y_dc_scale\<close> for a luma block, \<open>c_dc_scale\<close> otherwise.\<close>

definition scale_dc :: "dequant_ctx \<Rightarrow> int16_t list \<Rightarrow> int \<Rightarrow> int16_t list" where
  "scale_dc s blk n =
     (if n < 4
      then blk[0 := store_coeff (load_coeff blk 0 * word_of_int (y_dc_scale s))]
      else blk[0 := store_coeff (load_coeff blk 0 * word_of_int (c_dc_scale s))])"

definition mpeg1_intra_level :: "uint16_t list \<Rightarrow> c_int \<Rightarrow> nat \<Rightarrow> c_int \<Rightarrow> c_int" where
  "mpeg1_intra_level quant_matrix qs j level =
     (if level <s 0
      then - ((c_shr ((- level) * qs * ucast (quant_matrix ! j)) 3 - 1) OR 1)
      else (c_shr (level * qs * ucast (quant_matrix ! j)) 3 - 1) OR 1)"

definition mpeg1_inter_level :: "uint16_t list \<Rightarrow> c_int \<Rightarrow> nat \<Rightarrow> c_int \<Rightarrow> c_int" where
  "mpeg1_inter_level quant_matrix qs j level =
     (if level <s 0
      then - ((c_shr ((push_bit 1 (- level) + 1) * qs * ucast (quant_matrix ! j)) 4 - 1) OR 1)
      else (c_shr ((push_bit 1 level + 1) * qs * ucast (quant_matrix ! j)) 4 - 1) OR 1)"

definition mpeg2_intra_level :: "uint16_t list \<Rightarrow> c_int \<Rightarrow> nat \<Rightarrow> c_int \<Rightarrow> c_int" where
  "mpeg2_intra_level quant_matrix qs j level =
     (if level <s 0
      then - c_shr ((- level) * qs * ucast (quant_matrix ! j)) 3
      else c_shr (level * qs * ucast (quant_matrix ! j)) 3)"

definition mpeg2_inter_level :: "uint16_t list \<Rightarrow> c_int \<Rightarrow> nat \<Rightarrow> c_int \<Rightarrow> c_int" where
  "mpeg2_inter_level quant_matrix qs j level =
     (if level <s 0
      then - c_shr ((push_bit 1 (- level) + 1) * qs * ucast (quant_matrix ! j)) 4
      else c_shr ((push_bit 1 level + 1) * qs * ucast (quant_matrix ! j)) 4)"

definition h263_level :: "c_int \<Rightarrow> c_int \<Rightarrow> nat \<Rightarrow> c_int \<Rightarrow> c_int" where
  "h263_level qmul qadd j level =
     (if level <s 0 then level * qmul - qadd else level * qmul + qadd)"

definition dct_unquantize_mpeg1_intra_c ::
  "dequant_ctx \<Rightarrow> int16_t list \<Rightarrow> int \<Rightarrow> c_int \<Rightarrow> int16_t list" where
  "dct_unquantize_mpeg1_intra_c s blk n qs =
     (let nCoeffs = block_last_index s ! nat n;
          blk1 = scale_dc s blk n
      in fst (unquantize_loop (mpeg1_intra_level (intra_matrix s) qs) (permutated_pos s)
                nCoeffs 1 (blk1, 0)))"

definition dct_unquantize_mpeg1_inter_c ::
  "dequant_ctx \<Rightarrow> int16_t list \<Rightarrow> int \<Rightarrow> c_int \<Rightarrow> int16_t list" where
  "dct_unquantize_mpeg1_inter_c s blk n qs =
     (let nCoeffs = block_last_index s ! nat n
      in fst (unquantize_loop (mpeg1_inter_level (inter_matrix s) qs) (permutated_pos s)
                nCoeffs 0 (blk, 0)))"

definition dct_unquantize_mpeg2_intra_c ::
  "dequant_ctx \<Rightarrow> int16_t list \<Rightarrow> int \<Rightarrow> c_int \<Rightarrow> int16_t list" where
  "dct_unquantize_mpeg2_intra_c s blk n qs =
     (let nCoeffs = (if alternate_scan s \<noteq> 0 then 63 else block_last_index s ! nat n);
          blk1 = scale_dc s blk n
      in fst (unquantize_loop (mpeg2_intra_level (intra_matrix s) qs) (permutated_pos s)
                nCoeffs 1 (blk1, 0)))"

text \<open>The mismatch control of the bit-exact functions: \<open>block[63] ^= sum & 1\<close>.\<close>

definition toggle_last :: "int16_t list \<times> c_int \<Rightarrow> int16_t list" where
  "toggle_last st =
     (case st of (blk, sumv) \<Rightarrow>
        blk[63 := store_coeff (load_coeff blk 63 XOR (sumv AND 1))])"

definition dct_unquantize_mpeg2_intra_bitexact ::
  "dequant_ctx \<Rightarrow> int16_t list \<Rightarrow> int \<Rightarrow> c_int \<Rightarrow> int16_t list" where
  "dct_unquantize_mpeg2_intra_bitexact s blk n qs =
     (let nCoeffs = (if alternate_scan s \<noteq> 0 then 63 else block_last_index s ! nat n);
          blk1 = scale_dc s blk n
      in toggle_last
           (unquantize_loop (mpeg2_intra_level (intra_matrix s) qs) (permutated_pos s)
              nCoeffs 1 (blk1, - 1)))"

definition dct_unquantize_mpeg2_inter_c ::
  "dequant_ctx \<Rightarrow> int16_t list \<Rightarrow> int \<Rightarrow> c_int \<Rightarrow> int16_t list" where
  "dct_unquantize_mpeg2_inter_c s blk n qs =
     (let nCoeffs = (if alternate_scan s \<noteq> 0 then 63 else block_last_index s ! nat n)
      in toggle_last
           (unquantize_loop (mpeg2_inter_level (inter_matrix s) qs) (permutated_pos s)
              nCoeffs 0 (blk, - 1)))"

text \<open>
  The two H.263 functions start with \<open>assert(s->block_last_index[n]>=0)\<close>; a failed
  assertion is the fault \<open>AssertionFailed\<close>.
\<close>

definition dct_unquantize_h263_intra_c ::
  "dequant_ctx \<Rightarrow> int16_t list \<Rightarrow> int \<Rightarrow> c_int \<Rightarrow> fault + int16_t list" where
  "dct_unquantize_h263_intra_c s blk n qs =
     (if \<not> block_last_index s ! nat n \<ge> 0 then Inl AssertionFailed
      else
        (let qmul = push_bit 1 qs;
             blk1 = (if h263_aic s = 0 then scale_dc s blk n else blk);
             qadd = (if h263_aic s = 0 then (qs - 1) OR 1 else 0);
             nCoeffs = (if ac_pred s \<noteq> 0 then 63
                        else uint (inter_scantable_raster_end s ! nat (block_last_index s ! nat n)))
         in Inr (fst (unquantize_loop (h263_level qmul qadd) raster_pos nCoeffs 1 (blk1, 0)))))"

definition dct_unquantize_h263_inter_c ::
  "dequant_ctx \<Rightarrow> int16_t list \<Rightarrow> int \<Rightarrow> c_int \<Rightarrow> fault + int16_t list" where
  "dct_unquantize_h263_inter_c s blk n qs =
     (if \<not> block_last_index s ! nat n \<ge> 0 then Inl AssertionFailed
      else
        (let qadd = (qs - 1) OR 1;
             qmul = push_bit 1 qs;
             nCoeffs = uint (inter_scantable_raster_end s ! nat (block_last_index s ! nat n))
         in Inr (fst (unquantize_loop (h263_level qmul qadd) raster_pos nCoeffs 0 (blk, 0)))))"

text \<open>
  What the loop leaves at a position it visits once: the stored level of a non-zero
  coefficient, and a zero coefficient as it is; \<open>level_at\<close> is the level it adds to the
  sum there.
\<close>

definition requant :: "(nat \<Rightarrow> c_int \<Rightarrow> c_int) \<Rightarrow> int16_t list \<Rightarrow> nat \<Rightarrow> int16_t" where
  "requant dq blk p =
     (if load_coeff blk p \<noteq> 0 then store_coeff (dq p (load_coeff blk p)) else blk ! p)"

definition level_at :: "(nat \<Rightarrow> c_int \<Rightarrow> c_int) \<Rightarrow> int16_t list \<Rightarrow> nat \<Rightarrow> c_int" where
  "level_at dq blk p = (if load_coeff blk p \<noteq> 0 then dq p (load_coeff blk p) else 0)"

text \<open>Sign and magnitude of an \<open>int\<close>, as the formulas of the dequantizers use them.\<close>

definition c_sign :: "c_int \<Rightarrow> c_int" where
  "c_sign x = (if x <s 0 then - 1 else 1)"

definition c_abs :: "c_int \<Rightarrow> c_int" where
  "c_abs x = (if x <s 0 then - x else x)"

text \<open>
  A scan table as \<open>ff_init_scantable\<close> builds it from a scan order and the IDCT
  permutation: 64 distinct positions below 64, the first of them the DC position 0.
\<close>

definition scantable_ok :: "uint8_t list \<Rightarrow> bool" where
  "scantable_ok perm \<longleftrightarrow>
     length perm = 64 \<and> distinct perm \<and> list_all (\<lambda>x. x < 64) perm \<and> perm ! 0 = 0"

text \<open>\<open>ff_alternate_vertical_scan\<close>, one of the scan orders of mpegvideo.c.\<close>

definition ff_alternate_vertical_scan :: "uint8_t list" where
  "ff_alternate_vertical_scan =
     [ 0,  8, 16, 24,  1,  9,  2, 10,
      17, 25, 32, 40, 48, 56, 57, 49,
      41, 33, 26, 18,  3, 11,  4, 12,
      19, 27, 34, 42, 50, 58, 35, 43,
      51, 59, 20, 28,  5, 13,  6, 14,
      21, 29, 36, 44, 52, 60, 37, 45,
      53, 61, 22, 30,  7, 15, 23, 31,
      38, 46, 54, 62, 39, 47, 55, 63]"

text \<open>
  A context for evaluating the dequantizers: the alternate vertical scan under the
  identity IDCT permutation, flat quantizer matrices of 16, DC scales of 8, and the same
  last index for every block.
\<close>

definition flat16_ctx :: "int \<Rightarrow> dequant_ctx" where
  "flat16_ctx li =
     \<lparr>qscale = 8, chroma_qscale = 8, y_dc_scale = 8, c_dc_scale = 8,
      chroma_qscale_table = ff_default_chroma_qscale_table,
      y_dc_scale_table = ff_mpeg1_dc_scale_table,
      c_dc_scale_table = ff_mpeg1_dc_scale_table,
      block_last_index = replicate 12 li,
      intra_matrix = replicate 64 16, inter_matrix = replicate 64 16,
      intra_scantable_permutated = ff_alternate_vertical_scan,
      inter_scantable_raster_end = ff_alternate_vertical_scan,
      alternate_scan = 0, h263_aic = 0, ac_pred = 0\<rparr>"

text \<open>
  The table \<open>inter_scantable.raster_end\<close>: 64 entries, each the highest raster position
  among the first scan positions, so below 64.
\<close>

definition raster_end_ok :: "uint8_t list \<Rightarrow> bool" where
  "raster_end_ok re \<longleftrightarrow> length re = 64 \<and> list_all (\<lambda>x. x < 64) re"

text \<open>
  For the statements about the MPEG-2 mismatch control: the last scan index the two
  bit-exact functions visit, the sum of the levels they add up (the AC levels for intra,
  all levels for inter), and the inter block as the loop leaves it, before
  \<open>block[63]\<close> is touched.
\<close>

definition mpeg2_nCoeffs :: "dequant_ctx \<Rightarrow> int \<Rightarrow> int" where
  "mpeg2_nCoeffs s n = (if alternate_scan s \<noteq> 0 then 63 else block_last_index s ! nat n)"

definition mpeg2_intra_sum :: "dequant_ctx \<Rightarrow> int16_t list \<Rightarrow> int \<Rightarrow> c_int \<Rightarrow> c_int" where
  "mpeg2_intra_sum s blk n qs =
     (\<Sum>k \<in> {1..mpeg2_nCoeffs s n}.
        level_at (mpeg2_intra_level (intra_matrix s) qs) blk (permutated_pos s k))"

definition mpeg2_inter_sum :: "dequant_ctx \<Rightarrow> int16_t list \<Rightarrow> int \<Rightarrow> c_int \<Rightarrow> c_int" where
  "mpeg2_inter_sum s blk n qs =
     (\<Sum>k \<in> {0..mpeg2_nCoeffs s n}.
        level_at (mpeg2_inter_level (inter_matrix s) qs) blk (permutated_pos s k))"

definition mpeg2_inter_pre :: "dequant_ctx \<Rightarrow> int16_t list \<Rightarrow> int \<Rightarrow> c_int \<Rightarrow> int16_t list" where
  "mpeg2_inter_pre s blk n qs =
     fst (unquantize_loop (mpeg2_inter_level (inter_matrix s) qs) (permutated_pos s)
            (mpeg2_nCoeffs s n) 0 (blk, 0))"

section \<open>Duplicated slice contexts\<close>

text \<open>
  A pointer is an address, \<open>NULL\<close> is 0. The record holds the fields of
  \<open>MpegEncContext\<close> that \<open>backup_duplicate_context\<close> saves, together with \<open>pblocks\<close>,
  \<open>linesize\<close> and the codec tag read through \<open>avctx\<close>; every other field of the structure
  is in the extension part of the record (\<open>more\<close>), which \<open>memcpy\<close> copies as a whole.
  \<open>pb\<close>, a \<open>PutBitContext\<close>, is an opaque value.
\<close>

type_synonym ptr = nat

record dup_ctx = slice_rows +
  edge_emu_buffer :: ptr
  me_scratchpad :: ptr
  me_temp :: ptr
  rd_scratchpad :: ptr
  b_scratchpad :: ptr
  obmc_scratchpad :: ptr
  me_map :: ptr
  me_score_map :: ptr
  blocks :: ptr
  block :: ptr
  me_map_generation :: int
  pb :: nat
  dct_error_sum :: ptr
  dct_count0 :: int
  dct_count1 :: int
  ac_val_base :: ptr
  ac_val0 :: ptr
  ac_val1 :: ptr
  ac_val2 :: ptr
  pblocks :: "ptr list"
  linesize :: int
  avctx_codec_tag :: nat

text \<open>
  \<open>frame_size_alloc\<close>: the two \<open>av_mallocz\<close> results \<open>a1\<close> (for \<open>alloc_size * 2 * 24\<close>
  bytes) and \<open>a2\<close> (for \<open>alloc_size * 2 * 16 * 3\<close> bytes) are arguments; both sizes are at
  least 32, so \<open>FF_ALLOCZ_OR_GOTO\<close> fails exactly on \<open>NULL\<close>. The second allocation is not
  attempted when the first has failed.
\<close>

definition frame_size_alloc ::
  "'a dup_ctx_scheme \<Rightarrow> ptr \<Rightarrow> ptr \<Rightarrow> int \<times> 'a dup_ctx_scheme" where
  "frame_size_alloc s a1 a2 =
     (let s1 = s\<lparr>edge_emu_buffer := a1\<rparr>
      in if a1 = 0 then (AVERROR_ENOMEM, s1\<lparr>edge_emu_buffer := 0\<rparr>)
         else
           (let s2 = s1\<lparr>me_scratchpad := a2\<rparr>
            in if a2 = 0 then (AVERROR_ENOMEM, s2\<lparr>edge_emu_buffer := 0\<rparr>)
               else (0, s2\<lparr>me_temp := me_scratchpad s2, rd_scratchpad := me_scratchpad s2,
                           b_scratchpad := me_scratchpad s2,
                           obmc_scratchpad := me_scratchpad s2 + 16\<rparr>)))"

definition backup_duplicate_context ::
  "'a dup_ctx_scheme \<Rightarrow> 'a dup_ctx_scheme \<Rightarrow> 'a dup_ctx_scheme" where
  "backup_duplicate_context bak src =
     bak\<lparr>edge_emu_buffer := edge_emu_buffer src,
         me_scratchpad := me_scratchpad src,
         me_temp := me_temp src,
         rd_scratchpad := rd_scratchpad src,
         b_scratchpad := b_scratchpad src,
         obmc_scratchpad := obmc_scratchpad src,
         me_map := me_map src,
         me_score_map := me_score_map src,
         blocks := blocks src,
         block := block src,
         start_mb_y := start_mb_y src,
         end_mb_y := end_mb_y src,
         me_map_generation := me_map_generation src,
         pb := pb src,
         dct_error_sum := dct_error_sum src,
         dct_count0 := dct_count0 src,
         dct_count1 := dct_count1 src,
         ac_val_base := ac_val_base src,
         ac_val0 := ac_val0 src,
         ac_val1 := ac_val1 src,
         ac_val2 := ac_val2 src\<rparr>"

text \<open>\<open>pblocks[4]\<close> and \<open>pblocks[5]\<close> change places.\<close>

definition exchange_uv :: "'a dup_ctx_scheme \<Rightarrow> 'a dup_ctx_scheme" where
  "exchange_uv s = s\<lparr>pblocks := (pblocks s)[4 := pblocks s ! 5, 5 := pblocks s ! 4]\<rparr>"

text \<open>\<open>AV_RL32("VCR2")\<close>: the four bytes read as a little-endian 32-bit value.\<close>

definition VCR2 :: nat where
  "VCR2 = 0x32524356"

text \<open>
  \<open>&dst->block[i]\<close>: \<open>block\<close> points to arrays of 64 \<open>int16_t\<close>, 128 bytes each.
\<close>

definition block_addr :: "ptr \<Rightarrow> nat \<Rightarrow> ptr" where
  "block_addr b i = b + 128 * i"

text \<open>
  \<open>ff_update_duplicate_context\<close>. \<open>bak0\<close> is the uninitialised local \<open>bak\<close>; \<open>a1\<close> and
  \<open>a2\<close> are the allocation results handed to \<open>frame_size_alloc\<close>. The result is the
  return value and the new \<open>*dst\<close>.
\<close>

definition ff_update_duplicate_context ::
  "'a dup_ctx_scheme \<Rightarrow> 'a dup_ctx_scheme \<Rightarrow> 'a dup_ctx_scheme \<Rightarrow> ptr \<Rightarrow> ptr \<Rightarrow>
   int \<times> 'a dup_ctx_scheme" where
  "ff_update_duplicate_context bak0 dst src a1 a2 =
     (let bak = backup_duplicate_context bak0 dst;
          dst1 = src;
          dst2 = backup_duplicate_context dst1 bak;
          dst3 = dst2\<lparr>pblocks := map (block_addr (block dst2)) [0 ..< 12]\<rparr>;
          dst4 = (if avctx_codec_tag dst3 = VCR2 then exchange_uv dst3 else dst3)
      in if edge_emu_buffer dst4 = 0
         then (case frame_size_alloc dst4 a1 a2 of
                 (ret, dst5) \<Rightarrow> if ret < 0 then (ret, dst5) else (0, dst5))
         else (0, dst4))"

text \<open>A context with every modelled field zero, as \<open>av_mallocz\<close> leaves the structure.\<close>

definition zero_dup_ctx :: dup_ctx where
  "zero_dup_ctx =
     \<lparr>start_mb_y = 0, end_mb_y = 0, edge_emu_buffer = 0, me_scratchpad = 0, me_temp = 0,
      rd_scratchpad = 0, b_scratchpad = 0, obmc_scratchpad = 0, me_map = 0,
      me_score_map = 0, blocks = 0, block = 0, me_map_generation = 0, pb = 0,
      dct_error_sum = 0, dct_count0 = 0, dct_count1 = 0, ac_val_base = 0, ac_val0 = 0,
      ac_val1 = 0, ac_val2 = 0, pblocks = replicate 12 0, linesize = 0,
      avctx_codec_tag = 0\<rparr>"

text \<open>The state of \<open>*dst\<close> when the scratch buffers are checked.\<close>

definition merged :: "'a dup_ctx_scheme \<Rightarrow> 'a dup_ctx_scheme \<Rightarrow> 'a dup_ctx_scheme" where
  "merged dst src =
     (let d = backup_duplicate_context src dst;
          d3 = d\<lparr>pblocks := map (block_addr (block d)) [0 ..< 12]\<rparr>
      in if avctx_codec_tag d3 = VCR2 then exchange_uv d3 else d3)"

section \<open>Allocating and referencing pictures\<close>

text \<open>
  Header constants: \<open>FMT_H263\<close> (the third \<open>OutputFormat\<close>), \<open>EDGE_WIDTH\<close>, the picture
  types \<open>AV_PICTURE_TYPE_I\<close> and \<open>AV_PICTURE_TYPE_B\<close>, and \<open>PICT_FRAME\<close>.
\<close>

definition FMT_H263 :: int where
  "FMT_H263 = 2"

definition EDGE_WIDTH :: int where
  "EDGE_WIDTH = 16"

definition AV_PICTURE_TYPE_I :: int where
  "AV_PICTURE_TYPE_I = 1"

definition AV_PICTURE_TYPE_B :: int where
  "AV_PICTURE_TYPE_B = 3"

definition PICT_FRAME :: int where
  "PICT_FRAME = 3"

text \<open>
  The context of the picture functions: the duplicated-context fields, the pool
  \<open>s->picture\<close>, the pointers \<open>last_picture_ptr\<close> and \<open>next_picture_ptr\<close> into the pool
  (\<open>Some i\<close> for \<open>&s->picture[i]\<close>, \<open>None\<close> for \<open>NULL\<close>), and what is read through
  \<open>s->avctx\<close>: the height, whether the codec is an encoder, and the hardware
  accelerator (\<open>None\<close> for \<open>NULL\<close>, else its \<open>frame_priv_data_size\<close>).
\<close>

record MpegEncContext = dup_ctx +
  picture :: "Picture list"
  last_picture_ptr :: "nat option"
  next_picture_ptr :: "nat option"
  encoding :: int
  out_format :: int
  uvlinesize :: int
  mb_height :: int
  b8_stride :: int
  chroma_x_shift :: int
  chroma_y_shift :: int
  pict_type :: int
  picture_structure :: int
  avctx_height :: int
  avctx_is_encoder :: int
  avctx_hwaccel :: "int option"

text \<open>
  What the library hands back during one \<open>ff_alloc_picture\<close>: the return value of the
  \<open>get_buffer\<close> call and the frame it fills, the buffer for the accelerator's private
  data, the two scratch allocations of \<open>frame_size_alloc\<close>, the result of
  \<open>av_buffer_allocz\<close> for each table, and for \<open>av_buffer_make_writable\<close> on a reference to
  buffer \<open>b\<close> the buffer referred to afterwards (\<open>None\<close> when it fails).
\<close>

record alloc_env =
  got_ret :: int
  got_frame :: AVFrame
  hwaccel_alloc :: bufref
  scratch_a1 :: ptr
  scratch_a2 :: ptr
  new_table :: "table \<Rightarrow> bufref"
  writable :: "nat \<Rightarrow> bufref"

text \<open>\<open>linesize[i]\<close> and \<open>data[i]\<close> of a frame; entries that were never set are 0 and \<open>NULL\<close>.\<close>

definition linesize_at :: "AVFrame \<Rightarrow> nat \<Rightarrow> int" where
  "linesize_at fr i = (if i < length (frame_linesize fr) then frame_linesize fr ! i else 0)"

definition data_at :: "AVFrame \<Rightarrow> nat \<Rightarrow> uint8_t list" where
  "data_at fr i = (if i < length (data fr) then data fr ! i else [])"

text \<open>
  With edges, every plane pointer is moved behind the top and left border:
  \<open>data[i] += (EDGE_WIDTH >> yshift) * linesize[i] + (EDGE_WIDTH >> xshift)\<close>, the shifts
  being the chroma shifts for \<open>i > 0\<close>.
\<close>

definition edge_offset :: "'a MpegEncContext_scheme \<Rightarrow> AVFrame \<Rightarrow> nat \<Rightarrow> int" where
  "edge_offset s fr i =
     (EDGE_WIDTH div 2 ^ nat (if i \<noteq> 0 then chroma_y_shift s else 0)) * linesize_at fr i +
     (EDGE_WIDTH div 2 ^ nat (if i \<noteq> 0 then chroma_x_shift s else 0))"

definition skip_edges :: "'a MpegEncContext_scheme \<Rightarrow> AVFrame \<Rightarrow> AVFrame" where
  "skip_edges s fr =
     fr\<lparr>data := map (\<lambda>i. drop (nat (edge_offset s fr i)) (data fr ! i))
                    [0 ..< length (data fr)]\<rparr>"

text \<open>
  \<open>alloc_frame_buffer\<close> from the stride checks on: a changed stride and a failed
  scratch allocation release the picture again.
\<close>

definition alloc_frame_buffer_checks ::
  "'a MpegEncContext_scheme \<Rightarrow> Picture \<Rightarrow> alloc_env \<Rightarrow>
   int \<times> 'a MpegEncContext_scheme \<times> Picture" where
  "alloc_frame_buffer_checks s pic env =
     (if linesize s \<noteq> 0 \<and>
         (linesize s \<noteq> linesize_at (pic_f pic) 0 \<or> uvlinesize s \<noteq> linesize_at (pic_f pic) 1)
      then (- 1, s, ff_mpeg_unref_picture pic)
      else if linesize_at (pic_f pic) 1 \<noteq> linesize_at (pic_f pic) 2
      then (- 1, s, ff_mpeg_unref_picture pic)
      else if edge_emu_buffer s = 0
      then (case frame_size_alloc s (scratch_a1 env) (scratch_a2 env) of
              (ret, s1) \<Rightarrow>
                if ret < 0 then (ret, s1, ff_mpeg_unref_picture pic) else (0, s1, pic))
      else (0, s, pic))"

text \<open>
  Modelled from the spec: \<open>ff_thread_get_buffer\<close> and \<open>avcodec_default_get_buffer2\<close> are
  library functions outside the sources. The call returns \<open>got_ret\<close>; on success the
  frame is the one the library filled, on failure it holds no pixel storage. Both
  branches on \<open>codec_id\<close> differ only in the callback used and in the frame size they
  request.
\<close>

definition get_buffer :: "AVFrame \<Rightarrow> alloc_env \<Rightarrow> int \<times> AVFrame" where
  "get_buffer fr env =
     (if got_ret env < 0 then (got_ret env, av_frame_unref fr) else (got_ret env, got_frame env))"

definition alloc_frame_buffer ::
  "'a MpegEncContext_scheme \<Rightarrow> Picture \<Rightarrow> alloc_env \<Rightarrow>
   fault + int \<times> 'a MpegEncContext_scheme \<times> Picture" where
  "alloc_frame_buffer s pic env =
     (let edges_needed = avctx_is_encoder s;
          r = fst (get_buffer (pic_f pic) env);
          pic1 = pic\<lparr>pic_f := snd (get_buffer (pic_f pic) env)\<rparr>
      in if r < 0 \<or> buf0 (pic_f pic1) = None then Inr (- 1, s, pic1)
         else
           (let pic2 = (if edges_needed \<noteq> 0
                        then pic1\<lparr>pic_f := skip_edges s (pic_f pic1)\<rparr> else pic1)
            in case avctx_hwaccel s of
                 None \<Rightarrow> Inr (alloc_frame_buffer_checks s pic2 env)
               | Some frame_priv_data_size \<Rightarrow>
                   if hwaccel_picture_private pic2 \<noteq> None then Inl AssertionFailed
                   else if frame_priv_data_size \<noteq> 0
                   then (case hwaccel_alloc env of
                           None \<Rightarrow> Inr (- 1, s, pic2\<lparr>hwaccel_priv_buf := None\<rparr>)
                         | Some b \<Rightarrow>
                             Inr (alloc_frame_buffer_checks s
                                    (pic2\<lparr>hwaccel_priv_buf := Some b,
                                          hwaccel_picture_private := Some b\<rparr>) env))
                   else Inr (alloc_frame_buffer_checks s pic2 env)))"

definition set_tables :: "alloc_env \<Rightarrow> table list \<Rightarrow> Picture \<Rightarrow> Picture" where
  "set_tables env ts pic =
     fold (\<lambda>t p. p\<lparr>tables := (tables p)(t := new_table env t)\<rparr>) ts pic"

definition any_null :: "Picture \<Rightarrow> table list \<Rightarrow> bool" where
  "any_null pic ts = list_ex (\<lambda>t. tables pic t = None) ts"

definition alloc_picture_tables ::
  "'a MpegEncContext_scheme \<Rightarrow> Picture \<Rightarrow> alloc_env \<Rightarrow> int \<times> Picture" where
  "alloc_picture_tables s pic env =
     (let pic1 = set_tables env [mbskip_table_buf, qscale_table_buf, mb_type_buf] pic
      in if any_null pic1 [mbskip_table_buf, qscale_table_buf, mb_type_buf]
         then (AVERROR_ENOMEM, pic1)
         else
           (let pic2 = (if encoding s \<noteq> 0
                        then set_tables env [mb_var_buf, mc_mb_var_buf, mb_mean_buf] pic1
                        else pic1)
            in if encoding s \<noteq> 0 \<and> any_null pic2 [mb_var_buf, mc_mb_var_buf, mb_mean_buf]
               then (AVERROR_ENOMEM, pic2)
               else if out_format s = FMT_H263 \<or> encoding s \<noteq> 0
               then
                 (let mv_size = 2 * (b8_stride s * mb_height s * 2 + 4) * 2
                  in if mv_size = 0 then (0, pic2)
                     else
                       (let pic3 = set_tables env [motion_val_buf0, ref_index_buf0] pic2
                        in if any_null pic3 [motion_val_buf0, ref_index_buf0]
                           then (AVERROR_ENOMEM, pic3)
                           else
                             (let pic4 = set_tables env [motion_val_buf1, ref_index_buf1] pic3
                              in if any_null pic4 [motion_val_buf1, ref_index_buf1]
                                 then (AVERROR_ENOMEM, pic4)
                                 else (0, pic4))))
               else (0, pic2)))"

text \<open>\<open>MAKE_WRITABLE(table)\<close> for each table in turn, returning at the first failure.\<close>

fun make_writable_from :: "alloc_env \<Rightarrow> table list \<Rightarrow> Picture \<Rightarrow> int \<times> Picture" where
  "make_writable_from env [] pic = (0, pic)"
| "make_writable_from env (t # ts) pic =
     (case tables pic t of
        None \<Rightarrow> make_writable_from env ts pic
      | Some b \<Rightarrow>
          (case writable env b of
             None \<Rightarrow> (AVERROR_ENOMEM, pic)
           | Some b' \<Rightarrow>
               make_writable_from env ts (pic\<lparr>tables := (tables pic)(t := Some b')\<rparr>)))"

definition make_tables_writable :: "Picture \<Rightarrow> alloc_env \<Rightarrow> int \<times> Picture" where
  "make_tables_writable pic env = make_writable_from env picture_tables pic"

text \<open>
  \<open>ff_alloc_picture\<close> from the tables on. Setting a data pointer reads through the
  buffer reference; a \<open>NULL\<close> reference there is the fault \<open>NullDereference\<close>.
\<close>

definition alloc_picture_finish ::
  "'a MpegEncContext_scheme \<Rightarrow> Picture \<Rightarrow> alloc_env \<Rightarrow>
   fault + int \<times> 'a MpegEncContext_scheme \<times> Picture" where
  "alloc_picture_finish s pic env =
     (case (if tables pic qscale_table_buf = None
            then alloc_picture_tables s pic env
            else make_tables_writable pic env) of
        (ret, pic1) \<Rightarrow>
          if ret < 0
          then Inr (AVERROR_ENOMEM, s, ff_free_picture_tables (ff_mpeg_unref_picture pic1))
          else if encoding s \<noteq> 0 \<and> any_null pic1 [mb_var_buf, mc_mb_var_buf, mb_mean_buf]
          then Inl NullDereference
          else if any_null pic1 [mbskip_table_buf, qscale_table_buf, mb_type_buf]
          then Inl NullDereference
          else if tables pic1 motion_val_buf0 \<noteq> None \<and>
                  any_null pic1 [ref_index_buf0, motion_val_buf1, ref_index_buf1]
          then Inl NullDereference
          else Inr (0, s, pic1))"

definition ff_alloc_picture ::
  "'a MpegEncContext_scheme \<Rightarrow> Picture \<Rightarrow> int \<Rightarrow> alloc_env \<Rightarrow>
   fault + int \<times> 'a MpegEncContext_scheme \<times> Picture" where
  "ff_alloc_picture s pic sh env =
     (if sh \<noteq> 0
      then (if data (pic_f pic) = [] then Inl AssertionFailed
            else alloc_picture_finish s (pic\<lparr>shared := 1\<rparr>) env)
      else (if buf0 (pic_f pic) \<noteq> None then Inl AssertionFailed
            else
              (case alloc_frame_buffer s pic env of
                 Inl flt \<Rightarrow> Inl flt
               | Inr (r, s1, pic1) \<Rightarrow>
                   if r < 0 then Inr (- 1, s1, pic1)
                   else alloc_picture_finish
                          (s1\<lparr>linesize := linesize_at (pic_f pic1) 0,
                              uvlinesize := linesize_at (pic_f pic1) 1\<rparr>) pic1 env)))"

text \<open>
  What the library hands back during one \<open>ff_mpeg_ref_picture\<close>: the return value of
  \<open>ff_thread_ref_frame\<close>, and whether \<open>av_buffer_ref\<close> on a reference to buffer \<open>b\<close>
  succeeds.
\<close>

record ref_env =
  ref_frame_ret :: int
  buffer_ref_ok :: "nat \<Rightarrow> bool"

text \<open>\<open>UPDATE_TABLE(table)\<close> for each table in turn.\<close>

fun update_tables_from ::
  "ref_env \<Rightarrow> table list \<Rightarrow> Picture \<Rightarrow> Picture \<Rightarrow> int \<times> Picture" where
  "update_tables_from env [] dst src = (0, dst)"
| "update_tables_from env (t # ts) dst src =
     (case tables src t of
        None \<Rightarrow> update_tables_from env ts dst src
      | Some b \<Rightarrow>
          if tables dst t = None \<or> tables dst t \<noteq> Some b
          then (if buffer_ref_ok env b
                then update_tables_from env ts (dst\<lparr>tables := (tables dst)(t := Some b)\<rparr>) src
                else (AVERROR_ENOMEM,
                      ff_free_picture_tables (dst\<lparr>tables := (tables dst)(t := None)\<rparr>)))
          else update_tables_from env ts dst src)"

definition update_picture_tables :: "Picture \<Rightarrow> Picture \<Rightarrow> ref_env \<Rightarrow> int \<times> Picture" where
  "update_picture_tables dst src env = update_tables_from env picture_tables dst src"

text \<open>
  Modelled from the spec: \<open>ff_thread_ref_frame\<close> is a library function outside the
  sources; on success \<open>dst\<close>'s frame shares the pixel storage of \<open>src\<close>'s frame, on failure
  it is left as it was.
\<close>

definition ff_mpeg_ref_picture ::
  "Picture \<Rightarrow> Picture \<Rightarrow> ref_env \<Rightarrow> fault + int \<times> Picture" where
  "ff_mpeg_ref_picture dst src env =
     (if buf0 (pic_f dst) \<noteq> None \<or> buf0 (pic_f src) = None then Inl AssertionFailed
      else if ref_frame_ret env < 0
      then Inr (ref_frame_ret env, ff_mpeg_unref_picture dst)
      else
        (case update_picture_tables (dst\<lparr>pic_f := pic_f src\<rparr>) src env of
           (ret, dst1) \<Rightarrow>
             if ret < 0 then Inr (ret, ff_mpeg_unref_picture dst1)
             else
               (let copy = (\<lambda>d. d\<lparr>field_picture := field_picture src,
                                    mb_var_sum := mb_var_sum src,
                                    mc_mb_var_sum := mc_mb_var_sum src,
                                    b_frame_score := b_frame_score src,
                                    needs_realloc := needs_realloc src,
                                    reference := reference src,
                                    shared := shared src\<rparr>)
                in if hwaccel_picture_private src \<noteq> None
                   then (case hwaccel_priv_buf src of
                           None \<Rightarrow> Inl NullDereference
                         | Some b \<Rightarrow>
                             if buffer_ref_ok env b
                             then Inr (0, copy (dst1\<lparr>hwaccel_priv_buf := Some b,
                                                     hwaccel_picture_private := Some b\<rparr>))
                             else Inr (ret, ff_mpeg_unref_picture
                                              (dst1\<lparr>hwaccel_priv_buf := None\<rparr>)))
                   else Inr (0, copy dst1))))"

text \<open>
  Sequences of calls on the pictures of a pool. A call names its pictures by their index
  in \<open>s->picture\<close>; an index outside the pool names no picture, and such a call is not
  made. A fault ends the run.
\<close>

datatype pool_op = Alloc nat int alloc_env | Ref nat nat ref_env | Unref nat

fun pool_step :: "'a MpegEncContext_scheme \<Rightarrow> pool_op \<Rightarrow> fault + 'a MpegEncContext_scheme" where
  "pool_step s (Alloc i sh env) =
     (if i < length (picture s)
      then (case ff_alloc_picture s (picture s ! i) sh env of
              Inl flt \<Rightarrow> Inl flt
            | Inr (ret, s1, pic) \<Rightarrow> Inr (s1\<lparr>picture := (picture s1)[i := pic]\<rparr>))
      else Inr s)"
| "pool_step s (Ref d i env) =
     (if d < length (picture s) \<and> i < length (picture s)
      then (case ff_mpeg_ref_picture (picture s ! d) (picture s ! i) env of
              Inl flt \<Rightarrow> Inl flt
            | Inr (ret, pic) \<Rightarrow> Inr (s\<lparr>picture := (picture s)[d := pic]\<rparr>))
      else Inr s)"
| "pool_step s (Unref i) =
     (if i < length (picture s)
      then Inr (s\<lparr>picture := (picture s)[i := ff_mpeg_unref_picture (picture s ! i)]\<rparr>)
      else Inr s)"

fun pool_run ::
  "'a MpegEncContext_scheme \<Rightarrow> pool_op list \<Rightarrow> fault + 'a MpegEncContext_scheme" where
  "pool_run s [] = Inr s"
| "pool_run s (op # ops) =
     (case pool_step s op of Inl flt \<Rightarrow> Inl flt | Inr s1 \<Rightarrow> pool_run s1 ops)"

text \<open>
  The coherence the code keeps: a picture with pixel storage has its quantizer-scale,
  macroblock-type and skip tables.
\<close>

definition core_tables :: "Picture \<Rightarrow> bool" where
  "core_tables pic \<longleftrightarrow> \<not> any_null pic [mbskip_table_buf, qscale_table_buf, mb_type_buf]"

definition pixels_have_tables :: "Picture \<Rightarrow> bool" where
  "pixels_have_tables pic \<longleftrightarrow> (buf0 (pic_f pic) \<noteq> None \<longrightarrow> core_tables pic)"

text \<open>
  A decoder context for evaluation: two blank pictures in the pool, no hardware
  accelerator, MPEG-1 output, not encoding, every other field zero.
\<close>

definition decoder_ctx :: MpegEncContext where
  "decoder_ctx =
     \<lparr>start_mb_y = 0, end_mb_y = 0, edge_emu_buffer = 0, me_scratchpad = 0, me_temp = 0,
      rd_scratchpad = 0, b_scratchpad = 0, obmc_scratchpad = 0, me_map = 0,
      me_score_map = 0, blocks = 0, block = 0, me_map_generation = 0, pb = 0,
      dct_error_sum = 0, dct_count0 = 0, dct_count1 = 0, ac_val_base = 0, ac_val0 = 0,
      ac_val1 = 0, ac_val2 = 0, pblocks = replicate 12 0, linesize = 0,
      avctx_codec_tag = 0,
      picture = [blank_picture, blank_picture], last_picture_ptr = None,
      next_picture_ptr = None,
      encoding = 0, out_format = 0, uvlinesize = 0, mb_height = 2, b8_stride = 5,
      chroma_x_shift = 1, chroma_y_shift = 1, pict_type = 2, picture_structure = 3,
      avctx_height = 2, avctx_is_encoder = 0, avctx_hwaccel = None\<rparr>"

text \<open>
  A library that succeeds: the frame comes back with buffer 1 and three planes of
  two lines (luma stride 4, chroma stride 2) holding the byte \<open>0xAA\<close>, and the tables
  get the buffers 10 to 19.
\<close>

definition table_number :: "table \<Rightarrow> nat" where
  "table_number t =
     (case t of mb_var_buf \<Rightarrow> 10 | mc_mb_var_buf \<Rightarrow> 11 | mb_mean_buf \<Rightarrow> 12
      | mbskip_table_buf \<Rightarrow> 13 | qscale_table_buf \<Rightarrow> 14 | mb_type_buf \<Rightarrow> 15
      | motion_val_buf0 \<Rightarrow> 16 | ref_index_buf0 \<Rightarrow> 17 | motion_val_buf1 \<Rightarrow> 18
      | ref_index_buf1 \<Rightarrow> 19)"

definition stale_frame :: AVFrame where
  "stale_frame =
     \<lparr>buf0 = Some 1,
      data = [replicate 8 0xAA, replicate 4 0xAA, replicate 4 0xAA],
      frame_linesize = [4, 2, 2], frame_pict_type = 0\<rparr>"

definition good_env :: alloc_env where
  "good_env =
     \<lparr>got_ret = 0, got_frame = stale_frame, hwaccel_alloc = None,
      scratch_a1 = 4096, scratch_a2 = 8192,
      new_table = (\<lambda>t. Some (table_number t)), writable = (\<lambda>b. Some b)\<rparr>"

text \<open>The two motion-vector tables and the two reference-index tables.\<close>

definition motion_tables :: "Picture \<Rightarrow> bool" where
  "motion_tables pic \<longleftrightarrow>
     \<not> any_null pic [motion_val_buf0, ref_index_buf0, motion_val_buf1, ref_index_buf1]"

text \<open>
  The one return of \<open>alloc_frame_buffer\<close> that leaves the pixel buffer behind: the codec
  has a hardware accelerator with private data (\<open>frame_priv_data_size\<close> not 0) and
  \<open>av_buffer_allocz\<close> for that data fails. A call is free of it when it is no
  \<open>ff_alloc_picture\<close> or this allocation does not fail.
\<close>

definition hwaccel_alloc_fails :: "'a MpegEncContext_scheme \<Rightarrow> alloc_env \<Rightarrow> bool" where
  "hwaccel_alloc_fails s env \<longleftrightarrow>
     (case avctx_hwaccel s of
        None \<Rightarrow> False
      | Some frame_priv_data_size \<Rightarrow> frame_priv_data_size \<noteq> 0 \<and> hwaccel_alloc env = None)"

definition private_data_ok :: "'a MpegEncContext_scheme \<Rightarrow> pool_op \<Rightarrow> bool" where
  "private_data_ok s op =
     (case op of Alloc i sh env \<Rightarrow> \<not> hwaccel_alloc_fails s env | Ref d i env \<Rightarrow> True
      | Unref i \<Rightarrow> True)"

text \<open>
  A library in which referencing succeeds, and a sequence of calls for evaluation: picture
  0 is allocated, released, allocated again, and then referenced by picture 1.
\<close>

definition good_ref_env :: ref_env where
  "good_ref_env = \<lparr>ref_frame_ret = 0, buffer_ref_ok = (\<lambda>b. True)\<rparr>"

definition pool_calls :: "pool_op list" where
  "pool_calls = [Alloc 0 0 good_env, Unref 0, Alloc 0 0 good_env, Ref 1 0 good_ref_env]"

section \<open>Dummy reference pictures at frame start\<close>

text \<open>
  \<open>memset(p, c, n)\<close> on the bytes that start at \<open>p\<close>; the model stops at the end of the
  plane, and a plane the frame does not have is left alone.
\<close>

definition memset :: "uint8_t list \<Rightarrow> uint8_t \<Rightarrow> int \<Rightarrow> uint8_t list" where
  "memset p c n = replicate (min (nat n) (length p)) c @ drop (nat n) p"

definition memset_plane :: "AVFrame \<Rightarrow> nat \<Rightarrow> uint8_t \<Rightarrow> int \<Rightarrow> AVFrame" where
  "memset_plane fr i c n =
     (if i < length (data fr) then fr\<lparr>data := (data fr)[i := memset (data fr ! i) c n]\<rparr>
      else fr)"

text \<open>\<open>!ptr || !ptr->f->buf[0]\<close> for a pointer into the pool.\<close>

definition no_picture :: "'a MpegEncContext_scheme \<Rightarrow> nat option \<Rightarrow> bool" where
  "no_picture s ptr =
     (case ptr of None \<Rightarrow> True | Some i \<Rightarrow> buf0 (pic_f (picture s ! i)) = None)"

text \<open>
  The two blocks of \<open>ff_mpv_frame_start\<close> that allocate dummy references, each returning
  the value the function returns there, or 0 when the function goes on. \<open>v_chroma_shift\<close>
  is what \<open>av_pix_fmt_get_chroma_sub_sample\<close> reports for the pixel format; the progress
  reports on the new picture belong to the threading library and are not modelled.
\<close>

definition mark_dummy :: "Picture \<Rightarrow> Picture" where
  "mark_dummy pic =
     pic\<lparr>reference := 3, pic_f := (pic_f pic)\<lparr>frame_pict_type := AV_PICTURE_TYPE_I\<rparr>\<rparr>"

definition dummy_last_picture ::
  "'a MpegEncContext_scheme \<Rightarrow> int \<Rightarrow> alloc_env \<Rightarrow> fault + int \<times> 'a MpegEncContext_scheme" where
  "dummy_last_picture s v_chroma_shift env =
     (if no_picture s (last_picture_ptr s) \<and>
         (pict_type s \<noteq> AV_PICTURE_TYPE_I \<or> picture_structure s \<noteq> PICT_FRAME)
      then
        (case ff_find_unused_picture (picture s) 0 of
           (i, pool) \<Rightarrow>
             if i < 0 then Inr (i, s\<lparr>picture := pool\<rparr>)
             else
               (let pic = mark_dummy (pool ! nat i);
                    s1 = s\<lparr>picture := pool[nat i := pic], last_picture_ptr := Some (nat i)\<rparr>
                in case ff_alloc_picture s1 pic 0 env of
                     Inl flt \<Rightarrow> Inl flt
                   | Inr (r, s2, pic1) \<Rightarrow>
                       if r < 0
                       then Inr (- 1, s2\<lparr>picture := (picture s2)[nat i := pic1],
                                         last_picture_ptr := None\<rparr>)
                       else
                         (let fr0 = memset_plane (pic_f pic1) 0 0
                                      (avctx_height s2 * linesize_at (pic_f pic1) 0);
                              fr1 = memset_plane fr0 1 0x80
                                      (avctx_height s2 div 2 ^ nat v_chroma_shift *
                                       linesize_at fr0 1);
                              fr2 = memset_plane fr1 2 0x80
                                      (avctx_height s2 div 2 ^ nat v_chroma_shift *
                                       linesize_at fr1 2)
                          in Inr (0, s2\<lparr>picture :=
                                          (picture s2)[nat i := pic1\<lparr>pic_f := fr2\<rparr>]\<rparr>))))
      else Inr (0, s))"

definition dummy_next_picture ::
  "'a MpegEncContext_scheme \<Rightarrow> alloc_env \<Rightarrow> fault + int \<times> 'a MpegEncContext_scheme" where
  "dummy_next_picture s env =
     (if no_picture s (next_picture_ptr s) \<and> pict_type s = AV_PICTURE_TYPE_B
      then
        (case ff_find_unused_picture (picture s) 0 of
           (i, pool) \<Rightarrow>
             if i < 0 then Inr (i, s\<lparr>picture := pool\<rparr>)
             else
               (let pic = mark_dummy (pool ! nat i);
                    s1 = s\<lparr>picture := pool[nat i := pic], next_picture_ptr := Some (nat i)\<rparr>
                in case ff_alloc_picture s1 pic 0 env of
                     Inl flt \<Rightarrow> Inl flt
                   | Inr (r, s2, pic1) \<Rightarrow>
                       if r < 0
                       then Inr (- 1, s2\<lparr>picture := (picture s2)[nat i := pic1],
                                         next_picture_ptr := None\<rparr>)
                       else Inr (0, s2\<lparr>picture := (picture s2)[nat i := pic1]\<rparr>)))
      else Inr (0, s))"

definition frame_start_dummies ::
  "'a MpegEncContext_scheme \<Rightarrow> int \<Rightarrow> alloc_env \<Rightarrow> alloc_env \<Rightarrow>
   fault + int \<times> 'a MpegEncContext_scheme" where
  "frame_start_dummies s v_chroma_shift env_last env_next =
     (case dummy_last_picture s v_chroma_shift env_last of
        Inl flt \<Rightarrow> Inl flt
      | Inr (r, s1) \<Rightarrow> if r < 0 then Inr (r, s1) else dummy_next_picture s1 env_next)"

text \<open>What a picture allocation leaves alone in the context.\<close>

definition same_pool :: "'a MpegEncContext_scheme \<Rightarrow> 'a MpegEncContext_scheme \<Rightarrow> bool" where
  "same_pool s1 s \<longleftrightarrow>
     picture s1 = picture s \<and> last_picture_ptr s1 = last_picture_ptr s \<and>
     next_picture_ptr s1 = next_picture_ptr s \<and> avctx_height s1 = avctx_height s \<and>
     pict_type s1 = pict_type s"

text \<open>The three \<open>memset\<close> calls on a frame.\<close>

definition fill_dummy :: "AVFrame \<Rightarrow> int \<Rightarrow> int \<Rightarrow> AVFrame" where
  "fill_dummy fr h v =
     (let fr0 = memset_plane fr 0 0 (h * linesize_at fr 0);
          fr1 = memset_plane fr0 1 0x80 (h div 2 ^ nat v * linesize_at fr0 1)
      in memset_plane fr1 2 0x80 (h div 2 ^ nat v * linesize_at fr1 2))"

text \<open>
  For evaluation: the decoder context at the start of a B frame, and a library whose
  second frame comes with buffer 2.
\<close>

definition b_decoder_ctx :: MpegEncContext where
  "b_decoder_ctx = decoder_ctx\<lparr>pict_type := AV_PICTURE_TYPE_B\<rparr>"

definition next_env :: alloc_env where
  "next_env = good_env\<lparr>got_frame := stale_frame\<lparr>buf0 := Some 2\<rparr>\<rparr>"

section \<open>The lowest referenced macroblock row\<close>

text \<open>
  The fields that \<open>ff_mpv_lowest_referenced_row\<close> and the motion handling of
  \<open>mpv_decode_mb_internal\<close> read beyond those above; \<open>mv\<close> is the array
  \<open>int mv[2][4][2]\<close>, and \<open>active_thread_type\<close> is read through \<open>s->avctx\<close>. Header
  constants: the motion types, the direction bits of \<open>mv_dir\<close>, \<open>FF_THREAD_FRAME\<close> and the
  limits of \<open>int\<close>.
\<close>

record mc_ctx = MpegEncContext +
  mcsel :: int
  mv_type :: int
  mv :: "c_int list list list"
  quarter_sample :: int
  mb_y :: int
  mb_intra :: int
  mv_dir :: int
  active_thread_type :: int

definition MV_TYPE_16X16 :: int where
  "MV_TYPE_16X16 = 0"

definition MV_TYPE_8X8 :: int where
  "MV_TYPE_8X8 = 1"

definition MV_TYPE_16X8 :: int where
  "MV_TYPE_16X8 = 2"




definition INT_MIN :: c_int where
  "INT_MIN = 0x80000000"

definition INT_MAX :: c_int where
  "INT_MAX = 0x7FFFFFFF"

text \<open>
  The macros \<open>FFMAX(a, b)\<close>, which is \<open>a > b ? a : b\<close>, and \<open>FFMIN(a, b)\<close>, which is
  \<open>a > b ? b : a\<close>, on \<open>int\<close>.
\<close>

definition FFMAX :: "c_int \<Rightarrow> c_int \<Rightarrow> c_int" where
  "FFMAX a b = (if b <s a then a else b)"

definition FFMIN :: "c_int \<Rightarrow> c_int \<Rightarrow> c_int" where
  "FFMIN a b = (if b <s a then b else a)"

text \<open>
  The function computes in \<open>int\<close>. The fields \<open>mb_y\<close> and \<open>mb_height\<close>, kept as
  mathematical integers like the other scalars of the context, are read as the \<open>int\<close>
  they are.
\<close>

definition c_int_of :: "int \<Rightarrow> c_int" where
  "c_int_of k = word_of_int k"

text \<open>\<open>qpel_shift = !s->quarter_sample\<close>, and \<open>mvs\<close> as the \<open>switch\<close> on \<open>mv_type\<close> sets it.\<close>

definition qpel_shift :: "'a mc_ctx_scheme \<Rightarrow> nat" where
  "qpel_shift s = (if quarter_sample s = 0 then 1 else 0)"

definition mv_count :: "'a mc_ctx_scheme \<Rightarrow> nat" where
  "mv_count s =
     (if mv_type s = MV_TYPE_16X16 then 1 else if mv_type s = MV_TYPE_16X8 then 2 else 4)"

text \<open>
  The loop over the \<open>mvs\<close> motion vectors keeps the largest and the smallest vertical
  component \<open>my = s->mv[dir][i][1] << qpel_shift\<close>, in quarter samples.
\<close>

definition my_extent :: "'a mc_ctx_scheme \<Rightarrow> nat \<Rightarrow> nat \<Rightarrow> c_int \<times> c_int" where
  "my_extent s dir mvs =
     fold (\<lambda>i (my_max, my_min).
             (let my = push_bit (qpel_shift s) (mv s ! dir ! i ! 1)
              in (FFMAX my_max my, FFMIN my_min my)))
          [0 ..< mvs] (INT_MIN, INT_MAX)"

text \<open>\<open>off = (FFMAX(-my_min, my_max) + 63) >> 6\<close>: the extent in macroblock rows.\<close>

definition mv_row_offset :: "'a mc_ctx_scheme \<Rightarrow> nat \<Rightarrow> c_int" where
  "mv_row_offset s dir =
     (case my_extent s dir (mv_count s) of
        (my_max, my_min) \<Rightarrow> c_shr (FFMAX (- my_min) my_max + 63) 6)"

text \<open>The motion that \<open>ff_mpv_lowest_referenced_row\<close> handles; all other motion is \<open>unhandled\<close>.\<close>

definition frame_motion :: "'a mc_ctx_scheme \<Rightarrow> bool" where
  "frame_motion s \<longleftrightarrow>
     \<not> (picture_structure s \<noteq> PICT_FRAME \<or> mcsel s \<noteq> 0) \<and>
     (mv_type s = MV_TYPE_16X16 \<or> mv_type s = MV_TYPE_16X8 \<or> mv_type s = MV_TYPE_8X8)"

definition ff_mpv_lowest_referenced_row :: "'a mc_ctx_scheme \<Rightarrow> nat \<Rightarrow> c_int" where
  "ff_mpv_lowest_referenced_row s dir =
     (if frame_motion s
      then FFMIN (FFMAX (c_int_of (mb_y s) + mv_row_offset s dir) 0) (c_int_of (mb_height s) - 1)
      else c_int_of (mb_height s) - 1)"






text \<open>
  Modelled from the spec: \<open>ff_mpv_motion\<close> is in mpegvideo_motion.c, which is not among
  the sources. The macroblock rows that the motion vectors of a macroblock reference: the
  macroblock of row \<open>mb_y\<close> covers the luma lines \<open>16 * mb_y\<close> to \<open>16 * mb_y + 15\<close>; a
  vector whose vertical component is \<open>my\<close> quarter samples moves them by \<open>my / 4\<close> lines,
  and a position between two lines is interpolated from the line above and the line
  below it; a line outside the picture is replaced by the nearest line of the picture.
  The vertical component is in half samples unless \<open>quarter_sample\<close> is set. For motion
  other than frame motion of type 16x16, 16x8 or 8x8 any row of the picture may be
  referenced.
\<close>

definition my_quarter :: "'a mc_ctx_scheme \<Rightarrow> nat \<Rightarrow> nat \<Rightarrow> int" where
  "my_quarter s dir i = sint (mv s ! dir ! i ! 1) * 2 ^ qpel_shift s"

definition top_line :: "'a mc_ctx_scheme \<Rightarrow> int \<Rightarrow> int" where
  "top_line s my = 16 * mb_y s + my div 4"

definition bottom_line :: "'a mc_ctx_scheme \<Rightarrow> int \<Rightarrow> int" where
  "bottom_line s my = 16 * mb_y s + 15 - (- my) div 4"

definition row_of_line :: "'a mc_ctx_scheme \<Rightarrow> int \<Rightarrow> int" where
  "row_of_line s y = min (max (y div 16) 0) (mb_height s - 1)"

definition referenced_rows :: "'a mc_ctx_scheme \<Rightarrow> nat \<Rightarrow> int set" where
  "referenced_rows s dir =
     (if frame_motion s
      then (\<Union>i \<in> set [0 ..< mv_count s].
              {row_of_line s (top_line s (my_quarter s dir i)) ..
               row_of_line s (bottom_line s (my_quarter s dir i))})
      else {0 .. mb_height s - 1})"


text \<open>
  A decoder context for evaluation: a frame picture of 10 macroblock rows, macroblock
  row 3, one half-sample vector per direction (33 half samples down in the last
  picture, 70 up in the next), both directions used, frame threading active.
\<close>

definition b_frame_ctx :: mc_ctx where
  "b_frame_ctx =
     MpegEncContext.extend (decoder_ctx\<lparr>mb_height := 10, pict_type := AV_PICTURE_TYPE_B\<rparr>)
       \<lparr>mcsel = 0, mv_type = MV_TYPE_16X16,
        mv = [[[0, 33], [0, 0], [0, 0], [0, 0]], [[0, - 70], [0, 0], [0, 0], [0, 0]]],
        quarter_sample = 0, mb_y = 3, mb_intra = 0, mv_dir = 3, active_thread_type = 1\<rparr>"


section \<open>Properties of ff_set_qscale\<close>

lemma ff_set_qscale_fields:
  "qscale (ff_set_qscale s q) = (if q < 1 then 1 else if q > 31 then 31 else q)"
  "chroma_qscale (ff_set_qscale s q) =
     table_at (chroma_qscale_table s) (qscale (ff_set_qscale s q))"
  "y_dc_scale (ff_set_qscale s q) =
     table_at (y_dc_scale_table s) (qscale (ff_set_qscale s q))"
  "c_dc_scale (ff_set_qscale s q) =
     table_at (c_dc_scale_table s) (chroma_qscale (ff_set_qscale s q))"
  by (simp_all add: ff_set_qscale_def Let_def)

text \<open>
  C10, as the code has it. After \<open>ff_set_qscale s q\<close> the stored \<open>qscale\<close> is \<open>q\<close>
  clamped to 1..31, so it is never outside 1..31; \<open>chroma_qscale\<close> and \<open>y_dc_scale\<close> are
  the entries of their tables at the clamped scale; \<open>c_dc_scale\<close> is the entry of
  \<open>c_dc_scale_table\<close> at the chroma scale just stored, not at the clamped scale.
\<close>

theorem ff_set_qscale_clamps:
  "qscale (ff_set_qscale s q) = max 1 (min 31 q) \<and>
   1 \<le> qscale (ff_set_qscale s q) \<and> qscale (ff_set_qscale s q) \<le> 31 \<and>
   chroma_qscale (ff_set_qscale s q) = table_at (chroma_qscale_table s) (max 1 (min 31 q)) \<and>
   y_dc_scale (ff_set_qscale s q) = table_at (y_dc_scale_table s) (max 1 (min 31 q)) \<and>
   c_dc_scale (ff_set_qscale s q) =
     table_at (c_dc_scale_table s) (table_at (chroma_qscale_table s) (max 1 (min 31 q)))"
  by (simp add: ff_set_qscale_fields)

lemma default_chroma_table_at:
  assumes "0 \<le> k" "k \<le> 31"
  shows "table_at ff_default_chroma_qscale_table k = k"
proof -
  have "k \<in> {0, 1, 2, 3, 4, 5, 6, 7, 8, 9, 10, 11, 12, 13, 14, 15, 16, 17, 18, 19,
                  20, 21, 22, 23, 24, 25, 26, 27, 28, 29, 30, 31}"
    using assms by simp presburger
  then show ?thesis
    by (auto simp: table_at_def ff_default_chroma_qscale_table_def)
qed

text \<open>
  Under the default chroma table, the identity, the chroma scale is the clamped scale
  itself and \<open>c_dc_scale\<close> is read at the clamped scale too.
\<close>

lemma ff_set_qscale_default_chroma:
  assumes "chroma_qscale_table s = ff_default_chroma_qscale_table"
  shows "chroma_qscale (ff_set_qscale s q) = max 1 (min 31 q) \<and>
         c_dc_scale (ff_set_qscale s q) = table_at (c_dc_scale_table s) (max 1 (min 31 q))"
proof -
  have c: "qscale (ff_set_qscale s q) = max 1 (min 31 q)"
    by (simp add: ff_set_qscale_fields)
  have "table_at ff_default_chroma_qscale_table (max 1 (min 31 q)) = max 1 (min 31 q)"
    by (rule default_chroma_table_at) simp_all
  then have "chroma_qscale (ff_set_qscale s q) = max 1 (min 31 q)"
    unfolding ff_set_qscale_fields(2) c assms .
  then show ?thesis unfolding ff_set_qscale_fields(4) by simp
qed

text \<open>
  C10 as stated fails: with a chroma table that is not the identity, \<open>c_dc_scale\<close> is
  not the entry of its table at the clamped scale. For \<open>q = 12\<close> the chroma scale is 6
  and \<open>c_dc_scale\<close> is entry 6 of the chroma DC table, 14; the entry at the clamped
  scale 12 is 20.
\<close>

theorem ff_set_qscale_counterexample:
  "qscale (ff_set_qscale halved_chroma_ctx 12) = 12 \<and>
   chroma_qscale (ff_set_qscale halved_chroma_ctx 12) = 6 \<and>
   c_dc_scale (ff_set_qscale halved_chroma_ctx 12) = 14 \<and>
   table_at (c_dc_scale_table halved_chroma_ctx) 12 = 20 \<and>
   c_dc_scale (ff_set_qscale halved_chroma_ctx 12) \<noteq>
     table_at (c_dc_scale_table halved_chroma_ctx) (qscale (ff_set_qscale halved_chroma_ctx 12))"
  by (simp add: ff_set_qscale_def halved_chroma_ctx_def table_at_def Let_def)

section \<open>Properties of the slice row ranges\<close>

lemma c_div_nonneg: "0 \<le> a \<Longrightarrow> 0 < b \<Longrightarrow> c_div a b = a div b"
  by (cases "a = 0") (simp_all add: c_div_def)

lemma slice_start_div:
  assumes "1 \<le> N" "0 \<le> H" "0 \<le> i"
  shows "slice_start H N i = (H * i + N div 2) div N"
proof -
  have "c_div N 2 = N div 2" using assms by (simp add: c_div_nonneg)
  moreover have "0 \<le> H * i + N div 2" using assms by simp
  ultimately show ?thesis using assms by (simp add: slice_start_def c_div_nonneg)
qed

lemma slice_end_start: "slice_end H N i = slice_start H N (i + 1)"
  by (simp add: slice_end_def slice_start_def)

lemma slice_start_0:
  assumes "1 \<le> N" "0 \<le> H"
  shows "slice_start H N 0 = 0"
  using assms by (simp add: slice_start_div)

lemma slice_start_last:
  assumes "1 \<le> N" "0 \<le> H"
  shows "slice_start H N N = H"
proof -
  have "(H * N + N div 2) div N = H + (N div 2) div N"
    using assms by (simp add: algebra_simps)
  then show ?thesis using assms by (simp add: slice_start_div)
qed

lemma slice_start_step:
  assumes "1 \<le> N" "N \<le> H" "0 \<le> i"
  shows "slice_start H N i < slice_start H N (i + 1)"
proof -
  have "N \<noteq> 0" using assms by simp
  then have "(H * i + N div 2) div N + 1 = (H * i + N div 2 + N) div N"
    by (metis div_add_self2)
  also have "\<dots> \<le> (H * i + N div 2 + H) div N"
    using assms by (intro zdiv_mono1) simp_all
  also have "\<dots> = (H * (i + 1) + N div 2) div N"
    by (simp add: algebra_simps)
  finally show ?thesis using assms by (simp add: slice_start_div)
qed

lemma slice_start_mono:
  assumes "1 \<le> N" "N \<le> H"
  shows "i \<le> j \<Longrightarrow> slice_start H N (int i) \<le> slice_start H N (int j)"
proof (induction j)
  case 0 then show ?case by simp
next
  case (Suc j)
  show ?case
  proof (cases "i = Suc j")
    case True then show ?thesis by simp
  next
    case False
    with Suc have "slice_start H N (int i) \<le> slice_start H N (int j)" by simp
    moreover have "slice_start H N (int j) < slice_start H N (int j + 1)"
      using assms by (intro slice_start_step) simp_all
    ultimately show ?thesis by (simp add: add.commute)
  qed
qed

lemma slice_union_upto:
  assumes "1 \<le> N" "N \<le> H"
  shows "(\<Union>i<k. {slice_start H N (int i) ..< slice_start H N (int i + 1)})
         = {slice_start H N 0 ..< slice_start H N (int k)}"
proof (induction k)
  case 0 then show ?case by simp
next
  case (Suc k)
  have a: "slice_start H N 0 \<le> slice_start H N (int k)"
    using slice_start_mono [OF assms, of 0 k] by simp
  have b: "slice_start H N (int k) \<le> slice_start H N (int k + 1)"
    using slice_start_step [OF assms, of "int k"] by simp
  have "(\<Union>i<Suc k. {slice_start H N (int i) ..< slice_start H N (int i + 1)})
        = {slice_start H N 0 ..< slice_start H N (int k)}
          \<union> {slice_start H N (int k) ..< slice_start H N (int k + 1)}"
    using Suc by (simp add: lessThan_Suc Un_commute)
  also have "\<dots> = {slice_start H N 0 ..< slice_start H N (int k + 1)}"
    using a b by (rule ivl_disj_un_two(3))
  finally show ?case by (simp add: add.commute)
qed

lemma assign_slice_rows_length: "1 \<le> N \<Longrightarrow> length (assign_slice_rows H N) = nat N"
  by (auto simp: assign_slice_rows_def)

lemma assign_slice_rows_nth:
  assumes "1 \<le> N" "0 \<le> H" "i < nat N"
  shows "assign_slice_rows H N ! i =
         \<lparr>start_mb_y = slice_start H N (int i), end_mb_y = slice_start H N (int i + 1)\<rparr>"
proof (cases "N > 1")
  case True
  then show ?thesis using assms by (simp add: assign_slice_rows_def slice_end_start)
next
  case False
  then have "N = 1" "i = 0" using assms by simp_all
  then show ?thesis using assms
    by (simp add: assign_slice_rows_def slice_start_0 slice_start_last [of 1 H, simplified])
qed


lemma rows_of_nth:
  assumes "1 \<le> N" "0 \<le> H" "i < nat N"
  shows "rows_of (assign_slice_rows H N ! i) =
         {slice_start H N (int i) ..< slice_start H N (int i + 1)}"
  using assms by (simp add: rows_of_def assign_slice_rows_nth)

lemma rows_disjoint_lt:
  assumes "1 \<le> N" "N \<le> H" "i < j" "j < nat N"
  shows "rows_of (assign_slice_rows H N ! i) \<inter> rows_of (assign_slice_rows H N ! j) = {}"
proof -
  have "slice_start H N (int (Suc i)) \<le> slice_start H N (int j)"
    using assms by (intro slice_start_mono) simp_all
  then have "slice_start H N (int i + 1) \<le> slice_start H N (int j)"
    by (simp add: add.commute)
  then show ?thesis using assms by (auto simp: rows_of_nth)
qed

lemma slice_rows_in_int_range:
  assumes "(1::int) \<le> N" "N \<le> H" "H * N + N div 2 < 2 ^ 31" "0 \<le> i" "i < N"
  shows "0 \<le> H * (i + 1) + N div 2 \<and> H * (i + 1) + N div 2 < 2 ^ 31"
proof -
  have "H * (i + 1) \<le> H * N" using assms by (intro mult_left_mono) simp_all
  moreover have "0 \<le> H * (i + 1)" using assms by simp
  moreover have "0 \<le> N div 2" using assms by simp
  ultimately show ?thesis using assms by linarith
qed

text \<open>
  C3. For \<open>H \<ge> 1\<close> macroblock rows and \<open>1 \<le> N \<le> H\<close> slices, the rows given to the
  \<open>N\<close> slice contexts, slice \<open>i\<close> from \<open>(H*i + N/2)/N\<close> up to \<open>(H*(i+1) + N/2)/N\<close>,
  are each non-empty, contiguous (the end of a slice is the start of the next), pairwise
  disjoint, and their union is exactly the rows \<open>0 ..< H\<close>.
\<close>

theorem slice_rows_partition:
  assumes "1 \<le> H" and "1 \<le> N" and "N \<le> H"
  shows "length (assign_slice_rows H N) = nat N \<and>
    (\<forall>i < nat N.
        start_mb_y (assign_slice_rows H N ! i) = (H * int i + N div 2) div N \<and>
        end_mb_y (assign_slice_rows H N ! i) = (H * (int i + 1) + N div 2) div N) \<and>
    (\<forall>i < nat N.
        start_mb_y (assign_slice_rows H N ! i) < end_mb_y (assign_slice_rows H N ! i)) \<and>
    (\<forall>i. Suc i < nat N \<longrightarrow>
        end_mb_y (assign_slice_rows H N ! i) = start_mb_y (assign_slice_rows H N ! Suc i)) \<and>
    (\<forall>i < nat N. \<forall>j < nat N. i \<noteq> j \<longrightarrow>
        rows_of (assign_slice_rows H N ! i) \<inter> rows_of (assign_slice_rows H N ! j) = {}) \<and>
    (\<Union>i < nat N. rows_of (assign_slice_rows H N ! i)) = {0 ..< H}"
proof -
  have H0: "0 \<le> H" using assms by simp
  have len: "length (assign_slice_rows H N) = nat N"
    using assms by (simp add: assign_slice_rows_length)
  have formula: "\<forall>i < nat N.
        start_mb_y (assign_slice_rows H N ! i) = (H * int i + N div 2) div N \<and>
        end_mb_y (assign_slice_rows H N ! i) = (H * (int i + 1) + N div 2) div N"
    using assms H0 by (simp add: assign_slice_rows_nth slice_start_div)
  have nonempty: "\<forall>i < nat N.
        start_mb_y (assign_slice_rows H N ! i) < end_mb_y (assign_slice_rows H N ! i)"
    using assms H0 by (simp add: assign_slice_rows_nth slice_start_step)
  have contiguous: "\<forall>i. Suc i < nat N \<longrightarrow>
        end_mb_y (assign_slice_rows H N ! i) = start_mb_y (assign_slice_rows H N ! Suc i)"
    using assms H0 by (simp add: assign_slice_rows_nth add.commute)
  have disjoint: "\<forall>i < nat N. \<forall>j < nat N. i \<noteq> j \<longrightarrow>
        rows_of (assign_slice_rows H N ! i) \<inter> rows_of (assign_slice_rows H N ! j) = {}"
  proof (intro allI impI)
    fix i j assume ij: "i < nat N" "j < nat N" "i \<noteq> j"
    show "rows_of (assign_slice_rows H N ! i) \<inter> rows_of (assign_slice_rows H N ! j) = {}"
    proof (cases "i < j")
      case True
      then show ?thesis using assms ij by (simp add: rows_disjoint_lt)
    next
      case False
      then have "j < i" using ij by simp
      then have "rows_of (assign_slice_rows H N ! j) \<inter> rows_of (assign_slice_rows H N ! i) = {}"
        using assms ij by (simp add: rows_disjoint_lt)
      then show ?thesis by (simp add: Int_commute)
    qed
  qed
  have "(\<Union>i < nat N. rows_of (assign_slice_rows H N ! i))
        = (\<Union>i < nat N. {slice_start H N (int i) ..< slice_start H N (int i + 1)})"
    using assms H0 by (simp add: rows_of_nth)
  also have "\<dots> = {slice_start H N 0 ..< slice_start H N (int (nat N))}"
    using assms by (intro slice_union_upto) simp_all
  also have "\<dots> = {0 ..< H}"
    using assms H0 by (simp add: slice_start_0 slice_start_last)
  finally have cover: "(\<Union>i < nat N. rows_of (assign_slice_rows H N ! i)) = {0 ..< H}" .
  from len formula nonempty contiguous disjoint cover show ?thesis by blast
qed

theorem slice_rows_partition_witness:
  "length (assign_slice_rows 5 3) = 3 \<and>
   map (\<lambda>r. (start_mb_y r, end_mb_y r)) (assign_slice_rows 5 3) = [(0, 2), (2, 3), (3, 5)] \<and>
   (\<Union>i < 3. rows_of (assign_slice_rows 5 3 ! i)) = {0 ..< 5}"
proof -
  have "map (\<lambda>r. (start_mb_y r, end_mb_y r)) (assign_slice_rows 5 3) = [(0, 2), (2, 3), (3, 5)]"
    by (simp add: assign_slice_rows_def slice_start_def slice_end_def c_div_def upt_conv_Cons)
  moreover have "nat 3 = (3::nat)" by simp
  ultimately show ?thesis
    using slice_rows_partition [of 5 3] by simp
qed

section \<open>Properties of the picture pool\<close>

lemma first_slot_None:
  "first_slot test ps i = None \<longleftrightarrow> (\<forall>p \<in> set ps. \<not> test p)"
  by (induction ps arbitrary: i) auto

lemma first_slot_Some:
  "first_slot test ps i = Some r \<Longrightarrow>
     i \<le> r \<and> r < i + int (length ps) \<and> test (ps ! nat (r - i)) \<and>
     (\<forall>k < nat (r - i). \<not> test (ps ! k))"
proof (induction ps arbitrary: i)
  case Nil then show ?case by simp
next
  case (Cons p ps)
  show ?case
  proof (cases "test p")
    case True
    with Cons.prems show ?thesis by simp
  next
    case False
    with Cons.prems have r: "first_slot test ps (i + 1) = Some r" by simp
    from Cons.IH [OF r] have ih: "i + 1 \<le> r" "r < i + 1 + int (length ps)"
      "test (ps ! nat (r - (i + 1)))" "\<forall>k < nat (r - (i + 1)). \<not> test (ps ! k)" by auto
    have n: "nat (r - i) = Suc (nat (r - (i + 1)))" using ih(1) by simp
    have "\<forall>k < nat (r - i). \<not> test ((p # ps) ! k)"
    proof (intro allI impI)
      fix k assume "k < nat (r - i)"
      then show "\<not> test ((p # ps) ! k)" using False ih(4) n by (cases k) auto
    qed
    then show ?thesis using ih n by simp
  qed
qed


lemma find_unused_picture_first_slot:
  assumes "test = (if sh \<noteq> 0 then (\<lambda>p. buf0 (pic_f p) = None) else (\<lambda>p. pic_is_unused p \<noteq> 0))"
  shows "find_unused_picture pool sh =
         (case first_slot test pool 0 of Some i \<Rightarrow> i | None \<Rightarrow> AVERROR_INVALIDDATA)"
  by (cases "sh = 0") (simp_all add: assms find_unused_picture_def)

lemma find_unused_picture_cases:
  assumes "test = (if sh \<noteq> 0 then (\<lambda>p. buf0 (pic_f p) = None) else (\<lambda>p. pic_is_unused p \<noteq> 0))"
  shows "(find_unused_picture pool sh = AVERROR_INVALIDDATA \<and> (\<forall>p \<in> set pool. \<not> test p)) \<or>
         (0 \<le> find_unused_picture pool sh \<and> find_unused_picture pool sh < int (length pool) \<and>
          test (pool ! nat (find_unused_picture pool sh)) \<and>
          (\<forall>k < nat (find_unused_picture pool sh). \<not> test (pool ! k)))"
proof (cases "first_slot test pool 0")
  case None
  then have "\<forall>p \<in> set pool. \<not> test p" by (simp add: first_slot_None)
  moreover have "find_unused_picture pool sh = AVERROR_INVALIDDATA"
    using None by (simp add: find_unused_picture_first_slot [OF assms])
  ultimately show ?thesis by simp
next
  case (Some r)
  have "find_unused_picture pool sh = r"
    using Some by (simp add: find_unused_picture_first_slot [OF assms])
  then show ?thesis using first_slot_Some [OF Some] by simp
qed

lemma ff_find_unused_picture_fst:
  "fst (ff_find_unused_picture pool sh) = find_unused_picture pool sh"
  by (simp add: ff_find_unused_picture_def Let_def)

lemma pic_is_unused_iff:
  "pic_is_unused p \<noteq> 0 \<longleftrightarrow>
     buf0 (pic_f p) = None \<or>
     (needs_realloc p \<noteq> 0 \<and> c_and (reference p) DELAYED_PIC_REF = 0)"
  by (simp add: pic_is_unused_def)

text \<open>
  C5. For every pool, \<open>ff_find_unused_picture\<close> with \<open>shared\<close> set returns the index of
  a slot without pixel buffer, and with \<open>shared\<close> clear the index of a slot that is
  unused (no pixel buffer, or \<open>needs_realloc\<close> set and not a delayed reference); it
  returns a negative value, the error \<open>AVERROR_INVALIDDATA\<close>, exactly when no slot of the
  pool passes the respective test.
\<close>

theorem ff_find_unused_picture_slot:
  fixes pool :: "Picture list" and sh :: int
  defines "ret \<equiv> fst (ff_find_unused_picture pool sh)"
  defines "free \<equiv> (\<lambda>p. if sh \<noteq> 0 then buf0 (pic_f p) = None
                         else buf0 (pic_f p) = None \<or>
                              (needs_realloc p \<noteq> 0 \<and> c_and (reference p) DELAYED_PIC_REF = 0))"
  shows "(ret < 0 \<longleftrightarrow> \<not> (\<exists>i < length pool. free (pool ! i))) \<and>
         (ret < 0 \<longrightarrow> ret = AVERROR_INVALIDDATA) \<and>
         (\<not> ret < 0 \<longrightarrow> ret < int (length pool) \<and> free (pool ! nat ret))"
proof -
  define test where
    "test = (if sh \<noteq> 0 then (\<lambda>p. buf0 (pic_f p) = None) else (\<lambda>p. pic_is_unused p \<noteq> 0))"
  have tf: "test p = free p" for p
    by (simp add: test_def free_def pic_is_unused_iff)
  have r: "ret = find_unused_picture pool sh"
    by (simp add: ret_def ff_find_unused_picture_fst)
  from find_unused_picture_cases [OF test_def, of pool]
  show ?thesis
  proof
    assume a: "find_unused_picture pool sh = AVERROR_INVALIDDATA \<and> (\<forall>p \<in> set pool. \<not> test p)"
    then have "\<not> (\<exists>i < length pool. free (pool ! i))" by (auto simp: tf)
    moreover have "ret < 0" using a r by (simp add: AVERROR_INVALIDDATA_def)
    ultimately show ?thesis using a r by simp
  next
    assume b: "0 \<le> find_unused_picture pool sh \<and> find_unused_picture pool sh < int (length pool) \<and>
          test (pool ! nat (find_unused_picture pool sh)) \<and>
          (\<forall>k < nat (find_unused_picture pool sh). \<not> test (pool ! k))"
    then have "nat ret < length pool" "free (pool ! nat ret)" using r by (auto simp: tf)
    then have "\<exists>i < length pool. free (pool ! i)" by blast
    then show ?thesis using b r by (simp add: tf)
  qed
qed

theorem ff_find_unused_picture_slot_witness:
  "fst (ff_find_unused_picture
          [blank_picture\<lparr>pic_f := blank_frame\<lparr>buf0 := Some 1\<rparr>\<rparr>, blank_picture] 0) = 1 \<and>
   buf0 (pic_f ([blank_picture\<lparr>pic_f := blank_frame\<lparr>buf0 := Some 1\<rparr>\<rparr>, blank_picture] ! 1)) = None \<and>
   fst (ff_find_unused_picture
          [blank_picture\<lparr>pic_f := blank_frame\<lparr>buf0 := Some 1\<rparr>\<rparr>] 1) = AVERROR_INVALIDDATA"
  using ff_find_unused_picture_slot
          [of "[blank_picture\<lparr>pic_f := blank_frame\<lparr>buf0 := Some 1\<rparr>\<rparr>, blank_picture]" 0]
        ff_find_unused_picture_slot
          [of "[blank_picture\<lparr>pic_f := blank_frame\<lparr>buf0 := Some 1\<rparr>\<rparr>]" 1]
  by (simp add: ff_find_unused_picture_def find_unused_picture_def pic_is_unused_def
        blank_picture_def blank_frame_def AVERROR_INVALIDDATA_def Let_def)

section \<open>Properties of the dequantizers\<close>

declare unquantize_loop.simps [simp del]

lemma unquantize_loop_done:
  "\<not> i \<le> nCoeffs \<Longrightarrow> unquantize_loop dq pos nCoeffs i (blk, sumv) = (blk, sumv)"
  by (simp add: unquantize_loop.simps)

lemma unquantize_loop_nonzero:
  "i \<le> nCoeffs \<Longrightarrow> load_coeff blk (pos i) \<noteq> 0 \<Longrightarrow>
   unquantize_loop dq pos nCoeffs i (blk, sumv) =
   unquantize_loop dq pos nCoeffs (i + 1)
     (blk[pos i := store_coeff (dq (pos i) (load_coeff blk (pos i)))],
      sumv + dq (pos i) (load_coeff blk (pos i)))"
  by (subst unquantize_loop.simps) (simp add: Let_def)

lemma unquantize_loop_zero:
  "i \<le> nCoeffs \<Longrightarrow> load_coeff blk (pos i) = 0 \<Longrightarrow>
   unquantize_loop dq pos nCoeffs i (blk, sumv) =
   unquantize_loop dq pos nCoeffs (i + 1) (blk, sumv)"
  by (subst unquantize_loop.simps) (simp add: Let_def)

lemma unquantize_loop_induct [case_names finished nonzero zero]:
  fixes nCoeffs :: int and pos :: "int \<Rightarrow> nat"
  assumes d: "\<And>i blk sumv. \<not> i \<le> nCoeffs \<Longrightarrow> P i blk sumv"
    and nz: "\<And>i blk sumv. i \<le> nCoeffs \<Longrightarrow> load_coeff blk (pos i) \<noteq> 0 \<Longrightarrow>
               P (i + 1) (blk[pos i := store_coeff (dq (pos i) (load_coeff blk (pos i)))])
                 (sumv + dq (pos i) (load_coeff blk (pos i))) \<Longrightarrow> P i blk sumv"
    and z: "\<And>i blk sumv. i \<le> nCoeffs \<Longrightarrow> load_coeff blk (pos i) = 0 \<Longrightarrow>
               P (i + 1) blk sumv \<Longrightarrow> P i blk sumv"
  shows "P i blk (sumv :: c_int)"
proof (induction "nat (nCoeffs + 1 - i)" arbitrary: i blk sumv)
  case 0
  then have "\<not> i \<le> nCoeffs" by simp
  then show ?case by (rule d)
next
  case (Suc k)
  then have le: "i \<le> nCoeffs" and k: "k = nat (nCoeffs + 1 - (i + 1))" by simp_all
  show ?case
  proof (cases "load_coeff blk (pos i) = 0")
    case True
    from le True Suc.hyps(1) [OF k] show ?thesis by (rule z)
  next
    case False
    from le False Suc.hyps(1) [OF k] show ?thesis by (rule nz)
  qed
qed

lemma int_range_split: "i \<le> n \<Longrightarrow> {i..n} = insert i {i + 1..n}" for i n :: int
  by auto

lemma unquantize_loop_length:
  "length (fst (unquantize_loop dq pos nCoeffs i (blk, sumv))) = length blk"
proof (induction i blk sumv rule: unquantize_loop_induct [where nCoeffs = nCoeffs and pos = pos and dq = dq])
  case (finished i blk sumv)
  then show ?case by (simp add: unquantize_loop_done)
next
  case (nonzero i blk sumv)
  then show ?case by (simp add: unquantize_loop_nonzero)
next
  case (zero i blk sumv)
  then show ?case by (simp add: unquantize_loop_zero)
qed

lemma unquantize_loop_all_zero:
  assumes "\<forall>k. i \<le> k \<and> k \<le> nCoeffs \<longrightarrow> load_coeff blk (pos k) = 0"
  shows "unquantize_loop dq pos nCoeffs i (blk, sumv) = (blk, sumv)"
  using assms
proof (induction i blk sumv rule: unquantize_loop_induct [where nCoeffs = nCoeffs and pos = pos and dq = dq])
  case (finished i blk sumv)
  then show ?case by (simp add: unquantize_loop_done)
next
  case (nonzero i blk sumv)
  then show ?case by auto
next
  case (zero i blk sumv)
  then show ?case by (simp add: unquantize_loop_zero)
qed

lemma unquantize_loop_nth:
  assumes "inj_on pos {i..nCoeffs}" and "p < length blk"
  shows "fst (unquantize_loop dq pos nCoeffs i (blk, sumv)) ! p =
         (if p \<in> pos ` {i..nCoeffs} then requant dq blk p else blk ! p)"
  using assms
proof (induction i blk sumv rule: unquantize_loop_induct [where nCoeffs = nCoeffs and pos = pos and dq = dq])
  case (finished i blk sumv)
  then show ?case by (simp add: unquantize_loop_done)
next
  case (nonzero i blk sumv)
  let ?v = "store_coeff (dq (pos i) (load_coeff blk (pos i)))"
  let ?blk = "blk[pos i := ?v]"
  have split: "{i..nCoeffs} = insert i {i + 1..nCoeffs}"
    using nonzero.hyps(1) by (rule int_range_split)
  have inj: "inj_on pos {i + 1..nCoeffs}" and notin: "pos i \<notin> pos ` {i + 1..nCoeffs}"
    using nonzero.prems(1) unfolding split by (auto simp: inj_on_def)
  have ih: "fst (unquantize_loop dq pos nCoeffs (i + 1)
                   (?blk, sumv + dq (pos i) (load_coeff blk (pos i)))) ! p =
            (if p \<in> pos ` {i + 1..nCoeffs} then requant dq ?blk p else ?blk ! p)"
    using nonzero.IH [OF inj] nonzero.prems(2) by simp
  show ?case
  proof (cases "p = pos i")
    case True
    then have "?blk ! p = requant dq blk p"
      using nonzero.hyps(2) nonzero.prems(2) by (simp add: requant_def)
    then show ?thesis
      using ih True notin nonzero.hyps by (simp add: unquantize_loop_nonzero split)
  next
    case False
    then have "requant dq ?blk p = requant dq blk p" "?blk ! p = blk ! p"
      by (simp_all add: requant_def load_coeff_def)
    then show ?thesis
      using ih False nonzero.hyps by (simp add: unquantize_loop_nonzero split)
  qed
next
  case (zero i blk sumv)
  have split: "{i..nCoeffs} = insert i {i + 1..nCoeffs}"
    using zero.hyps(1) by (rule int_range_split)
  have inj: "inj_on pos {i + 1..nCoeffs}"
    using zero.prems(1) unfolding split by (auto simp: inj_on_def)
  have "requant dq blk (pos i) = blk ! pos i"
    using zero.hyps(2) by (simp add: requant_def)
  then show ?case
    using zero.IH [OF inj zero.prems(2)] zero.hyps
    by (auto simp: unquantize_loop_zero split)
qed


lemma unquantize_loop_sum:
  assumes "inj_on pos {i..nCoeffs}"
  shows "snd (unquantize_loop dq pos nCoeffs i (blk, sumv)) =
         sumv + (\<Sum>k \<in> {i..nCoeffs}. level_at dq blk (pos k))"
  using assms
proof (induction i blk sumv rule: unquantize_loop_induct [where nCoeffs = nCoeffs and pos = pos and dq = dq])
  case (finished i blk sumv)
  then show ?case by (simp add: unquantize_loop_done)
next
  case (nonzero i blk sumv)
  let ?l = "dq (pos i) (load_coeff blk (pos i))"
  let ?blk = "blk[pos i := store_coeff ?l]"
  have split: "{i..nCoeffs} = insert i {i + 1..nCoeffs}"
    using nonzero.hyps(1) by (rule int_range_split)
  have inj: "inj_on pos {i + 1..nCoeffs}" and notin: "pos i \<notin> pos ` {i + 1..nCoeffs}"
    using nonzero.prems(1) unfolding split by (auto simp: inj_on_def)
  have same: "level_at dq ?blk (pos k) = level_at dq blk (pos k)" if "k \<in> {i + 1..nCoeffs}" for k
  proof -
    have "pos k \<noteq> pos i" using that notin by (metis imageI)
    then show ?thesis by (simp add: level_at_def load_coeff_def)
  qed
  have "(\<Sum>k \<in> {i..nCoeffs}. level_at dq blk (pos k)) =
        level_at dq blk (pos i) + (\<Sum>k \<in> {i + 1..nCoeffs}. level_at dq blk (pos k))"
    unfolding split by simp
  also have "level_at dq blk (pos i) = ?l"
    using nonzero.hyps(2) by (simp add: level_at_def)
  also have "(\<Sum>k \<in> {i + 1..nCoeffs}. level_at dq blk (pos k)) =
             (\<Sum>k \<in> {i + 1..nCoeffs}. level_at dq ?blk (pos k))"
    using same by simp
  finally show ?case
    using nonzero.IH [OF inj] nonzero.hyps by (simp add: unquantize_loop_nonzero add.assoc)
next
  case (zero i blk sumv)
  have split: "{i..nCoeffs} = insert i {i + 1..nCoeffs}"
    using zero.hyps(1) by (rule int_range_split)
  have inj: "inj_on pos {i + 1..nCoeffs}"
    using zero.prems(1) unfolding split by (auto simp: inj_on_def)
  have "(\<Sum>k \<in> {i..nCoeffs}. level_at dq blk (pos k)) =
        level_at dq blk (pos i) + (\<Sum>k \<in> {i + 1..nCoeffs}. level_at dq blk (pos k))"
    unfolding split by simp
  also have "level_at dq blk (pos i) = 0"
    using zero.hyps(2) by (simp add: level_at_def)
  finally show ?case
    using zero.IH [OF inj] zero.hyps by (simp add: unquantize_loop_zero)
qed

lemma permutated_pos_inj:
  assumes "scantable_ok (intra_scantable_permutated s)" and "nCoeffs \<le> 63"
  shows "inj_on (permutated_pos s) {0..nCoeffs}"
proof (rule inj_onI)
  fix a b assume a: "a \<in> {0..nCoeffs}" and b: "b \<in> {0..nCoeffs}"
    and eq: "permutated_pos s a = permutated_pos s b"
  let ?perm = "intra_scantable_permutated s"
  have la: "nat a < length ?perm" and lb: "nat b < length ?perm"
    using a b assms by (auto simp: scantable_ok_def)
  have "?perm ! nat a = ?perm ! nat b"
    using eq by (simp add: permutated_pos_def word_unat_eq_iff)
  then have "nat a = nat b"
    using assms(1) la lb by (simp add: scantable_ok_def nth_eq_iff_index_eq)
  then show "a = b" using a b by (simp add: eq_nat_nat_iff)
qed

lemma permutated_pos_less:
  assumes "scantable_ok (intra_scantable_permutated s)" and "0 \<le> k" "k \<le> 63"
  shows "permutated_pos s k < 64"
proof -
  let ?perm = "intra_scantable_permutated s"
  have "nat k < length ?perm" using assms by (simp add: scantable_ok_def)
  then have "?perm ! nat k \<in> set ?perm" by simp
  then have "?perm ! nat k < 64" using assms(1) by (simp add: scantable_ok_def list_all_iff)
  then show ?thesis by (simp add: permutated_pos_def word_less_nat_alt)
qed

lemma permutated_pos_0:
  "scantable_ok (intra_scantable_permutated s) \<Longrightarrow> permutated_pos s 0 = 0"
  by (simp add: scantable_ok_def permutated_pos_def)

lemma permutated_pos_nonzero:
  assumes "scantable_ok (intra_scantable_permutated s)" and "1 \<le> k" "k \<le> 63"
  shows "permutated_pos s k \<noteq> 0"
proof
  assume "permutated_pos s k = 0"
  then have "permutated_pos s k = permutated_pos s 0"
    using assms(1) by (simp add: permutated_pos_0)
  moreover have "inj_on (permutated_pos s) {0..63}"
    using assms(1) by (rule permutated_pos_inj) simp
  ultimately have "k = 0" using assms by (auto simp: inj_on_def)
  then show False using assms by simp
qed

lemma load_coeff_eq_0: "load_coeff blk j = 0 \<longleftrightarrow> blk ! j = 0"
proof
  assume a: "load_coeff blk j = 0"
  have "sint (scast (blk ! j) :: c_int) = sint (blk ! j)"
    by (rule sint_up_scast) (simp add: is_up)
  with a have "sint (blk ! j) = 0" by (simp add: load_coeff_def)
  then show "blk ! j = 0" by (metis signed_eq_0_iff)
qed (simp add: load_coeff_def)

lemma mpeg1_intra_level_sign_abs:
  "mpeg1_intra_level qm qs j c =
     c_sign c * ((c_shr (c_abs c * qs * ucast (qm ! j)) 3 - 1) OR 1)"
  by (simp add: mpeg1_intra_level_def c_sign_def c_abs_def)

lemma scale_dc_length: "length (scale_dc s blk n) = length blk"
  by (simp add: scale_dc_def)

lemma scale_dc_nth:
  "p < length blk \<Longrightarrow> scale_dc s blk n ! p =
     (if p = 0 then store_coeff (load_coeff blk 0 *
                      word_of_int (if n < 4 then y_dc_scale s else c_dc_scale s))
      else blk ! p)"
  by (cases p) (simp_all add: scale_dc_def)

text \<open>
  C7. \<open>dct_unquantize_mpeg1_intra_c\<close> multiplies the DC coefficient (position 0) by the
  luma DC scale for block indices below 4 and by the chroma DC scale otherwise; every
  non-zero AC coefficient at the scan-permuted position \<open>j\<close> of a scan index \<open>i\<close> from 1 to
  the last index becomes \<open>sign(coeff) * ((((|coeff| * qscale * matrix[j]) >> 3) - 1) | 1)\<close>
  (in \<open>int\<close> arithmetic, stored as \<open>int16_t\<close>); zero AC coefficients, and the positions
  the scan does not reach, are unchanged.
\<close>

theorem dct_unquantize_mpeg1_intra_c_levels:
  fixes s :: dequant_ctx and blk :: "int16_t list" and n :: int and qs :: c_int
  defines "nCoeffs \<equiv> block_last_index s ! nat n"
  defines "out \<equiv> dct_unquantize_mpeg1_intra_c s blk n qs"
  assumes len: "length blk = 64"
    and scan: "scantable_ok (intra_scantable_permutated s)"
    and last: "nCoeffs \<le> 63"
  shows "out ! 0 = store_coeff (load_coeff blk 0 *
                     word_of_int (if n < 4 then y_dc_scale s else c_dc_scale s)) \<and>
         (\<forall>i. 1 \<le> i \<and> i \<le> nCoeffs \<longrightarrow>
            out ! permutated_pos s i =
              (if blk ! permutated_pos s i = 0 then 0
               else store_coeff
                      (c_sign (load_coeff blk (permutated_pos s i)) *
                       ((c_shr (c_abs (load_coeff blk (permutated_pos s i)) * qs *
                                ucast (intra_matrix s ! permutated_pos s i)) 3 - 1) OR 1)))) \<and>
         (\<forall>p < 64. p \<noteq> 0 \<and> p \<notin> permutated_pos s ` {1..nCoeffs} \<longrightarrow> out ! p = blk ! p)"
proof -
  let ?dq = "mpeg1_intra_level (intra_matrix s) qs"
  let ?blk1 = "scale_dc s blk n"
  have out: "out = fst (unquantize_loop ?dq (permutated_pos s) nCoeffs 1 (?blk1, 0))"
    by (simp add: out_def nCoeffs_def dct_unquantize_mpeg1_intra_c_def Let_def)
  have inj0: "inj_on (permutated_pos s) {0..nCoeffs}"
    using scan last by (rule permutated_pos_inj)
  then have inj: "inj_on (permutated_pos s) {1..nCoeffs}"
    by (rule inj_on_subset) auto
  have nth: "out ! p = (if p \<in> permutated_pos s ` {1..nCoeffs} then requant ?dq ?blk1 p
                        else ?blk1 ! p)" if "p < 64" for p
    unfolding out using inj that len by (intro unquantize_loop_nth) (simp_all add: scale_dc_length)
  have notzero: "0 \<notin> permutated_pos s ` {1..nCoeffs}"
    using permutated_pos_nonzero [OF scan] last by force
  have dc: "out ! 0 = store_coeff (load_coeff blk 0 *
                     word_of_int (if n < 4 then y_dc_scale s else c_dc_scale s))"
    using nth [of 0] notzero len by (simp add: scale_dc_nth)
  have ac: "out ! permutated_pos s i =
              (if blk ! permutated_pos s i = 0 then 0
               else store_coeff
                      (c_sign (load_coeff blk (permutated_pos s i)) *
                       ((c_shr (c_abs (load_coeff blk (permutated_pos s i)) * qs *
                                ucast (intra_matrix s ! permutated_pos s i)) 3 - 1) OR 1)))"
    if i: "1 \<le> i" "i \<le> nCoeffs" for i
  proof -
    let ?j = "permutated_pos s i"
    have j64: "?j < 64" using permutated_pos_less [OF scan, of i] i last by simp
    have j0: "?j \<noteq> 0" using permutated_pos_nonzero [OF scan, of i] i last by simp
    have jin: "?j \<in> permutated_pos s ` {1..nCoeffs}" using i by simp
    have same: "?blk1 ! ?j = blk ! ?j" using j64 j0 len by (simp add: scale_dc_nth)
    then have ld: "load_coeff ?blk1 ?j = load_coeff blk ?j" by (simp add: load_coeff_def)
    have z: "load_coeff blk ?j = 0 \<longleftrightarrow> blk ! ?j = 0"
      by (rule load_coeff_eq_0)
    have "out ! ?j = requant ?dq ?blk1 ?j" using nth [OF j64] jin by simp
    then show ?thesis
      using same ld z by (simp add: requant_def mpeg1_intra_level_sign_abs)
  qed
  have rest: "out ! p = blk ! p" if "p < 64" "p \<noteq> 0" "p \<notin> permutated_pos s ` {1..nCoeffs}" for p
    using nth [OF that(1)] that len by (simp add: scale_dc_nth)
  from dc ac rest show ?thesis by blast
qed

lemma scantable_ok_vertical: "scantable_ok ff_alternate_vertical_scan"
  by (simp add: scantable_ok_def ff_alternate_vertical_scan_def)

theorem dct_unquantize_mpeg1_intra_c_levels_witness:
  "length ((replicate 64 0)[0 := 5, 8 := - 3, 16 := 2] :: int16_t list) = 64 \<and>
   scantable_ok (intra_scantable_permutated (flat16_ctx 3)) \<and>
   block_last_index (flat16_ctx 3) ! nat 0 \<le> 63 \<and>
   dct_unquantize_mpeg1_intra_c (flat16_ctx 3)
     ((replicate 64 0)[0 := 5, 8 := - 3, 16 := 2]) 0 8 ! 0 = 40 \<and>
   dct_unquantize_mpeg1_intra_c (flat16_ctx 3)
     ((replicate 64 0)[0 := 5, 8 := - 3, 16 := 2]) 0 8 ! 8 = - 47 \<and>
   dct_unquantize_mpeg1_intra_c (flat16_ctx 3)
     ((replicate 64 0)[0 := 5, 8 := - 3, 16 := 2]) 0 8 ! 16 = 31 \<and>
   dct_unquantize_mpeg1_intra_c (flat16_ctx 3)
     ((replicate 64 0)[0 := 5, 8 := - 3, 16 := 2]) 0 8 ! 24 = 0"
proof -
  have len: "length ((replicate 64 0)[0 := 5, 8 := - 3, 16 := 2] :: int16_t list) = 64"
    by simp
  have scan: "scantable_ok (intra_scantable_permutated (flat16_ctx 3))"
    by (simp add: flat16_ctx_def scantable_ok_vertical)
  have li: "block_last_index (flat16_ctx 3) ! nat 0 \<le> 63"
    by (simp add: flat16_ctx_def)
  note t = dct_unquantize_mpeg1_intra_c_levels [OF len scan li, of 8]
  have pos: "permutated_pos (flat16_ctx 3) 1 = 8" "permutated_pos (flat16_ctx 3) 2 = 16"
    "permutated_pos (flat16_ctx 3) 3 = 24"
    by (simp_all add: permutated_pos_def flat16_ctx_def ff_alternate_vertical_scan_def)
  have li3: "block_last_index (flat16_ctx 3) ! nat 0 = 3"
    by (simp add: flat16_ctx_def)
  from t have dc: "dct_unquantize_mpeg1_intra_c (flat16_ctx 3)
     ((replicate 64 0)[0 := 5, 8 := - 3, 16 := 2]) 0 8 ! 0 = 40"
    by (simp add: load_coeff_def store_coeff_def flat16_ctx_def)
  from t have ac: "\<And>i. 1 \<le> i \<Longrightarrow> i \<le> 3 \<Longrightarrow>
     dct_unquantize_mpeg1_intra_c (flat16_ctx 3)
       ((replicate 64 0)[0 := 5, 8 := - 3, 16 := 2]) 0 8 ! permutated_pos (flat16_ctx 3) i =
     (if ((replicate 64 0)[0 := 5, 8 := - 3, 16 := 2] :: int16_t list) ! permutated_pos (flat16_ctx 3) i = 0
      then 0
      else store_coeff
             (c_sign (load_coeff ((replicate 64 0)[0 := 5, 8 := - 3, 16 := 2]) (permutated_pos (flat16_ctx 3) i)) *
              ((c_shr (c_abs (load_coeff ((replicate 64 0)[0 := 5, 8 := - 3, 16 := 2])
                               (permutated_pos (flat16_ctx 3) i)) * 8 *
                       ucast (intra_matrix (flat16_ctx 3) ! permutated_pos (flat16_ctx 3) i)) 3 - 1) OR 1)))"
    unfolding li3 by blast
  have a1: "dct_unquantize_mpeg1_intra_c (flat16_ctx 3)
     ((replicate 64 0)[0 := 5, 8 := - 3, 16 := 2]) 0 8 ! 8 = - 47"
    using ac [of 1] unfolding pos
    by (simp add: load_coeff_def store_coeff_def c_sign_def c_abs_def c_shr_def
          flat16_ctx_def word_sless_alt)
  have a2: "dct_unquantize_mpeg1_intra_c (flat16_ctx 3)
     ((replicate 64 0)[0 := 5, 8 := - 3, 16 := 2]) 0 8 ! 16 = 31"
    using ac [of 2] unfolding pos
    by (simp add: load_coeff_def store_coeff_def c_sign_def c_abs_def c_shr_def
          flat16_ctx_def word_sless_alt)
  have a3: "dct_unquantize_mpeg1_intra_c (flat16_ctx 3)
     ((replicate 64 0)[0 := 5, 8 := - 3, 16 := 2]) 0 8 ! 24 = 0"
    using ac [of 3] unfolding pos by simp
  from len scan li dc a1 a2 a3 show ?thesis by blast
qed

lemma zero_block_load: "p < 64 \<Longrightarrow> load_coeff (replicate 64 0) p = 0"
  by (simp add: load_coeff_def)

lemma scale_dc_zero_block: "scale_dc s (replicate 64 0) n = replicate 64 0"
  by (simp add: scale_dc_def load_coeff_def store_coeff_def list_update_same_conv)

lemma toggle_last_zero_block: "toggle_last (replicate 64 0, - 1) = (replicate 64 0)[63 := 1]"
  by (simp add: toggle_last_def load_coeff_def store_coeff_def)

lemma permutated_loop_zero_block:
  assumes "scantable_ok (intra_scantable_permutated s)" and "nCoeffs \<le> 63" and "0 \<le> i"
  shows "unquantize_loop dq (permutated_pos s) nCoeffs i (replicate 64 0, sumv) =
         (replicate 64 0, sumv)"
proof (rule unquantize_loop_all_zero, intro allI impI)
  fix k assume "i \<le> k \<and> k \<le> nCoeffs"
  then have "permutated_pos s k < 64"
    using assms by (intro permutated_pos_less) simp_all
  then show "load_coeff (replicate 64 0) (permutated_pos s k) = 0"
    by (rule zero_block_load)
qed

lemma raster_loop_zero_block:
  assumes "nCoeffs \<le> 63" and "0 \<le> i"
  shows "unquantize_loop dq raster_pos nCoeffs i (replicate 64 0, sumv) =
         (replicate 64 0, sumv)"
proof (rule unquantize_loop_all_zero, intro allI impI)
  fix k assume "i \<le> k \<and> k \<le> nCoeffs"
  then have "raster_pos k < 64" using assms by (auto simp: raster_pos_def)
  then show "load_coeff (replicate 64 0) (raster_pos k) = 0"
    by (rule zero_block_load)
qed

lemma raster_end_le:
  assumes "raster_end_ok re" and "0 \<le> k" "k \<le> 63"
  shows "uint (re ! nat k) \<le> 63"
proof -
  have "nat k < length re" using assms by (simp add: raster_end_ok_def)
  then have "re ! nat k \<in> set re" by simp
  then have "re ! nat k < 64" using assms(1) by (simp add: raster_end_ok_def list_all_iff)
  then have "uint (re ! nat k) < 64" by (simp add: word_less_def)
  then show ?thesis by simp
qed

text \<open>
  C2, as the code has it. A block of 64 zero coefficients is left all zero by
  \<open>dct_unquantize_mpeg1_intra_c\<close>, \<open>dct_unquantize_mpeg1_inter_c\<close> and
  \<open>dct_unquantize_mpeg2_intra_c\<close>, and by the two H.263 functions whenever their
  assertion \<open>block_last_index[n] >= 0\<close> holds, for every \<open>qscale\<close> and block index. The
  two functions with mismatch control, \<open>dct_unquantize_mpeg2_intra_bitexact\<close> and
  \<open>dct_unquantize_mpeg2_inter_c\<close>, leave the block zero except for \<open>block[63]\<close>, which
  becomes 1: their sum starts at \<open>-1\<close>, so an even sum of levels (here the empty sum)
  toggles the last coefficient.
\<close>

theorem zero_block_dequantized:
  fixes s :: dequant_ctx and n :: int and qs :: c_int
  assumes scan: "scantable_ok (intra_scantable_permutated s)"
    and raster: "raster_end_ok (inter_scantable_raster_end s)"
    and last: "block_last_index s ! nat n \<le> 63"
  shows "dct_unquantize_mpeg1_intra_c s (replicate 64 0) n qs = replicate 64 0 \<and>
         dct_unquantize_mpeg1_inter_c s (replicate 64 0) n qs = replicate 64 0 \<and>
         dct_unquantize_mpeg2_intra_c s (replicate 64 0) n qs = replicate 64 0 \<and>
         dct_unquantize_h263_intra_c s (replicate 64 0) n qs =
           (if 0 \<le> block_last_index s ! nat n then Inr (replicate 64 0) else Inl AssertionFailed) \<and>
         dct_unquantize_h263_inter_c s (replicate 64 0) n qs =
           (if 0 \<le> block_last_index s ! nat n then Inr (replicate 64 0) else Inl AssertionFailed) \<and>
         dct_unquantize_mpeg2_intra_bitexact s (replicate 64 0) n qs = (replicate 64 0)[63 := 1] \<and>
         dct_unquantize_mpeg2_inter_c s (replicate 64 0) n qs = (replicate 64 0)[63 := 1]"
proof -
  have n2: "(if alternate_scan s \<noteq> 0 then 63 else block_last_index s ! nat n) \<le> 63"
    using last by simp
  have a: "dct_unquantize_mpeg1_intra_c s (replicate 64 0) n qs = replicate 64 0"
    using scan last
    by (simp add: dct_unquantize_mpeg1_intra_c_def scale_dc_zero_block permutated_loop_zero_block)
  have b: "dct_unquantize_mpeg1_inter_c s (replicate 64 0) n qs = replicate 64 0"
    using scan last
    by (simp add: dct_unquantize_mpeg1_inter_c_def permutated_loop_zero_block)
  have c: "dct_unquantize_mpeg2_intra_c s (replicate 64 0) n qs = replicate 64 0"
    using permutated_loop_zero_block [OF scan n2]
    by (simp add: dct_unquantize_mpeg2_intra_c_def scale_dc_zero_block)
  have d: "dct_unquantize_h263_intra_c s (replicate 64 0) n qs =
           (if 0 \<le> block_last_index s ! nat n then Inr (replicate 64 0) else Inl AssertionFailed)"
  proof (cases "0 \<le> block_last_index s ! nat n")
    case True
    from raster_end_le [OF raster True last] True show ?thesis
      by (simp add: dct_unquantize_h263_intra_c_def scale_dc_zero_block
            raster_loop_zero_block Let_def)
  next
    case False
    then show ?thesis by (simp add: dct_unquantize_h263_intra_c_def)
  qed
  have e: "dct_unquantize_h263_inter_c s (replicate 64 0) n qs =
           (if 0 \<le> block_last_index s ! nat n then Inr (replicate 64 0) else Inl AssertionFailed)"
  proof (cases "0 \<le> block_last_index s ! nat n")
    case True
    from raster_end_le [OF raster True last] True show ?thesis
      by (simp add: dct_unquantize_h263_inter_c_def raster_loop_zero_block Let_def)
  next
    case False
    then show ?thesis by (simp add: dct_unquantize_h263_inter_c_def)
  qed
  have f: "dct_unquantize_mpeg2_intra_bitexact s (replicate 64 0) n qs = (replicate 64 0)[63 := 1]"
    using permutated_loop_zero_block [OF scan n2]
    by (simp add: dct_unquantize_mpeg2_intra_bitexact_def scale_dc_zero_block
          toggle_last_zero_block)
  have g: "dct_unquantize_mpeg2_inter_c s (replicate 64 0) n qs = (replicate 64 0)[63 := 1]"
    using permutated_loop_zero_block [OF scan n2]
    by (simp add: dct_unquantize_mpeg2_inter_c_def toggle_last_zero_block)
  from a b c d e f g show ?thesis by blast
qed

text \<open>
  C2 as stated fails: on an all-zero block with last index 0 the two functions with
  mismatch control return \<open>block[63] = 1\<close>.
\<close>

theorem zero_block_counterexample:
  "dct_unquantize_mpeg2_intra_bitexact (flat16_ctx 0) (replicate 64 0) 0 8 ! 63 = 1 \<and>
   dct_unquantize_mpeg2_inter_c (flat16_ctx 0) (replicate 64 0) 0 8 ! 63 = 1"
  by (simp add: dct_unquantize_mpeg2_intra_bitexact_def dct_unquantize_mpeg2_inter_c_def
      flat16_ctx_def scale_dc_def unquantize_loop.simps permutated_pos_def
      ff_alternate_vertical_scan_def toggle_last_def load_coeff_def store_coeff_def Let_def)

theorem zero_block_dequantized_witness:
  "scantable_ok (intra_scantable_permutated (flat16_ctx 5)) \<and>
   raster_end_ok (inter_scantable_raster_end (flat16_ctx 5)) \<and>
   block_last_index (flat16_ctx 5) ! nat 2 \<le> 63 \<and>
   dct_unquantize_mpeg1_intra_c (flat16_ctx 5) (replicate 64 0) 2 8 = replicate 64 0 \<and>
   dct_unquantize_h263_inter_c (flat16_ctx 5) (replicate 64 0) 2 8 = Inr (replicate 64 0) \<and>
   dct_unquantize_mpeg2_inter_c (flat16_ctx 5) (replicate 64 0) 2 8 = (replicate 64 0)[63 := 1]"
proof -
  have scan: "scantable_ok (intra_scantable_permutated (flat16_ctx 5))"
    by (simp add: flat16_ctx_def scantable_ok_vertical)
  have raster: "raster_end_ok (inter_scantable_raster_end (flat16_ctx 5))"
    by (simp add: flat16_ctx_def raster_end_ok_def ff_alternate_vertical_scan_def)
  have last: "block_last_index (flat16_ctx 5) ! nat 2 \<le> 63"
    by (simp add: flat16_ctx_def)
  have "0 \<le> block_last_index (flat16_ctx 5) ! nat 2"
    by (simp add: flat16_ctx_def)
  with zero_block_dequantized [OF scan raster last, of 8] scan raster last
  show ?thesis by simp
qed

lemma pred_and_one: "(x - 1) AND 1 = (if even x then 1 else 0)" for x :: c_int
proof -
  have "odd (x - 1) \<longleftrightarrow> even x" by simp
  then show ?thesis by (simp add: and_one_eq mod_2_eq_odd)
qed

lemma store_load_xor: "store_coeff (load_coeff blk j XOR b) = blk ! j XOR ucast b"
  apply (simp add: store_coeff_def load_coeff_def)
  apply (rule bit_word_eqI)
  apply (auto simp: bit_simps)
  done

lemma even_store_coeff: "even (store_coeff l) \<longleftrightarrow> even l"
proof -
  have "bit (ucast l :: int16_t) 0 \<longleftrightarrow> bit l 0" by (simp add: bit_simps)
  then show ?thesis by (simp add: bit_0 store_coeff_def)
qed

lemma even_sint16: "even (sint (x :: int16_t)) \<longleftrightarrow> even x"
proof -
  have "bit (sint x) 0 \<longleftrightarrow> bit x 0" by (simp add: bit_simps)
  then show ?thesis by (simp add: bit_0)
qed

lemma unquantize_loop_fst_sum:
  "fst (unquantize_loop dq pos nCoeffs i (blk, s1)) =
   fst (unquantize_loop dq pos nCoeffs i (blk, s2))"
proof (induction i blk s1 arbitrary: s2
       rule: unquantize_loop_induct [where nCoeffs = nCoeffs and pos = pos and dq = dq])
  case (finished i blk sumv)
  then show ?case by (simp add: unquantize_loop_done)
next
  case (nonzero i blk sumv)
  then show ?case by (simp add: unquantize_loop_nonzero)
next
  case (zero i blk sumv)
  then show ?case by (simp add: unquantize_loop_zero)
qed

lemma toggle_last_loop:
  assumes "inj_on pos {i..nCoeffs}"
  shows "toggle_last (unquantize_loop dq pos nCoeffs i (blk, - 1)) =
         (fst (unquantize_loop dq pos nCoeffs i (blk, 0)))
           [63 := fst (unquantize_loop dq pos nCoeffs i (blk, 0)) ! 63 XOR
                  (if even (\<Sum>k \<in> {i..nCoeffs}. level_at dq blk (pos k)) then 1 else 0)]"
proof -
  let ?r = "unquantize_loop dq pos nCoeffs i (blk, - 1)"
  let ?S = "\<Sum>k \<in> {i..nCoeffs}. level_at dq blk (pos k)"
  have f: "fst ?r = fst (unquantize_loop dq pos nCoeffs i (blk, 0))"
    by (rule unquantize_loop_fst_sum)
  have s: "snd ?r = ?S - 1"
    using unquantize_loop_sum [OF assms, of dq blk "- 1"] by simp
  have "toggle_last ?r = (fst ?r)[63 := store_coeff (load_coeff (fst ?r) 63 XOR (snd ?r AND 1))]"
    by (simp add: toggle_last_def case_prod_unfold)
  also have "\<dots> = (fst ?r)[63 := fst ?r ! 63 XOR ucast ((?S - 1) AND 1)]"
    by (simp add: store_load_xor s)
  also have "ucast ((?S - 1) AND 1) = (if even ?S then 1 else 0 :: int16_t)"
    by (simp add: pred_and_one)
  finally show ?thesis by (simp add: f)
qed

lemma resum_parity:
  assumes inj: "inj_on pos {i..nCoeffs}" and len: "\<forall>k \<in> {i..nCoeffs}. pos k < length blk"
  shows "even (\<Sum>k \<in> {i..nCoeffs}. level_at dq blk (pos k)) \<longleftrightarrow>
         even (\<Sum>k \<in> {i..nCoeffs}. sint (fst (unquantize_loop dq pos nCoeffs i (blk, 0)) ! pos k))"
proof -
  let ?out = "fst (unquantize_loop dq pos nCoeffs i (blk, 0))"
  have pt: "odd (level_at dq blk (pos k)) \<longleftrightarrow> odd (sint (?out ! pos k))"
    if k: "k \<in> {i..nCoeffs}" for k
  proof -
    have "?out ! pos k = requant dq blk (pos k)"
      using unquantize_loop_nth [OF inj, of "pos k" blk dq 0] k len by auto
    moreover have "even (requant dq blk (pos k)) \<longleftrightarrow> even (level_at dq blk (pos k))"
      by (simp add: requant_def level_at_def even_store_coeff load_coeff_eq_0)
    ultimately show ?thesis by (simp add: even_sint16)
  qed
  have "{a \<in> {i..nCoeffs}. odd (level_at dq blk (pos a))} =
        {a \<in> {i..nCoeffs}. odd (sint (?out ! pos a))}"
    using pt by blast
  then show ?thesis by (simp add: even_sum_iff)
qed


lemma level_at_scale_dc:
  "p \<noteq> 0 \<Longrightarrow> level_at dq (scale_dc s blk n) p = level_at dq blk p"
  by (simp add: level_at_def load_coeff_def scale_dc_def)

text \<open>
  C1, as the code has it. \<open>dct_unquantize_mpeg2_intra_bitexact\<close> returns the block of
  \<open>dct_unquantize_mpeg2_intra_c\<close> with \<open>block[63]\<close> XORed with the complement of the
  parity of the sum of the dequantized AC levels: the low bit is toggled exactly when
  that sum is even (the sum starts at \<open>-1\<close>). \<open>dct_unquantize_mpeg2_inter_c\<close> does the
  same with the sum of all its dequantized levels. The parity of either sum is the
  parity of the sum of the dequantized coefficients found in the block before the
  correction.
\<close>

theorem mpeg2_mismatch_control:
  fixes s :: dequant_ctx and blk :: "int16_t list" and n :: int and qs :: c_int
  assumes len: "length blk = 64"
    and scan: "scantable_ok (intra_scantable_permutated s)"
    and last: "mpeg2_nCoeffs s n \<le> 63"
  shows "dct_unquantize_mpeg2_intra_bitexact s blk n qs =
           (dct_unquantize_mpeg2_intra_c s blk n qs)
             [63 := dct_unquantize_mpeg2_intra_c s blk n qs ! 63 XOR
                    (if even (mpeg2_intra_sum s blk n qs) then 1 else 0)] \<and>
         dct_unquantize_mpeg2_inter_c s blk n qs =
           (mpeg2_inter_pre s blk n qs)
             [63 := mpeg2_inter_pre s blk n qs ! 63 XOR
                    (if even (mpeg2_inter_sum s blk n qs) then 1 else 0)] \<and>
         (even (mpeg2_intra_sum s blk n qs) \<longleftrightarrow>
          even (\<Sum>k \<in> {1..mpeg2_nCoeffs s n}.
                  sint (dct_unquantize_mpeg2_intra_c s blk n qs ! permutated_pos s k))) \<and>
         (even (mpeg2_inter_sum s blk n qs) \<longleftrightarrow>
          even (\<Sum>k \<in> {0..mpeg2_nCoeffs s n}.
                  sint (mpeg2_inter_pre s blk n qs ! permutated_pos s k)))"
proof -
  let ?nC = "mpeg2_nCoeffs s n"
  let ?dqi = "mpeg2_intra_level (intra_matrix s) qs"
  let ?dqp = "mpeg2_inter_level (inter_matrix s) qs"
  let ?blk1 = "scale_dc s blk n"
  have inj0: "inj_on (permutated_pos s) {0..?nC}"
    using scan last by (rule permutated_pos_inj)
  then have inj1: "inj_on (permutated_pos s) {1..?nC}"
    by (rule inj_on_subset) auto
  have lt: "permutated_pos s k < 64" if "k \<in> {0..?nC}" for k
    using permutated_pos_less [OF scan, of k] that last by simp
  have nz: "permutated_pos s k \<noteq> 0" if "k \<in> {1..?nC}" for k
    using permutated_pos_nonzero [OF scan, of k] that last by simp
  have sum1: "(\<Sum>k \<in> {1..?nC}. level_at ?dqi ?blk1 (permutated_pos s k)) =
              mpeg2_intra_sum s blk n qs"
    unfolding mpeg2_intra_sum_def
    by (rule sum.cong) (simp_all add: level_at_scale_dc nz)
  have intra: "dct_unquantize_mpeg2_intra_bitexact s blk n qs =
           (dct_unquantize_mpeg2_intra_c s blk n qs)
             [63 := dct_unquantize_mpeg2_intra_c s blk n qs ! 63 XOR
                    (if even (mpeg2_intra_sum s blk n qs) then 1 else 0)]"
    using toggle_last_loop [OF inj1, of ?dqi ?blk1]
    by (simp add: dct_unquantize_mpeg2_intra_bitexact_def dct_unquantize_mpeg2_intra_c_def
          sum1 flip: mpeg2_nCoeffs_def)
  have inter: "dct_unquantize_mpeg2_inter_c s blk n qs =
           (mpeg2_inter_pre s blk n qs)
             [63 := mpeg2_inter_pre s blk n qs ! 63 XOR
                    (if even (mpeg2_inter_sum s blk n qs) then 1 else 0)]"
    using toggle_last_loop [OF inj0, of ?dqp blk]
    by (simp add: dct_unquantize_mpeg2_inter_c_def mpeg2_inter_pre_def mpeg2_inter_sum_def
          flip: mpeg2_nCoeffs_def)
  have len1: "\<forall>k \<in> {1..?nC}. permutated_pos s k < length ?blk1"
    using lt len by (simp add: scale_dc_length)
  have len0: "\<forall>k \<in> {0..?nC}. permutated_pos s k < length blk"
    using lt len by simp
  have re_intra: "even (mpeg2_intra_sum s blk n qs) \<longleftrightarrow>
          even (\<Sum>k \<in> {1..?nC}.
                  sint (dct_unquantize_mpeg2_intra_c s blk n qs ! permutated_pos s k))"
    using resum_parity [OF inj1 len1, of ?dqi]
    by (simp add: dct_unquantize_mpeg2_intra_c_def sum1 flip: mpeg2_nCoeffs_def)
  have re_inter: "even (mpeg2_inter_sum s blk n qs) \<longleftrightarrow>
          even (\<Sum>k \<in> {0..?nC}. sint (mpeg2_inter_pre s blk n qs ! permutated_pos s k))"
    using resum_parity [OF inj0 len0, of ?dqp]
    by (simp add: mpeg2_inter_pre_def mpeg2_inter_sum_def)
  from intra inter re_intra re_inter show ?thesis by blast
qed

lemma flat16_ctx_fields:
  "intra_matrix (flat16_ctx li) = replicate 64 16"
  "inter_matrix (flat16_ctx li) = replicate 64 16"
  "block_last_index (flat16_ctx li) = replicate 12 li"
  "intra_scantable_permutated (flat16_ctx li) = ff_alternate_vertical_scan"
  "inter_scantable_raster_end (flat16_ctx li) = ff_alternate_vertical_scan"
  "alternate_scan (flat16_ctx li) = 0" "h263_aic (flat16_ctx li) = 0" "ac_pred (flat16_ctx li) = 0"
  "y_dc_scale (flat16_ctx li) = 8" "c_dc_scale (flat16_ctx li) = 8"
  by (simp_all add: flat16_ctx_def)

text \<open>
  C1 as stated fails: with the single AC coefficient 1 at scan index 1 (flat matrix 16,
  \<open>qscale\<close> 8) the only level is 16, its parity is 0 and \<open>block[63]\<close> is 0 before the
  correction, yet the function returns \<open>block[63] = 1\<close>.
\<close>

theorem mpeg2_parity_counterexample:
  "dct_unquantize_mpeg2_intra_c (flat16_ctx 1) ((replicate 64 0)[8 := 1]) 0 8 ! 8 = 16 \<and>
   dct_unquantize_mpeg2_intra_c (flat16_ctx 1) ((replicate 64 0)[8 := 1]) 0 8 ! 63 = 0 \<and>
   mpeg2_intra_sum (flat16_ctx 1) ((replicate 64 0)[8 := 1]) 0 8 = 16 \<and>
   dct_unquantize_mpeg2_intra_bitexact (flat16_ctx 1) ((replicate 64 0)[8 := 1]) 0 8 ! 63 = 1 \<and>
   dct_unquantize_mpeg2_intra_bitexact (flat16_ctx 1) ((replicate 64 0)[8 := 1]) 0 8 ! 63 \<noteq>
     dct_unquantize_mpeg2_intra_c (flat16_ctx 1) ((replicate 64 0)[8 := 1]) 0 8 ! 63 XOR
       (if odd (mpeg2_intra_sum (flat16_ctx 1) ((replicate 64 0)[8 := 1]) 0 8) then 1 else 0)"
proof -
  have nC: "mpeg2_nCoeffs (flat16_ctx 1) 0 = 1"
    by (simp add: mpeg2_nCoeffs_def flat16_ctx_def)
  have pos: "permutated_pos (flat16_ctx 1) 1 = 8"
    by (simp add: permutated_pos_def flat16_ctx_def ff_alternate_vertical_scan_def)
  have a: "dct_unquantize_mpeg2_intra_c (flat16_ctx 1) ((replicate 64 0)[8 := 1]) 0 8 ! 8 = 16"
    "dct_unquantize_mpeg2_intra_c (flat16_ctx 1) ((replicate 64 0)[8 := 1]) 0 8 ! 63 = 0"
    by (simp_all add: dct_unquantize_mpeg2_intra_c_def flat16_ctx_def scale_dc_def
        unquantize_loop.simps permutated_pos_def ff_alternate_vertical_scan_def
        load_coeff_def store_coeff_def mpeg2_intra_level_def c_shr_def Let_def word_sless_alt)
  have b: "mpeg2_intra_sum (flat16_ctx 1) ((replicate 64 0)[8 := 1]) 0 8 = 16"
    unfolding mpeg2_intra_sum_def nC
    by (simp add: pos level_at_def load_coeff_def mpeg2_intra_level_def c_shr_def
        flat16_ctx_fields word_sless_alt)
  have c: "dct_unquantize_mpeg2_intra_bitexact (flat16_ctx 1) ((replicate 64 0)[8 := 1]) 0 8 ! 63 = 1"
    by (simp add: dct_unquantize_mpeg2_intra_bitexact_def flat16_ctx_def scale_dc_def
        unquantize_loop.simps permutated_pos_def ff_alternate_vertical_scan_def toggle_last_def
        load_coeff_def store_coeff_def mpeg2_intra_level_def c_shr_def Let_def word_sless_alt)
  show ?thesis unfolding a b c by simp
qed

lemma dct_unquantize_mpeg2_intra_c_length:
  "length (dct_unquantize_mpeg2_intra_c s blk n qs) = length blk"
  by (simp add: dct_unquantize_mpeg2_intra_c_def unquantize_loop_length scale_dc_length)

theorem mpeg2_mismatch_control_witness:
  "length ((replicate 64 0)[8 := 1] :: int16_t list) = 64 \<and>
   scantable_ok (intra_scantable_permutated (flat16_ctx 1)) \<and>
   mpeg2_nCoeffs (flat16_ctx 1) 0 \<le> 63 \<and>
   dct_unquantize_mpeg2_intra_bitexact (flat16_ctx 1) ((replicate 64 0)[8 := 1]) 0 8 ! 63 = 1 \<and>
   dct_unquantize_mpeg2_intra_c (flat16_ctx 1) ((replicate 64 0)[8 := 1]) 0 8 ! 63 = 0 \<and>
   mpeg2_intra_sum (flat16_ctx 1) ((replicate 64 0)[8 := 1]) 0 8 = 16"
proof -
  have len: "length ((replicate 64 0)[8 := 1] :: int16_t list) = 64" by simp
  have scan: "scantable_ok (intra_scantable_permutated (flat16_ctx 1))"
    by (simp add: flat16_ctx_fields scantable_ok_vertical)
  have nC: "mpeg2_nCoeffs (flat16_ctx 1) 0 = 1"
    by (simp add: mpeg2_nCoeffs_def flat16_ctx_fields)
  then have last: "mpeg2_nCoeffs (flat16_ctx 1) 0 \<le> 63" by simp
  have pos: "permutated_pos (flat16_ctx 1) 1 = 8"
    by (simp add: permutated_pos_def flat16_ctx_fields ff_alternate_vertical_scan_def)
  have pre: "dct_unquantize_mpeg2_intra_c (flat16_ctx 1) ((replicate 64 0)[8 := 1]) 0 8 ! 63 = 0"
    by (simp add: dct_unquantize_mpeg2_intra_c_def flat16_ctx_def scale_dc_def
        unquantize_loop.simps permutated_pos_def ff_alternate_vertical_scan_def
        load_coeff_def store_coeff_def mpeg2_intra_level_def c_shr_def Let_def word_sless_alt)
  have sm: "mpeg2_intra_sum (flat16_ctx 1) ((replicate 64 0)[8 := 1]) 0 8 = 16"
    unfolding mpeg2_intra_sum_def nC
    by (simp add: pos level_at_def load_coeff_def mpeg2_intra_level_def c_shr_def
        flat16_ctx_fields word_sless_alt)
  from mpeg2_mismatch_control [OF len scan last, of 8]
  have "dct_unquantize_mpeg2_intra_bitexact (flat16_ctx 1) ((replicate 64 0)[8 := 1]) 0 8 =
          (dct_unquantize_mpeg2_intra_c (flat16_ctx 1) ((replicate 64 0)[8 := 1]) 0 8)
            [63 := dct_unquantize_mpeg2_intra_c (flat16_ctx 1) ((replicate 64 0)[8 := 1]) 0 8 ! 63
                   XOR (if even (mpeg2_intra_sum (flat16_ctx 1) ((replicate 64 0)[8 := 1]) 0 8)
                        then 1 else 0)]"
    by blast
  then have "dct_unquantize_mpeg2_intra_bitexact (flat16_ctx 1) ((replicate 64 0)[8 := 1]) 0 8 ! 63 = 1"
    unfolding pre sm by (simp add: dct_unquantize_mpeg2_intra_c_length)
  with len scan last pre sm show ?thesis by blast
qed

section \<open>Properties of ff_update_duplicate_context\<close>

lemma backup_duplicate_context_more:
  "dup_ctx.more (backup_duplicate_context bak src) = dup_ctx.more bak"
  "linesize (backup_duplicate_context bak src) = linesize bak"
  "avctx_codec_tag (backup_duplicate_context bak src) = avctx_codec_tag bak"
  "pblocks (backup_duplicate_context bak src) = pblocks bak"
  by (simp_all add: backup_duplicate_context_def)

lemma backup_duplicate_context_saved:
  "edge_emu_buffer (backup_duplicate_context bak src) = edge_emu_buffer src"
  "me_scratchpad (backup_duplicate_context bak src) = me_scratchpad src"
  "me_temp (backup_duplicate_context bak src) = me_temp src"
  "rd_scratchpad (backup_duplicate_context bak src) = rd_scratchpad src"
  "b_scratchpad (backup_duplicate_context bak src) = b_scratchpad src"
  "obmc_scratchpad (backup_duplicate_context bak src) = obmc_scratchpad src"
  "me_map (backup_duplicate_context bak src) = me_map src"
  "me_score_map (backup_duplicate_context bak src) = me_score_map src"
  "blocks (backup_duplicate_context bak src) = blocks src"
  "block (backup_duplicate_context bak src) = block src"
  "start_mb_y (backup_duplicate_context bak src) = start_mb_y src"
  "end_mb_y (backup_duplicate_context bak src) = end_mb_y src"
  "me_map_generation (backup_duplicate_context bak src) = me_map_generation src"
  "pb (backup_duplicate_context bak src) = pb src"
  "dct_error_sum (backup_duplicate_context bak src) = dct_error_sum src"
  "dct_count0 (backup_duplicate_context bak src) = dct_count0 src"
  "dct_count1 (backup_duplicate_context bak src) = dct_count1 src"
  "ac_val_base (backup_duplicate_context bak src) = ac_val_base src"
  "ac_val0 (backup_duplicate_context bak src) = ac_val0 src"
  "ac_val1 (backup_duplicate_context bak src) = ac_val1 src"
  "ac_val2 (backup_duplicate_context bak src) = ac_val2 src"
  by (simp_all add: backup_duplicate_context_def)

lemma backup_twice:
  "backup_duplicate_context src (backup_duplicate_context bak0 dst) =
   backup_duplicate_context src dst"
  by (simp add: backup_duplicate_context_def)

lemma ff_update_duplicate_context_merged:
  "ff_update_duplicate_context bak0 dst src a1 a2 =
     (if edge_emu_buffer dst = 0
      then (case frame_size_alloc (merged dst src) a1 a2 of
              (ret, d) \<Rightarrow> if ret < 0 then (ret, d) else (0, d))
      else (0, merged dst src))"
  by (simp add: ff_update_duplicate_context_def merged_def backup_twice Let_def
      exchange_uv_def backup_duplicate_context_saved)


lemma merged_fields:
  "dup_ctx.more (merged dst src) = dup_ctx.more src"
  "linesize (merged dst src) = linesize src"
  "avctx_codec_tag (merged dst src) = avctx_codec_tag src"
  "edge_emu_buffer (merged dst src) = edge_emu_buffer dst"
  "me_scratchpad (merged dst src) = me_scratchpad dst"
  "me_temp (merged dst src) = me_temp dst"
  "rd_scratchpad (merged dst src) = rd_scratchpad dst"
  "b_scratchpad (merged dst src) = b_scratchpad dst"
  "obmc_scratchpad (merged dst src) = obmc_scratchpad dst"
  "me_map (merged dst src) = me_map dst"
  "me_score_map (merged dst src) = me_score_map dst"
  "blocks (merged dst src) = blocks dst"
  "block (merged dst src) = block dst"
  "start_mb_y (merged dst src) = start_mb_y dst"
  "end_mb_y (merged dst src) = end_mb_y dst"
  "me_map_generation (merged dst src) = me_map_generation dst"
  "pb (merged dst src) = pb dst"
  "dct_error_sum (merged dst src) = dct_error_sum dst"
  "dct_count0 (merged dst src) = dct_count0 dst"
  "dct_count1 (merged dst src) = dct_count1 dst"
  "ac_val_base (merged dst src) = ac_val_base dst"
  "ac_val0 (merged dst src) = ac_val0 dst"
  "ac_val1 (merged dst src) = ac_val1 dst"
  "ac_val2 (merged dst src) = ac_val2 dst"
  by (simp_all add: merged_def Let_def exchange_uv_def backup_duplicate_context_more
      backup_duplicate_context_saved)

lemma merged_pblocks:
  "pblocks (merged dst src) =
     (if avctx_codec_tag src = VCR2
      then (map (block_addr (block dst)) [0 ..< 12])
             [4 := block_addr (block dst) 5, 5 := block_addr (block dst) 4]
      else map (block_addr (block dst)) [0 ..< 12])"
  by (simp add: merged_def Let_def exchange_uv_def backup_duplicate_context_more
      backup_duplicate_context_saved)

lemma frame_size_alloc_kept:
  "dup_ctx.more (snd (frame_size_alloc s a1 a2)) = dup_ctx.more s"
  "linesize (snd (frame_size_alloc s a1 a2)) = linesize s"
  "avctx_codec_tag (snd (frame_size_alloc s a1 a2)) = avctx_codec_tag s"
  "pblocks (snd (frame_size_alloc s a1 a2)) = pblocks s"
  "me_map (snd (frame_size_alloc s a1 a2)) = me_map s"
  "me_score_map (snd (frame_size_alloc s a1 a2)) = me_score_map s"
  "blocks (snd (frame_size_alloc s a1 a2)) = blocks s"
  "block (snd (frame_size_alloc s a1 a2)) = block s"
  "start_mb_y (snd (frame_size_alloc s a1 a2)) = start_mb_y s"
  "end_mb_y (snd (frame_size_alloc s a1 a2)) = end_mb_y s"
  "me_map_generation (snd (frame_size_alloc s a1 a2)) = me_map_generation s"
  "pb (snd (frame_size_alloc s a1 a2)) = pb s"
  "dct_error_sum (snd (frame_size_alloc s a1 a2)) = dct_error_sum s"
  "dct_count0 (snd (frame_size_alloc s a1 a2)) = dct_count0 s"
  "dct_count1 (snd (frame_size_alloc s a1 a2)) = dct_count1 s"
  "ac_val_base (snd (frame_size_alloc s a1 a2)) = ac_val_base s"
  "ac_val0 (snd (frame_size_alloc s a1 a2)) = ac_val0 s"
  "ac_val1 (snd (frame_size_alloc s a1 a2)) = ac_val1 s"
  "ac_val2 (snd (frame_size_alloc s a1 a2)) = ac_val2 s"
  by (simp_all add: frame_size_alloc_def Let_def)

lemma frame_size_alloc_ok:
  assumes "a1 \<noteq> 0" "a2 \<noteq> 0"
  shows "fst (frame_size_alloc s a1 a2) = 0"
    "edge_emu_buffer (snd (frame_size_alloc s a1 a2)) = a1"
    "me_scratchpad (snd (frame_size_alloc s a1 a2)) = a2"
    "me_temp (snd (frame_size_alloc s a1 a2)) = a2"
    "rd_scratchpad (snd (frame_size_alloc s a1 a2)) = a2"
    "b_scratchpad (snd (frame_size_alloc s a1 a2)) = a2"
    "obmc_scratchpad (snd (frame_size_alloc s a1 a2)) = a2 + 16"
  using assms by (simp_all add: frame_size_alloc_def Let_def)

lemma frame_size_alloc_fail:
  assumes "a1 = 0 \<or> a2 = 0"
  shows "fst (frame_size_alloc s a1 a2) = AVERROR_ENOMEM"
    "edge_emu_buffer (snd (frame_size_alloc s a1 a2)) = 0"
  using assms by (auto simp: frame_size_alloc_def Let_def)

lemma ff_update_duplicate_context_snd:
  "snd (ff_update_duplicate_context bak0 dst src a1 a2) =
     (if edge_emu_buffer dst = 0 then snd (frame_size_alloc (merged dst src) a1 a2)
      else merged dst src)"
  by (simp add: ff_update_duplicate_context_merged case_prod_unfold)

lemma ff_update_duplicate_context_fst:
  "fst (ff_update_duplicate_context bak0 dst src a1 a2) =
     (if edge_emu_buffer dst = 0 \<and> fst (frame_size_alloc (merged dst src) a1 a2) < 0
      then fst (frame_size_alloc (merged dst src) a1 a2) else 0)"
  by (simp add: ff_update_duplicate_context_merged case_prod_unfold)

text \<open>
  C9, as the code has it. After \<open>ff_update_duplicate_context(dst, src)\<close> the fields
  that \<open>backup_duplicate_context\<close> saves keep the values \<open>dst\<close> had before the call: the
  row range \<open>start_mb_y\<close>, \<open>end_mb_y\<close>, the block array and the \<open>ac_val\<close> buffers, and
  also \<open>me.map\<close>, \<open>me.score_map\<close>, \<open>me.map_generation\<close>, \<open>pb\<close>, \<open>dct_error_sum\<close> and
  \<open>dct_count\<close>. The edge-emulation buffer and the scratchpads keep \<open>dst\<close>'s values when
  \<open>dst\<close> had an edge-emulation buffer; when it had none they are allocated by
  \<open>frame_size_alloc\<close> (or the call fails with \<open>AVERROR(ENOMEM)\<close>). \<open>pblocks\<close> is rebuilt
  from \<open>dst\<close>'s block array, and every remaining field equals that of \<open>src\<close>.
\<close>

theorem ff_update_duplicate_context_fields:
  fixes bak0 dst src :: "'a dup_ctx_scheme" and a1 a2 :: ptr
  defines "r \<equiv> ff_update_duplicate_context bak0 dst src a1 a2"
  shows "dup_ctx.more (snd r) = dup_ctx.more src \<and>
         linesize (snd r) = linesize src \<and>
         avctx_codec_tag (snd r) = avctx_codec_tag src \<and>
         start_mb_y (snd r) = start_mb_y dst \<and> end_mb_y (snd r) = end_mb_y dst \<and>
         blocks (snd r) = blocks dst \<and> block (snd r) = block dst \<and>
         ac_val_base (snd r) = ac_val_base dst \<and> ac_val0 (snd r) = ac_val0 dst \<and>
         ac_val1 (snd r) = ac_val1 dst \<and> ac_val2 (snd r) = ac_val2 dst \<and>
         me_map (snd r) = me_map dst \<and> me_score_map (snd r) = me_score_map dst \<and>
         me_map_generation (snd r) = me_map_generation dst \<and> pb (snd r) = pb dst \<and>
         dct_error_sum (snd r) = dct_error_sum dst \<and>
         dct_count0 (snd r) = dct_count0 dst \<and> dct_count1 (snd r) = dct_count1 dst \<and>
         pblocks (snd r) =
           (if avctx_codec_tag src = VCR2
            then (map (block_addr (block dst)) [0 ..< 12])
                   [4 := block_addr (block dst) 5, 5 := block_addr (block dst) 4]
            else map (block_addr (block dst)) [0 ..< 12]) \<and>
         (edge_emu_buffer dst \<noteq> 0 \<longrightarrow>
            fst r = 0 \<and>
            edge_emu_buffer (snd r) = edge_emu_buffer dst \<and>
            me_scratchpad (snd r) = me_scratchpad dst \<and> me_temp (snd r) = me_temp dst \<and>
            rd_scratchpad (snd r) = rd_scratchpad dst \<and>
            b_scratchpad (snd r) = b_scratchpad dst \<and>
            obmc_scratchpad (snd r) = obmc_scratchpad dst) \<and>
         (edge_emu_buffer dst = 0 \<and> a1 \<noteq> 0 \<and> a2 \<noteq> 0 \<longrightarrow>
            fst r = 0 \<and>
            edge_emu_buffer (snd r) = a1 \<and>
            me_scratchpad (snd r) = a2 \<and> me_temp (snd r) = a2 \<and>
            rd_scratchpad (snd r) = a2 \<and> b_scratchpad (snd r) = a2 \<and>
            obmc_scratchpad (snd r) = a2 + 16) \<and>
         (edge_emu_buffer dst = 0 \<and> (a1 = 0 \<or> a2 = 0) \<longrightarrow>
            fst r = AVERROR_ENOMEM \<and> edge_emu_buffer (snd r) = 0)"
proof -
  have copied: "dup_ctx.more (snd r) = dup_ctx.more src \<and>
         linesize (snd r) = linesize src \<and>
         avctx_codec_tag (snd r) = avctx_codec_tag src"
    by (simp add: r_def ff_update_duplicate_context_snd frame_size_alloc_kept merged_fields)
  have kept: "start_mb_y (snd r) = start_mb_y dst \<and> end_mb_y (snd r) = end_mb_y dst \<and>
         blocks (snd r) = blocks dst \<and> block (snd r) = block dst \<and>
         ac_val_base (snd r) = ac_val_base dst \<and> ac_val0 (snd r) = ac_val0 dst \<and>
         ac_val1 (snd r) = ac_val1 dst \<and> ac_val2 (snd r) = ac_val2 dst \<and>
         me_map (snd r) = me_map dst \<and> me_score_map (snd r) = me_score_map dst \<and>
         me_map_generation (snd r) = me_map_generation dst \<and> pb (snd r) = pb dst \<and>
         dct_error_sum (snd r) = dct_error_sum dst \<and>
         dct_count0 (snd r) = dct_count0 dst \<and> dct_count1 (snd r) = dct_count1 dst"
    by (simp add: r_def ff_update_duplicate_context_snd frame_size_alloc_kept merged_fields)
  have pbl: "pblocks (snd r) =
           (if avctx_codec_tag src = VCR2
            then (map (block_addr (block dst)) [0 ..< 12])
                   [4 := block_addr (block dst) 5, 5 := block_addr (block dst) 4]
            else map (block_addr (block dst)) [0 ..< 12])"
    by (simp add: r_def ff_update_duplicate_context_snd frame_size_alloc_kept merged_pblocks)
  have present: "edge_emu_buffer dst \<noteq> 0 \<longrightarrow>
            fst r = 0 \<and>
            edge_emu_buffer (snd r) = edge_emu_buffer dst \<and>
            me_scratchpad (snd r) = me_scratchpad dst \<and> me_temp (snd r) = me_temp dst \<and>
            rd_scratchpad (snd r) = rd_scratchpad dst \<and>
            b_scratchpad (snd r) = b_scratchpad dst \<and>
            obmc_scratchpad (snd r) = obmc_scratchpad dst"
    by (simp add: r_def ff_update_duplicate_context_snd ff_update_duplicate_context_fst
        merged_fields)
  have fresh: "edge_emu_buffer dst = 0 \<and> a1 \<noteq> 0 \<and> a2 \<noteq> 0 \<longrightarrow>
            fst r = 0 \<and>
            edge_emu_buffer (snd r) = a1 \<and>
            me_scratchpad (snd r) = a2 \<and> me_temp (snd r) = a2 \<and>
            rd_scratchpad (snd r) = a2 \<and> b_scratchpad (snd r) = a2 \<and>
            obmc_scratchpad (snd r) = a2 + 16"
    by (simp add: r_def ff_update_duplicate_context_snd ff_update_duplicate_context_fst
        frame_size_alloc_ok)
  have failed: "edge_emu_buffer dst = 0 \<and> (a1 = 0 \<or> a2 = 0) \<longrightarrow>
            fst r = AVERROR_ENOMEM \<and> edge_emu_buffer (snd r) = 0"
    by (auto simp: r_def ff_update_duplicate_context_snd ff_update_duplicate_context_fst
        frame_size_alloc_fail AVERROR_ENOMEM_def)
  from copied kept pbl present fresh failed show ?thesis by blast
qed

text \<open>
  C9 as stated fails twice on one call: \<open>dst\<close> without edge-emulation buffer gets a new
  one (its scratch pointers change), and \<open>me.map_generation\<close>, a scalar outside the
  claim's list, keeps \<open>dst\<close>'s value 5 instead of taking \<open>src\<close>'s value 7.
\<close>

theorem ff_update_duplicate_context_counterexample:
  "edge_emu_buffer (snd (ff_update_duplicate_context zero_dup_ctx
      (zero_dup_ctx\<lparr>me_map_generation := 5\<rparr>)
      (zero_dup_ctx\<lparr>me_map_generation := 7\<rparr>) 4096 8192)) = 4096 \<and>
   edge_emu_buffer (zero_dup_ctx\<lparr>me_map_generation := 5\<rparr>) = 0 \<and>
   me_map_generation (snd (ff_update_duplicate_context zero_dup_ctx
      (zero_dup_ctx\<lparr>me_map_generation := 5\<rparr>)
      (zero_dup_ctx\<lparr>me_map_generation := 7\<rparr>) 4096 8192)) = 5 \<and>
   me_map_generation (zero_dup_ctx\<lparr>me_map_generation := 7\<rparr>) = 7"
  by (simp add: ff_update_duplicate_context_snd merged_fields frame_size_alloc_ok
      frame_size_alloc_kept zero_dup_ctx_def)

theorem ff_update_duplicate_context_fields_witness:
  "edge_emu_buffer (zero_dup_ctx\<lparr>edge_emu_buffer := 512, start_mb_y := 2, end_mb_y := 4\<rparr>) \<noteq> 0 \<and>
   fst (ff_update_duplicate_context zero_dup_ctx
          (zero_dup_ctx\<lparr>edge_emu_buffer := 512, start_mb_y := 2, end_mb_y := 4\<rparr>)
          (zero_dup_ctx\<lparr>linesize := 720\<rparr>) 4096 8192) = 0 \<and>
   edge_emu_buffer (snd (ff_update_duplicate_context zero_dup_ctx
          (zero_dup_ctx\<lparr>edge_emu_buffer := 512, start_mb_y := 2, end_mb_y := 4\<rparr>)
          (zero_dup_ctx\<lparr>linesize := 720\<rparr>) 4096 8192)) = 512 \<and>
   start_mb_y (snd (ff_update_duplicate_context zero_dup_ctx
          (zero_dup_ctx\<lparr>edge_emu_buffer := 512, start_mb_y := 2, end_mb_y := 4\<rparr>)
          (zero_dup_ctx\<lparr>linesize := 720\<rparr>) 4096 8192)) = 2 \<and>
   linesize (snd (ff_update_duplicate_context zero_dup_ctx
          (zero_dup_ctx\<lparr>edge_emu_buffer := 512, start_mb_y := 2, end_mb_y := 4\<rparr>)
          (zero_dup_ctx\<lparr>linesize := 720\<rparr>) 4096 8192)) = 720 \<and>
   edge_emu_buffer (zero_dup_ctx\<lparr>start_mb_y := 2\<rparr>) = 0 \<and> (4096 :: nat) \<noteq> 0 \<and> (8192 :: nat) \<noteq> 0 \<and>
   obmc_scratchpad (snd (ff_update_duplicate_context zero_dup_ctx
          (zero_dup_ctx\<lparr>start_mb_y := 2\<rparr>) zero_dup_ctx 4096 8192)) = 8208 \<and>
   fst (ff_update_duplicate_context zero_dup_ctx
          (zero_dup_ctx\<lparr>start_mb_y := 2\<rparr>) zero_dup_ctx 0 8192) = AVERROR_ENOMEM"
  using ff_update_duplicate_context_fields
          [of zero_dup_ctx "zero_dup_ctx\<lparr>edge_emu_buffer := 512, start_mb_y := 2, end_mb_y := 4\<rparr>"
              "zero_dup_ctx\<lparr>linesize := 720\<rparr>" 4096 8192]
        ff_update_duplicate_context_fields
          [of zero_dup_ctx "zero_dup_ctx\<lparr>start_mb_y := 2\<rparr>" zero_dup_ctx 4096 8192]
        ff_update_duplicate_context_fields
          [of zero_dup_ctx "zero_dup_ctx\<lparr>start_mb_y := 2\<rparr>" zero_dup_ctx 0 8192]
  by (simp add: zero_dup_ctx_def)

section \<open>Properties of picture allocation\<close>

lemma av_buffer_unref_tables: "tables (av_buffer_unref a pic) = (tables pic)(a := None)"
  by (simp add: av_buffer_unref_def)

lemma av_buffer_unref_update: "(av_buffer_unref a pic)\<lparr>tables := g\<rparr> = pic\<lparr>tables := g\<rparr>"
  by (simp add: av_buffer_unref_def)

lemma fold_av_buffer_unref:
  "fold av_buffer_unref ts pic =
     pic\<lparr>tables := (\<lambda>t. if t \<in> set ts then None else tables pic t)\<rparr>"
proof (induction ts arbitrary: pic)
  case Nil
  then show ?case by simp
next
  case (Cons a ts)
  have eq: "(\<lambda>t. if t \<in> set ts then None else ((tables pic)(a := None)) t) =
        (\<lambda>t. if t \<in> set (a # ts) then None else tables pic t)"
    by (rule ext) simp
  have "fold av_buffer_unref (a # ts) pic = fold av_buffer_unref ts (av_buffer_unref a pic)"
    by simp
  also have "\<dots> = (av_buffer_unref a pic)
          \<lparr>tables := (\<lambda>t. if t \<in> set ts then None else tables (av_buffer_unref a pic) t)\<rparr>"
    by (rule Cons.IH)
  also have "\<dots> = pic\<lparr>tables := (\<lambda>t. if t \<in> set ts then None
                                        else ((tables pic)(a := None)) t)\<rparr>"
    unfolding av_buffer_unref_tables av_buffer_unref_update ..
  finally show ?case unfolding eq .
qed

lemma picture_tables_all: "t \<in> set picture_tables"
  by (cases t) (simp_all add: picture_tables_def)

lemma ff_free_picture_tables_eq:
  "ff_free_picture_tables pic = pic\<lparr>tables := (\<lambda>t. None)\<rparr>"
  by (simp add: ff_free_picture_tables_def fold_av_buffer_unref picture_tables_all)

lemma ff_free_picture_tables_fields:
  "tables (ff_free_picture_tables pic) = (\<lambda>t. None)"
  "pic_f (ff_free_picture_tables pic) = pic_f pic"
  "needs_realloc (ff_free_picture_tables pic) = needs_realloc pic"
  "reference (ff_free_picture_tables pic) = reference pic"
  by (simp_all add: ff_free_picture_tables_eq)

lemma ff_mpeg_unref_picture_buf0: "buf0 (pic_f (ff_mpeg_unref_picture pic)) = None"
  by (simp add: ff_mpeg_unref_picture_def Let_def av_frame_unref_def ff_free_picture_tables_fields)

lemma ff_mpeg_unref_picture_tables:
  "tables (ff_mpeg_unref_picture pic) =
     (if needs_realloc pic \<noteq> 0 then (\<lambda>t. None) else tables pic)"
  by (simp add: ff_mpeg_unref_picture_def Let_def ff_free_picture_tables_fields)

lemma unref_pixels_have_tables: "pixels_have_tables (ff_mpeg_unref_picture pic)"
  by (simp add: pixels_have_tables_def ff_mpeg_unref_picture_buf0)

lemma free_unref_pixels_have_tables:
  "pixels_have_tables (ff_free_picture_tables (ff_mpeg_unref_picture pic))"
  by (simp add: pixels_have_tables_def ff_free_picture_tables_fields ff_mpeg_unref_picture_buf0)

lemma alloc_picture_finish_coherent:
  assumes "alloc_picture_finish s pic env = Inr (ret, s1, pic1)"
  shows "pixels_have_tables pic1"
    and "ret = 0 \<longrightarrow> core_tables pic1"
    and "avctx_hwaccel s1 = avctx_hwaccel s" and "picture s1 = picture s"
  using assms
  by (auto simp: alloc_picture_finish_def core_tables_def pixels_have_tables_def
      free_unref_pixels_have_tables ff_free_picture_tables_fields ff_mpeg_unref_picture_buf0
      AVERROR_ENOMEM_def split: prod.splits if_splits)

lemma frame_size_alloc_ctx:
  "avctx_hwaccel (snd (frame_size_alloc s a1 a2)) = avctx_hwaccel s"
  "picture (snd (frame_size_alloc s a1 a2)) = picture s"
  by (simp_all add: frame_size_alloc_def Let_def)

lemma alloc_frame_buffer_checks_coherent:
  assumes "alloc_frame_buffer_checks s pic env = (ret, s1, pic1)"
  shows "ret < 0 \<longrightarrow> buf0 (pic_f pic1) = None"
    and "avctx_hwaccel s1 = avctx_hwaccel s" and "picture s1 = picture s"
  using assms frame_size_alloc_ctx [of s "scratch_a1 env" "scratch_a2 env"]
  by (auto simp: alloc_frame_buffer_checks_def ff_mpeg_unref_picture_buf0
      split: prod.splits if_splits)

lemma get_buffer_failed: "fst (get_buffer fr env) < 0 \<Longrightarrow> buf0 (snd (get_buffer fr env)) = None"
  by (simp add: get_buffer_def av_frame_unref_def split: if_splits)

text \<open>
  The three ways in which \<open>alloc_frame_buffer\<close> returns: \<open>get_buffer\<close> failed; the
  allocation of the accelerator's private data failed; or the stride checks were reached
  with a picture that has pixel storage and differs from the one passed in only in its
  frame and its accelerator data.
\<close>

lemma alloc_frame_buffer_cases:
  assumes fb: "alloc_frame_buffer s pic env = Inr (ret, s1, pic1)"
  shows "(ret = - 1 \<and> s1 = s \<and> buf0 (pic_f pic1) = None) \<or>
         (ret = - 1 \<and> s1 = s \<and> hwaccel_alloc_fails s env) \<or>
         (\<exists>pic3. alloc_frame_buffer_checks s pic3 env = (ret, s1, pic1) \<and>
                 buf0 (pic_f pic3) \<noteq> None \<and> reference pic3 = reference pic \<and>
                 needs_realloc pic3 = needs_realloc pic \<and> tables pic3 = tables pic)"
proof -
  let ?fr = "snd (get_buffer (pic_f pic) env)"
  let ?pic2 = "if avctx_is_encoder s \<noteq> 0
               then pic\<lparr>pic_f := skip_edges s ?fr\<rparr> else pic\<lparr>pic_f := ?fr\<rparr>"
  show ?thesis
  proof (cases "fst (get_buffer (pic_f pic) env) < 0 \<or> buf0 ?fr = None")
    case True
    then have "alloc_frame_buffer s pic env = Inr (- 1, s, pic\<lparr>pic_f := ?fr\<rparr>)"
      by (simp add: alloc_frame_buffer_def Let_def)
    with fb have "ret = - 1" "s1 = s" "pic1 = pic\<lparr>pic_f := ?fr\<rparr>" by simp_all
    moreover have "buf0 ?fr = None" using True get_buffer_failed by blast
    ultimately show ?thesis by simp
  next
    case nofail: False
    have p2: "buf0 (pic_f ?pic2) \<noteq> None" "reference ?pic2 = reference pic"
      "needs_realloc ?pic2 = needs_realloc pic" "tables ?pic2 = tables pic"
      using nofail by (simp_all add: skip_edges_def)
    show ?thesis
    proof (cases "avctx_hwaccel s")
      case None
      with nofail have "alloc_frame_buffer s pic env = Inr (alloc_frame_buffer_checks s ?pic2 env)"
        unfolding alloc_frame_buffer_def Let_def by auto
      with fb have "alloc_frame_buffer_checks s ?pic2 env = (ret, s1, pic1)" by simp
      with p2 show ?thesis by blast
    next
      case (Some sz)
      show ?thesis
      proof (cases "hwaccel_picture_private ?pic2 \<noteq> None")
        case True
        with Some nofail have "alloc_frame_buffer s pic env = Inl AssertionFailed"
          unfolding alloc_frame_buffer_def Let_def by auto
        with fb show ?thesis by simp
      next
        case np: False
        show ?thesis
        proof (cases "sz = 0")
          case True
          with Some np nofail
          have "alloc_frame_buffer s pic env = Inr (alloc_frame_buffer_checks s ?pic2 env)"
            unfolding alloc_frame_buffer_def Let_def by auto
          with fb have "alloc_frame_buffer_checks s ?pic2 env = (ret, s1, pic1)" by simp
          with p2 show ?thesis by blast
        next
          case nz: False
          show ?thesis
          proof (cases "hwaccel_alloc env")
            case None
            with Some np nz nofail
            have "alloc_frame_buffer s pic env = Inr (- 1, s, ?pic2\<lparr>hwaccel_priv_buf := None\<rparr>)"
              unfolding alloc_frame_buffer_def Let_def by auto
            with fb have "ret = - 1" "s1 = s" by simp_all
            moreover from None Some nz have "hwaccel_alloc_fails s env"
              by (simp add: hwaccel_alloc_fails_def)
            ultimately show ?thesis by simp
          next
            case (Some b)
            let ?pic3 = "?pic2\<lparr>hwaccel_priv_buf := Some b, hwaccel_picture_private := Some b\<rparr>"
            from Some \<open>avctx_hwaccel s = Some sz\<close> np nz nofail
            have "alloc_frame_buffer s pic env = Inr (alloc_frame_buffer_checks s ?pic3 env)"
              unfolding alloc_frame_buffer_def Let_def by auto
            with fb have "alloc_frame_buffer_checks s ?pic3 env = (ret, s1, pic1)" by simp
            moreover have "buf0 (pic_f ?pic3) \<noteq> None" "reference ?pic3 = reference pic"
              "needs_realloc ?pic3 = needs_realloc pic" "tables ?pic3 = tables pic"
              using p2 by simp_all
            ultimately show ?thesis by blast
          qed
        qed
      qed
    qed
  qed
qed

lemma alloc_frame_buffer_passes:
  assumes fb: "alloc_frame_buffer s pic env = Inr (ret, s1, pic1)" and ok: "0 \<le> ret"
  shows "buf0 (pic_f pic1) \<noteq> None" and "reference pic1 = reference pic"
    and "needs_realloc pic1 = needs_realloc pic" and "tables pic1 = tables pic"
    and "s1 = s \<or> s1 = snd (frame_size_alloc s (scratch_a1 env) (scratch_a2 env))"
proof -
  from alloc_frame_buffer_cases [OF fb] ok
  obtain pic3 where c: "alloc_frame_buffer_checks s pic3 env = (ret, s1, pic1)"
    and p: "buf0 (pic_f pic3) \<noteq> None" "reference pic3 = reference pic"
      "needs_realloc pic3 = needs_realloc pic" "tables pic3 = tables pic"
    by auto
  from c ok have "pic1 = pic3 \<and>
      (s1 = s \<or> s1 = snd (frame_size_alloc s (scratch_a1 env) (scratch_a2 env)))"
    by (auto simp: alloc_frame_buffer_checks_def split: if_splits prod.splits)
  with p show "buf0 (pic_f pic1) \<noteq> None" and "reference pic1 = reference pic"
    and "needs_realloc pic1 = needs_realloc pic" and "tables pic1 = tables pic"
    and "s1 = s \<or> s1 = snd (frame_size_alloc s (scratch_a1 env) (scratch_a2 env))"
    by simp_all
qed

lemma alloc_frame_buffer_coherent:
  assumes fb: "alloc_frame_buffer s pic env = Inr (ret, s1, pic1)"
    and hw: "\<not> hwaccel_alloc_fails s env"
  shows "ret < 0 \<longrightarrow> buf0 (pic_f pic1) = None"
    and "avctx_hwaccel s1 = avctx_hwaccel s" and "picture s1 = picture s"
proof -
  from alloc_frame_buffer_cases [OF fb] hw
  have "(ret < 0 \<longrightarrow> buf0 (pic_f pic1) = None) \<and> avctx_hwaccel s1 = avctx_hwaccel s \<and>
        picture s1 = picture s"
  proof (elim disjE exE conjE)
    fix pic3
    assume "alloc_frame_buffer_checks s pic3 env = (ret, s1, pic1)"
    from alloc_frame_buffer_checks_coherent [OF this] show ?thesis by simp
  qed simp_all
  then show "ret < 0 \<longrightarrow> buf0 (pic_f pic1) = None"
    and "avctx_hwaccel s1 = avctx_hwaccel s" and "picture s1 = picture s" by simp_all
qed

lemma ff_alloc_picture_shared:
  "sh \<noteq> 0 \<Longrightarrow> ff_alloc_picture s pic sh env =
     (if data (pic_f pic) = [] then Inl AssertionFailed
      else alloc_picture_finish s (pic\<lparr>shared := 1\<rparr>) env)"
  by (simp add: ff_alloc_picture_def)

lemma ff_alloc_picture_own:
  "ff_alloc_picture s pic 0 env =
     (if buf0 (pic_f pic) \<noteq> None then Inl AssertionFailed
      else (case alloc_frame_buffer s pic env of
              Inl flt \<Rightarrow> Inl flt
            | Inr (r, s1, pic1) \<Rightarrow>
                if r < 0 then Inr (- 1, s1, pic1)
                else alloc_picture_finish
                       (s1\<lparr>linesize := linesize_at (pic_f pic1) 0,
                           uvlinesize := linesize_at (pic_f pic1) 1\<rparr>) pic1 env))"
  by (simp add: ff_alloc_picture_def)

lemma ff_alloc_picture_coherent:
  assumes al: "ff_alloc_picture s pic sh env = Inr (ret, s1, pic1)"
    and hw: "\<not> hwaccel_alloc_fails s env"
  shows "pixels_have_tables pic1" and "avctx_hwaccel s1 = avctx_hwaccel s"
    and "picture s1 = picture s"
proof -
  have "pixels_have_tables pic1 \<and> avctx_hwaccel s1 = avctx_hwaccel s \<and> picture s1 = picture s"
  proof (cases "sh = 0")
    case False
    with al have "alloc_picture_finish s (pic\<lparr>shared := 1\<rparr>) env = Inr (ret, s1, pic1)"
      by (simp add: ff_alloc_picture_shared split: if_splits)
    from alloc_picture_finish_coherent [OF this] show ?thesis by simp
  next
    case True
    show ?thesis
    proof (cases "alloc_frame_buffer s pic env")
      case (Inl flt)
      with al True show ?thesis by (simp add: ff_alloc_picture_own split: if_splits)
    next
      case (Inr res)
      obtain r s2 pic2 where res: "res = (r, s2, pic2)" by (cases res) auto
      note fb = Inr [unfolded res]
      note c = alloc_frame_buffer_coherent [OF fb hw]
      show ?thesis
      proof (cases "r < 0")
        case True
        with al \<open>sh = 0\<close> fb have "s1 = s2" "pic1 = pic2"
          by (simp_all add: ff_alloc_picture_own split: if_splits)
        with True c show ?thesis by (simp add: pixels_have_tables_def)
      next
        case False
        with al \<open>sh = 0\<close> fb have "alloc_picture_finish
                        (s2\<lparr>linesize := linesize_at (pic_f pic2) 0,
                            uvlinesize := linesize_at (pic_f pic2) 1\<rparr>) pic2 env
                      = Inr (ret, s1, pic1)"
          by (simp add: ff_alloc_picture_own split: if_splits)
        from alloc_picture_finish_coherent [OF this] c show ?thesis by simp
      qed
    qed
  qed
  then show "pixels_have_tables pic1" and "avctx_hwaccel s1 = avctx_hwaccel s"
    and "picture s1 = picture s"
    by simp_all
qed


lemma update_tables_from_ok:
  assumes "update_tables_from env ts dst src = (ret, dst1)" and "0 \<le> ret"
  shows "pic_f dst1 = pic_f dst \<and>
         (\<forall>t. tables dst1 t =
                (if t \<in> set ts \<and> tables src t \<noteq> None then tables src t else tables dst t))"
  using assms
proof (induction ts arbitrary: dst)
  case Nil
  then show ?case by simp
next
  case (Cons a ts)
  show ?case
  proof (cases "tables src a")
    case None
    with Cons.prems have "update_tables_from env ts dst src = (ret, dst1)" by simp
    from Cons.IH [OF this Cons.prems(2)] None show ?thesis by auto
  next
    case (Some b)
    show ?thesis
    proof (cases "tables dst a = Some b")
      case True
      with Some Cons.prems have "update_tables_from env ts dst src = (ret, dst1)" by simp
      from Cons.IH [OF this Cons.prems(2)] Some True show ?thesis by auto
    next
      case False
      show ?thesis
      proof (cases "buffer_ref_ok env b")
        case True
        with Some False Cons.prems
        have "update_tables_from env ts (dst\<lparr>tables := (tables dst)(a := Some b)\<rparr>) src
              = (ret, dst1)" by simp
        from Cons.IH [OF this Cons.prems(2)] Some show ?thesis by auto
      next
        case nok: False
        with Some False Cons.prems have "ret = AVERROR_ENOMEM" by auto
        with Cons.prems(2) show ?thesis by (simp add: AVERROR_ENOMEM_def)
      qed
    qed
  qed
qed

lemma core_tables_iff:
  "core_tables pic \<longleftrightarrow>
     tables pic mbskip_table_buf \<noteq> None \<and> tables pic qscale_table_buf \<noteq> None \<and>
     tables pic mb_type_buf \<noteq> None"
  by (simp add: core_tables_def any_null_def)

lemma update_picture_tables_core:
  assumes up: "update_picture_tables dst src env = (ret, dst1)" and ok: "0 \<le> ret"
    and src: "core_tables src"
  shows "core_tables dst1" and "pic_f dst1 = pic_f dst"
proof -
  from up have "update_tables_from env picture_tables dst src = (ret, dst1)"
    by (simp add: update_picture_tables_def)
  from update_tables_from_ok [OF this ok]
  have f: "pic_f dst1 = pic_f dst"
    and t: "\<And>t. tables dst1 t =
                (if t \<in> set picture_tables \<and> tables src t \<noteq> None then tables src t
                 else tables dst t)"
    by blast+
  show "pic_f dst1 = pic_f dst" by (rule f)
  from src show "core_tables dst1"
    by (simp add: core_tables_iff t picture_tables_all)
qed

lemma ff_mpeg_ref_picture_coherent:
  assumes rf: "ff_mpeg_ref_picture dst src env = Inr (ret, pic)"
    and src: "pixels_have_tables src"
  shows "pixels_have_tables pic"
proof -
  from rf have a: "buf0 (pic_f dst) = None" "buf0 (pic_f src) \<noteq> None"
    by (auto simp: ff_mpeg_ref_picture_def split: if_splits)
  with src have core: "core_tables src" by (simp add: pixels_have_tables_def)
  show ?thesis
  proof (cases "ref_frame_ret env < 0")
    case True
    with rf a have "pic = ff_mpeg_unref_picture dst"
      by (simp add: ff_mpeg_ref_picture_def)
    then show ?thesis by (simp add: unref_pixels_have_tables)
  next
    case False
    obtain r dst1 where up: "update_picture_tables (dst\<lparr>pic_f := pic_f src\<rparr>) src env = (r, dst1)"
      by (cases "update_picture_tables (dst\<lparr>pic_f := pic_f src\<rparr>) src env") auto
    show ?thesis
    proof (cases "r < 0")
      case True
      with rf a False up have "pic = ff_mpeg_unref_picture dst1"
        by (simp add: ff_mpeg_ref_picture_def)
      then show ?thesis by (simp add: unref_pixels_have_tables)
    next
      case ok: False
      then have "0 \<le> r" by simp
      from update_picture_tables_core [OF up this core]
      have c1: "core_tables dst1" by simp
      from rf a False up ok
      have "(\<exists>d. pic = ff_mpeg_unref_picture d) \<or> tables pic = tables dst1"
        by (auto simp: ff_mpeg_ref_picture_def Let_def split: if_splits option.splits)
      then show ?thesis
      proof
        assume "\<exists>d. pic = ff_mpeg_unref_picture d"
        then show ?thesis by (auto simp: unref_pixels_have_tables)
      next
        assume "tables pic = tables dst1"
        with c1 have "core_tables pic" by (simp add: core_tables_iff)
        then show ?thesis by (simp add: pixels_have_tables_def)
      qed
    qed
  qed
qed

lemma list_all_update:
  "list_all P xs \<Longrightarrow> P x \<Longrightarrow> list_all P (xs[i := x])"
  by (auto simp: list_all_iff dest: set_update_subset_insert [THEN subsetD])

lemma hwaccel_alloc_fails_cong:
  "avctx_hwaccel s1 = avctx_hwaccel s \<Longrightarrow> hwaccel_alloc_fails s1 env = hwaccel_alloc_fails s env"
  by (simp add: hwaccel_alloc_fails_def)

lemma private_data_ok_cong:
  "avctx_hwaccel s1 = avctx_hwaccel s \<Longrightarrow> private_data_ok s1 op = private_data_ok s op"
  by (cases op) (simp_all add: private_data_ok_def hwaccel_alloc_fails_def)

lemma pool_step_ok:
  assumes st: "pool_step s op = Inr s1" and inv: "list_all pixels_have_tables (picture s)"
    and hw: "private_data_ok s op"
  shows "list_all pixels_have_tables (picture s1)" and "avctx_hwaccel s1 = avctx_hwaccel s"
proof -
  have "list_all pixels_have_tables (picture s1) \<and> avctx_hwaccel s1 = avctx_hwaccel s"
  proof (cases op)
    case (Alloc i sh env)
    show ?thesis
    proof (cases "i < length (picture s)")
      case False
      with st inv Alloc show ?thesis by simp
    next
      case True
      with st Alloc obtain ret s2 pic where
        al: "ff_alloc_picture s (picture s ! i) sh env = Inr (ret, s2, pic)"
        and s1: "s1 = s2\<lparr>picture := (picture s2)[i := pic]\<rparr>"
        by (auto split: sum.splits prod.splits)
      from hw Alloc have "\<not> hwaccel_alloc_fails s env" by (simp add: private_data_ok_def)
      note c = ff_alloc_picture_coherent [OF al this]
      from inv c show ?thesis by (simp add: s1 list_all_update)
    qed
  next
    case (Ref d i env)
    show ?thesis
    proof (cases "d < length (picture s) \<and> i < length (picture s)")
      case False
      with st inv Ref show ?thesis by auto
    next
      case True
      with st Ref obtain ret pic where
        rf: "ff_mpeg_ref_picture (picture s ! d) (picture s ! i) env = Inr (ret, pic)"
        and s1: "s1 = s\<lparr>picture := (picture s)[d := pic]\<rparr>"
        by (auto split: sum.splits prod.splits)
      from inv True have "pixels_have_tables (picture s ! i)"
        by (simp add: list_all_length)
      from ff_mpeg_ref_picture_coherent [OF rf this] inv
      show ?thesis by (simp add: s1 list_all_update)
    qed
  next
    case (Unref i)
    with st inv show ?thesis
      by (auto simp: list_all_update unref_pixels_have_tables split: if_splits)
  qed
  then show "list_all pixels_have_tables (picture s1)" and "avctx_hwaccel s1 = avctx_hwaccel s"
    by simp_all
qed

lemma pool_run_ok:
  "pool_run s ops = Inr s1 \<Longrightarrow> list_all pixels_have_tables (picture s) \<Longrightarrow>
     list_all (private_data_ok s) ops \<Longrightarrow> list_all pixels_have_tables (picture s1)"
proof (induction ops arbitrary: s)
  case Nil
  then show ?case by simp
next
  case (Cons op ops)
  from Cons.prems(1) obtain s2 where st: "pool_step s op = Inr s2" and r: "pool_run s2 ops = Inr s1"
    by (auto split: sum.splits)
  from Cons.prems(3) have hw: "private_data_ok s op" and rest: "list_all (private_data_ok s) ops"
    by simp_all
  note step = pool_step_ok [OF st Cons.prems(2) hw]
  from rest private_data_ok_cong [OF step(2)] have "list_all (private_data_ok s2) ops"
    by (simp add: list_all_iff)
  from Cons.IH [OF r step(1) this] show ?case .
qed

lemmas pool_eval =
  ff_alloc_picture_def alloc_frame_buffer_def alloc_frame_buffer_checks_def
  alloc_picture_finish_def alloc_picture_tables_def get_buffer_def frame_size_alloc_def
  set_tables_def any_null_def linesize_at_def ff_mpeg_unref_picture_def av_frame_unref_def
  ff_free_picture_tables_eq decoder_ctx_def good_env_def stale_frame_def blank_picture_def
  blank_frame_def table_number_def FMT_H263_def AVERROR_ENOMEM_def Let_def

lemma alloc1:
  "ff_alloc_picture decoder_ctx blank_picture 0 good_env =
     Inr (0, decoder_ctx\<lparr>edge_emu_buffer := 4096, me_scratchpad := 8192, me_temp := 8192,
                         rd_scratchpad := 8192, b_scratchpad := 8192, obmc_scratchpad := 8208,
                         linesize := 4, uvlinesize := 2\<rparr>,
          blank_picture\<lparr>pic_f := stale_frame,
            tables := (\<lambda>t. if t \<in> {mbskip_table_buf, qscale_table_buf, mb_type_buf}
                             then Some (table_number t) else None)\<rparr>)"
  by (simp add: pool_eval fun_eq_iff)


lemma set_tables_pic_f: "pic_f (set_tables env ts pic) = pic_f pic"
  unfolding set_tables_def by (induction ts arbitrary: pic) simp_all

lemma alloc_picture_tables_pic_f:
  "pic_f (snd (alloc_picture_tables s pic env)) = pic_f pic"
  by (simp add: alloc_picture_tables_def Let_def set_tables_pic_f)

lemma make_writable_from_pic_f: "pic_f (snd (make_writable_from env ts pic)) = pic_f pic"
  by (induction ts arbitrary: pic) (simp_all split: option.splits)

lemma alloc_picture_finish_ok:
  assumes "alloc_picture_finish s pic env = Inr (ret, s1, pic1)" and "0 \<le> ret"
  shows "pic_f pic1 = pic_f pic" and "core_tables pic1"
proof -
  obtain r p where tb: "(if tables pic qscale_table_buf = None
            then alloc_picture_tables s pic env else make_tables_writable pic env) = (r, p)"
    by (cases "if tables pic qscale_table_buf = None
            then alloc_picture_tables s pic env else make_tables_writable pic env") auto
  have pf: "pic_f p = pic_f pic"
    using tb alloc_picture_tables_pic_f [of s pic env] make_writable_from_pic_f [of env picture_tables pic]
    by (auto simp: make_tables_writable_def split: if_splits)
  from assms tb have "\<not> r < 0"
    by (auto simp: alloc_picture_finish_def AVERROR_ENOMEM_def split: if_splits)
  with assms(1) tb have "pic1 = p \<and> \<not> any_null p [mbskip_table_buf, qscale_table_buf, mb_type_buf]"
    by (auto simp: alloc_picture_finish_def split: if_splits)
  with pf show "pic_f pic1 = pic_f pic" and "core_tables pic1"
    by (simp_all add: core_tables_def)
qed

lemma alloc_frame_buffer_checks_ok:
  assumes "alloc_frame_buffer_checks s pic env = (ret, s1, pic1)" and "0 \<le> ret"
  shows "pic1 = pic"
  using assms
  by (auto simp: alloc_frame_buffer_checks_def split: if_splits prod.splits)

lemma skip_edges_buf0: "buf0 (skip_edges s fr) = buf0 fr"
  by (simp add: skip_edges_def)

lemma ff_alloc_picture_ok:
  assumes al: "ff_alloc_picture s pic sh env = Inr (ret, s1, pic1)" and ok: "0 \<le> ret"
  shows "core_tables pic1" and "sh = 0 \<longrightarrow> buf0 (pic_f pic1) \<noteq> None"
proof -
  have "core_tables pic1 \<and> (sh = 0 \<longrightarrow> buf0 (pic_f pic1) \<noteq> None)"
  proof (cases "sh = 0")
    case False
    with al have "alloc_picture_finish s (pic\<lparr>shared := 1\<rparr>) env = Inr (ret, s1, pic1)"
      by (simp add: ff_alloc_picture_shared split: if_splits)
    from alloc_picture_finish_ok [OF this ok] False show ?thesis by simp
  next
    case True
    show ?thesis
    proof (cases "alloc_frame_buffer s pic env")
      case (Inl flt)
      with al True show ?thesis by (simp add: ff_alloc_picture_own split: if_splits)
    next
      case (Inr res)
      obtain r s2 pic2 where res: "res = (r, s2, pic2)" by (cases res) auto
      note fb = Inr [unfolded res]
      show ?thesis
      proof (cases "r < 0")
        case True
        with al \<open>sh = 0\<close> fb have "ret = - 1"
          by (simp add: ff_alloc_picture_own split: if_splits)
        with ok show ?thesis by simp
      next
        case False
        then have r0: "0 \<le> r" by simp
        from False al \<open>sh = 0\<close> fb have "alloc_picture_finish
                        (s2\<lparr>linesize := linesize_at (pic_f pic2) 0,
                            uvlinesize := linesize_at (pic_f pic2) 1\<rparr>) pic2 env
                      = Inr (ret, s1, pic1)"
          by (simp add: ff_alloc_picture_own split: if_splits)
        from alloc_picture_finish_ok [OF this ok] alloc_frame_buffer_passes(1) [OF fb r0]
        show ?thesis by simp
      qed
    qed
  qed
  then show "core_tables pic1" and "sh = 0 \<longrightarrow> buf0 (pic_f pic1) \<noteq> None" by simp_all
qed

text \<open>Which tables a successful allocation leaves in the picture.\<close>

lemma set_tables_tables:
  "tables (set_tables env ts pic) t = (if t \<in> set ts then new_table env t else tables pic t)"
  unfolding set_tables_def by (induction ts arbitrary: pic) simp_all

lemma alloc_picture_tables_motion:
  assumes a: "alloc_picture_tables s pic env = (ret, pic1)" and ok: "0 \<le> ret"
  shows "(out_format s = FMT_H263 \<or> encoding s \<noteq> 0) \<and>
         2 * (b8_stride s * mb_height s * 2 + 4) * 2 \<noteq> 0 \<longrightarrow> motion_tables pic1"
    and "\<not> (out_format s = FMT_H263 \<or> encoding s \<noteq> 0) \<longrightarrow>
         (\<forall>t \<in> set [motion_val_buf0, ref_index_buf0, motion_val_buf1, ref_index_buf1].
            tables pic1 t = tables pic t)"
proof -
  define p1 where "p1 = set_tables env [mbskip_table_buf, qscale_table_buf, mb_type_buf] pic"
  define p2 where "p2 = (if encoding s \<noteq> 0
                         then set_tables env [mb_var_buf, mc_mb_var_buf, mb_mean_buf] p1
                         else p1)"
  define p3 where "p3 = set_tables env [motion_val_buf0, ref_index_buf0] p2"
  define p4 where "p4 = set_tables env [motion_val_buf1, ref_index_buf1] p3"
  have unfold: "alloc_picture_tables s pic env =
     (if any_null p1 [mbskip_table_buf, qscale_table_buf, mb_type_buf]
      then (AVERROR_ENOMEM, p1)
      else if encoding s \<noteq> 0 \<and> any_null p2 [mb_var_buf, mc_mb_var_buf, mb_mean_buf]
      then (AVERROR_ENOMEM, p2)
      else if out_format s = FMT_H263 \<or> encoding s \<noteq> 0
      then (if 2 * (b8_stride s * mb_height s * 2 + 4) * 2 = 0 then (0, p2)
            else if any_null p3 [motion_val_buf0, ref_index_buf0] then (AVERROR_ENOMEM, p3)
            else if any_null p4 [motion_val_buf1, ref_index_buf1] then (AVERROR_ENOMEM, p4)
            else (0, p4))
      else (0, p2))"
    by (simp add: alloc_picture_tables_def Let_def p1_def p2_def p3_def p4_def)
  have keep2: "tables p2 t = tables pic t"
    if "t \<in> set [motion_val_buf0, ref_index_buf0, motion_val_buf1, ref_index_buf1]" for t
    using that by (auto simp: p2_def p1_def set_tables_tables)
  have keep4: "tables p4 motion_val_buf0 = tables p3 motion_val_buf0"
    "tables p4 ref_index_buf0 = tables p3 ref_index_buf0"
    by (simp_all add: p4_def set_tables_tables)
  show "(out_format s = FMT_H263 \<or> encoding s \<noteq> 0) \<and>
         2 * (b8_stride s * mb_height s * 2 + 4) * 2 \<noteq> 0 \<longrightarrow> motion_tables pic1"
  proof
    assume c: "(out_format s = FMT_H263 \<or> encoding s \<noteq> 0) \<and>
               2 * (b8_stride s * mb_height s * 2 + 4) * 2 \<noteq> 0"
    with a ok have "pic1 = p4 \<and> \<not> any_null p3 [motion_val_buf0, ref_index_buf0] \<and>
                    \<not> any_null p4 [motion_val_buf1, ref_index_buf1]"
      unfolding unfold by (auto simp: AVERROR_ENOMEM_def split: if_splits)
    then show "motion_tables pic1"
      by (simp add: motion_tables_def any_null_def keep4)
  qed
  show "\<not> (out_format s = FMT_H263 \<or> encoding s \<noteq> 0) \<longrightarrow>
         (\<forall>t \<in> set [motion_val_buf0, ref_index_buf0, motion_val_buf1, ref_index_buf1].
            tables pic1 t = tables pic t)"
  proof
    assume c: "\<not> (out_format s = FMT_H263 \<or> encoding s \<noteq> 0)"
    with a ok have "pic1 = p2"
      unfolding unfold by (auto simp: AVERROR_ENOMEM_def split: if_splits)
    with keep2 show "\<forall>t \<in> set [motion_val_buf0, ref_index_buf0, motion_val_buf1, ref_index_buf1].
            tables pic1 t = tables pic t" by blast
  qed
qed

lemma make_writable_from_tables:
  assumes "make_writable_from env ts pic = (ret, pic1)" and "0 \<le> ret" and "distinct ts"
  shows "tables pic1 t =
           (if t \<in> set ts
            then (case tables pic t of None \<Rightarrow> None | Some b \<Rightarrow> writable env b)
            else tables pic t)"
  using assms
proof (induction ts arbitrary: pic)
  case Nil
  then show ?case by simp
next
  case (Cons a ts)
  from Cons.prems(3) have d: "distinct ts" and na: "a \<notin> set ts" by simp_all
  show ?case
  proof (cases "tables pic a")
    case None
    with Cons.prems(1) have "make_writable_from env ts pic = (ret, pic1)" by simp
    from Cons.IH [OF this Cons.prems(2) d] None na show ?thesis by auto
  next
    case (Some b)
    show ?thesis
    proof (cases "writable env b")
      case None
      with Some Cons.prems(1) have "ret = AVERROR_ENOMEM" by simp
      with Cons.prems(2) show ?thesis by (simp add: AVERROR_ENOMEM_def)
    next
      case w: (Some b')
      with Some Cons.prems(1)
      have "make_writable_from env ts (pic\<lparr>tables := (tables pic)(a := Some b')\<rparr>) = (ret, pic1)"
        by simp
      from Cons.IH [OF this Cons.prems(2) d] Some w na show ?thesis by auto
    qed
  qed
qed

lemma make_tables_writable_tables:
  assumes "make_tables_writable pic env = (ret, pic1)" and "0 \<le> ret"
  shows "tables pic1 t = (case tables pic t of None \<Rightarrow> None | Some b \<Rightarrow> writable env b)"
proof -
  have d: "distinct picture_tables" by (simp add: picture_tables_def)
  from assms(1) have "make_writable_from env picture_tables pic = (ret, pic1)"
    by (simp add: make_tables_writable_def)
  from make_writable_from_tables [OF this assms(2) d, of t] show ?thesis
    by (simp add: picture_tables_all)
qed

lemma alloc_picture_finish_tables:
  assumes fin: "alloc_picture_finish s pic env = Inr (ret, s1, pic1)" and ok: "0 \<le> ret"
  shows "tables pic qscale_table_buf = None \<longrightarrow>
           ((out_format s = FMT_H263 \<or> encoding s \<noteq> 0) \<and>
            2 * (b8_stride s * mb_height s * 2 + 4) * 2 \<noteq> 0 \<longrightarrow> motion_tables pic1) \<and>
           (\<not> (out_format s = FMT_H263 \<or> encoding s \<noteq> 0) \<longrightarrow>
            (\<forall>t \<in> set [motion_val_buf0, ref_index_buf0, motion_val_buf1, ref_index_buf1].
               tables pic1 t = tables pic t))"
    and "tables pic qscale_table_buf \<noteq> None \<longrightarrow>
           (\<forall>t. tables pic1 t =
                  (case tables pic t of None \<Rightarrow> None | Some b \<Rightarrow> writable env b))"
proof -
  obtain r p where tb: "(if tables pic qscale_table_buf = None
            then alloc_picture_tables s pic env else make_tables_writable pic env) = (r, p)"
    by (cases "if tables pic qscale_table_buf = None
            then alloc_picture_tables s pic env else make_tables_writable pic env") auto
  from fin ok tb have r0: "0 \<le> r"
    by (auto simp: alloc_picture_finish_def AVERROR_ENOMEM_def split: if_splits)
  with fin tb have p: "pic1 = p"
    by (auto simp: alloc_picture_finish_def split: if_splits)
  show "tables pic qscale_table_buf = None \<longrightarrow>
           ((out_format s = FMT_H263 \<or> encoding s \<noteq> 0) \<and>
            2 * (b8_stride s * mb_height s * 2 + 4) * 2 \<noteq> 0 \<longrightarrow> motion_tables pic1) \<and>
           (\<not> (out_format s = FMT_H263 \<or> encoding s \<noteq> 0) \<longrightarrow>
            (\<forall>t \<in> set [motion_val_buf0, ref_index_buf0, motion_val_buf1, ref_index_buf1].
               tables pic1 t = tables pic t))"
  proof
    assume "tables pic qscale_table_buf = None"
    with tb p have "alloc_picture_tables s pic env = (r, pic1)" by simp
    from alloc_picture_tables_motion [OF this r0] show
      "((out_format s = FMT_H263 \<or> encoding s \<noteq> 0) \<and>
            2 * (b8_stride s * mb_height s * 2 + 4) * 2 \<noteq> 0 \<longrightarrow> motion_tables pic1) \<and>
           (\<not> (out_format s = FMT_H263 \<or> encoding s \<noteq> 0) \<longrightarrow>
            (\<forall>t \<in> set [motion_val_buf0, ref_index_buf0, motion_val_buf1, ref_index_buf1].
               tables pic1 t = tables pic t))" by blast
  qed
  show "tables pic qscale_table_buf \<noteq> None \<longrightarrow>
           (\<forall>t. tables pic1 t =
                  (case tables pic t of None \<Rightarrow> None | Some b \<Rightarrow> writable env b))"
  proof (intro impI allI)
    fix t
    assume "tables pic qscale_table_buf \<noteq> None"
    with tb p have "make_tables_writable pic env = (r, pic1)" by simp
    from make_tables_writable_tables [OF this r0]
    show "tables pic1 t = (case tables pic t of None \<Rightarrow> None | Some b \<Rightarrow> writable env b)" .
  qed
qed

lemma ff_alloc_picture_tables:
  assumes al: "ff_alloc_picture s pic sh env = Inr (ret, s1, pic1)" and ok: "0 \<le> ret"
  shows "tables pic qscale_table_buf = None \<longrightarrow>
           ((out_format s = FMT_H263 \<or> encoding s \<noteq> 0) \<and>
            2 * (b8_stride s * mb_height s * 2 + 4) * 2 \<noteq> 0 \<longrightarrow> motion_tables pic1) \<and>
           (\<not> (out_format s = FMT_H263 \<or> encoding s \<noteq> 0) \<longrightarrow>
            (\<forall>t \<in> set [motion_val_buf0, ref_index_buf0, motion_val_buf1, ref_index_buf1].
               tables pic1 t = tables pic t))"
    and "tables pic qscale_table_buf \<noteq> None \<longrightarrow>
           (\<forall>t. tables pic1 t =
                  (case tables pic t of None \<Rightarrow> None | Some b \<Rightarrow> writable env b))"
proof -
  have "\<exists>s3 pic3. alloc_picture_finish s3 pic3 env = Inr (ret, s1, pic1) \<and>
          tables pic3 = tables pic \<and> out_format s3 = out_format s \<and>
          encoding s3 = encoding s \<and> b8_stride s3 = b8_stride s \<and> mb_height s3 = mb_height s"
  proof (cases "sh = 0")
    case False
    with al have "alloc_picture_finish s (pic\<lparr>shared := 1\<rparr>) env = Inr (ret, s1, pic1)"
      by (simp add: ff_alloc_picture_shared split: if_splits)
    then show ?thesis by (intro exI [of _ s] exI [of _ "pic\<lparr>shared := 1\<rparr>"]) simp
  next
    case True
    show ?thesis
    proof (cases "alloc_frame_buffer s pic env")
      case (Inl flt)
      with al True show ?thesis by (simp add: ff_alloc_picture_own split: if_splits)
    next
      case (Inr res)
      obtain r s2 pic2 where res: "res = (r, s2, pic2)" by (cases res) auto
      note fb = Inr [unfolded res]
      show ?thesis
      proof (cases "r < 0")
        case True
        with al \<open>sh = 0\<close> fb have "ret = - 1"
          by (simp add: ff_alloc_picture_own split: if_splits)
        with ok show ?thesis by simp
      next
        case False
        then have r0: "0 \<le> r" by simp
        let ?s3 = "s2\<lparr>linesize := linesize_at (pic_f pic2) 0,
                       uvlinesize := linesize_at (pic_f pic2) 1\<rparr>"
        from False al \<open>sh = 0\<close> fb
        have fin: "alloc_picture_finish ?s3 pic2 env = Inr (ret, s1, pic1)"
          by (simp add: ff_alloc_picture_own split: if_splits)
        note p = alloc_frame_buffer_passes [OF fb r0]
        from p(5) have "out_format ?s3 = out_format s \<and> encoding ?s3 = encoding s \<and>
                        b8_stride ?s3 = b8_stride s \<and> mb_height ?s3 = mb_height s"
          by (auto simp: frame_size_alloc_def Let_def)
        with fin p(4) show ?thesis by (intro exI [of _ ?s3] exI [of _ pic2]) simp
      qed
    qed
  qed
  then obtain s3 pic3 where fin: "alloc_picture_finish s3 pic3 env = Inr (ret, s1, pic1)"
    and eq: "tables pic3 = tables pic" "out_format s3 = out_format s"
      "encoding s3 = encoding s" "b8_stride s3 = b8_stride s" "mb_height s3 = mb_height s"
    by blast
  from alloc_picture_finish_tables [OF fin ok]
  show "tables pic qscale_table_buf = None \<longrightarrow>
           ((out_format s = FMT_H263 \<or> encoding s \<noteq> 0) \<and>
            2 * (b8_stride s * mb_height s * 2 + 4) * 2 \<noteq> 0 \<longrightarrow> motion_tables pic1) \<and>
           (\<not> (out_format s = FMT_H263 \<or> encoding s \<noteq> 0) \<longrightarrow>
            (\<forall>t \<in> set [motion_val_buf0, ref_index_buf0, motion_val_buf1, ref_index_buf1].
               tables pic1 t = tables pic t))"
    and "tables pic qscale_table_buf \<noteq> None \<longrightarrow>
           (\<forall>t. tables pic1 t =
                  (case tables pic t of None \<Rightarrow> None | Some b \<Rightarrow> writable env b))"
    unfolding eq by simp_all
qed

text \<open>
  C4, as the code has it. After any sequence of \<open>ff_alloc_picture\<close>,
  \<open>ff_mpeg_ref_picture\<close> and \<open>ff_mpeg_unref_picture\<close> calls that runs without a fault and
  in which no allocation of a hardware accelerator's private data fails, every picture of
  the pool that has a pixel buffer has its quantizer-scale, macroblock-type and skip
  tables. The converse is not kept: \<open>ff_mpeg_unref_picture\<close> always releases the pixel
  buffer, and frees the tables only when \<open>needs_realloc\<close> is set; otherwise they stay. A
  call of \<open>ff_alloc_picture\<close> in which that allocation does not fail leaves a picture
  coherent in that sense; when it returns 0 the three tables are present and, for
  \<open>shared = 0\<close>, so is the pixel buffer. On a picture that kept its tables it allocates
  none: every table it had is the same table made writable, and every table it lacked it
  still lacks. On a picture without quantizer-scale table it allocates the tables, and
  the motion-vector and reference-index tables among them exactly for H.263 output or
  when encoding (with a table size other than 0); otherwise it leaves those four as they
  were.
\<close>

theorem picture_pool_coherence:
  fixes s s1 c :: "'a MpegEncContext_scheme"
  assumes init: "list_all pixels_have_tables (picture s)"
    and hw: "list_all (private_data_ok s) ops"
    and run: "pool_run s ops = Inr s1"
  shows "list_all pixels_have_tables (picture s1) \<and>
         buf0 (pic_f (ff_mpeg_unref_picture pic)) = None \<and>
         tables (ff_mpeg_unref_picture pic) =
           (if needs_realloc pic \<noteq> 0 then (\<lambda>t. None) else tables pic) \<and>
         (\<forall>ret c1 pic1.
            ff_alloc_picture c pic sh env = Inr (ret, c1, pic1) \<and> \<not> hwaccel_alloc_fails c env \<longrightarrow>
              pixels_have_tables pic1 \<and>
              (0 \<le> ret \<longrightarrow>
                 core_tables pic1 \<and> (sh = 0 \<longrightarrow> buf0 (pic_f pic1) \<noteq> None) \<and>
                 (tables pic qscale_table_buf \<noteq> None \<longrightarrow>
                    (\<forall>t. tables pic1 t =
                           (case tables pic t of None \<Rightarrow> None | Some b \<Rightarrow> writable env b))) \<and>
                 (tables pic qscale_table_buf = None \<longrightarrow>
                    ((out_format c = FMT_H263 \<or> encoding c \<noteq> 0) \<and>
                     2 * (b8_stride c * mb_height c * 2 + 4) * 2 \<noteq> 0 \<longrightarrow>
                       motion_tables pic1) \<and>
                    (\<not> (out_format c = FMT_H263 \<or> encoding c \<noteq> 0) \<longrightarrow>
                       (\<forall>t \<in> set [motion_val_buf0, ref_index_buf0,
                                   motion_val_buf1, ref_index_buf1].
                          tables pic1 t = tables pic t)))))"
proof -
  from pool_run_ok [OF run init hw] have a: "list_all pixels_have_tables (picture s1)" .
  have b: "\<forall>ret c1 pic1.
            ff_alloc_picture c pic sh env = Inr (ret, c1, pic1) \<and> \<not> hwaccel_alloc_fails c env \<longrightarrow>
              pixels_have_tables pic1 \<and>
              (0 \<le> ret \<longrightarrow>
                 core_tables pic1 \<and> (sh = 0 \<longrightarrow> buf0 (pic_f pic1) \<noteq> None) \<and>
                 (tables pic qscale_table_buf \<noteq> None \<longrightarrow>
                    (\<forall>t. tables pic1 t =
                           (case tables pic t of None \<Rightarrow> None | Some b \<Rightarrow> writable env b))) \<and>
                 (tables pic qscale_table_buf = None \<longrightarrow>
                    ((out_format c = FMT_H263 \<or> encoding c \<noteq> 0) \<and>
                     2 * (b8_stride c * mb_height c * 2 + 4) * 2 \<noteq> 0 \<longrightarrow>
                       motion_tables pic1) \<and>
                    (\<not> (out_format c = FMT_H263 \<or> encoding c \<noteq> 0) \<longrightarrow>
                       (\<forall>t \<in> set [motion_val_buf0, ref_index_buf0,
                                   motion_val_buf1, ref_index_buf1].
                          tables pic1 t = tables pic t))))"
  proof (intro allI impI, elim conjE)
    fix ret c1 pic1
    assume al: "ff_alloc_picture c pic sh env = Inr (ret, c1, pic1)"
      and nf: "\<not> hwaccel_alloc_fails c env"
    have 1: "pixels_have_tables pic1" by (rule ff_alloc_picture_coherent(1) [OF al nf])
    have 2: "core_tables pic1 \<and> (sh = 0 \<longrightarrow> buf0 (pic_f pic1) \<noteq> None) \<and>
                 (tables pic qscale_table_buf \<noteq> None \<longrightarrow>
                    (\<forall>t. tables pic1 t =
                           (case tables pic t of None \<Rightarrow> None | Some b \<Rightarrow> writable env b))) \<and>
                 (tables pic qscale_table_buf = None \<longrightarrow>
                    ((out_format c = FMT_H263 \<or> encoding c \<noteq> 0) \<and>
                     2 * (b8_stride c * mb_height c * 2 + 4) * 2 \<noteq> 0 \<longrightarrow>
                       motion_tables pic1) \<and>
                    (\<not> (out_format c = FMT_H263 \<or> encoding c \<noteq> 0) \<longrightarrow>
                       (\<forall>t \<in> set [motion_val_buf0, ref_index_buf0,
                                   motion_val_buf1, ref_index_buf1].
                          tables pic1 t = tables pic t)))"
      if ok: "0 \<le> ret"
      using ff_alloc_picture_ok [OF al ok] ff_alloc_picture_tables [OF al ok] by blast
    from 1 2 show "pixels_have_tables pic1 \<and>
              (0 \<le> ret \<longrightarrow>
                 core_tables pic1 \<and> (sh = 0 \<longrightarrow> buf0 (pic_f pic1) \<noteq> None) \<and>
                 (tables pic qscale_table_buf \<noteq> None \<longrightarrow>
                    (\<forall>t. tables pic1 t =
                           (case tables pic t of None \<Rightarrow> None | Some b \<Rightarrow> writable env b))) \<and>
                 (tables pic qscale_table_buf = None \<longrightarrow>
                    ((out_format c = FMT_H263 \<or> encoding c \<noteq> 0) \<and>
                     2 * (b8_stride c * mb_height c * 2 + 4) * 2 \<noteq> 0 \<longrightarrow>
                       motion_tables pic1) \<and>
                    (\<not> (out_format c = FMT_H263 \<or> encoding c \<noteq> 0) \<longrightarrow>
                       (\<forall>t \<in> set [motion_val_buf0, ref_index_buf0,
                                   motion_val_buf1, ref_index_buf1].
                          tables pic1 t = tables pic t))))"
      by blast
  qed
  have u: "buf0 (pic_f (ff_mpeg_unref_picture pic)) = None"
    by (rule ff_mpeg_unref_picture_buf0)
  have d: "tables (ff_mpeg_unref_picture pic) =
           (if needs_realloc pic \<noteq> 0 then (\<lambda>t. None) else tables pic)"
    by (rule ff_mpeg_unref_picture_tables)
  from a b u d show ?thesis by blast
qed

text \<open>
  C4 as stated fails: a successful \<open>ff_alloc_picture\<close> on a blank decoder picture gives
  pixel storage and the three tables but no motion-vector table, and releasing that
  picture with \<open>ff_mpeg_unref_picture\<close> leaves the pixel buffer absent and the tables
  present.
\<close>

theorem picture_coherence_counterexample:
  "ff_alloc_picture decoder_ctx blank_picture 0 good_env =
     Inr (0, decoder_ctx\<lparr>edge_emu_buffer := 4096, me_scratchpad := 8192, me_temp := 8192,
                         rd_scratchpad := 8192, b_scratchpad := 8192, obmc_scratchpad := 8208,
                         linesize := 4, uvlinesize := 2\<rparr>,
          blank_picture\<lparr>pic_f := stale_frame,
            tables := (\<lambda>t. if t \<in> {mbskip_table_buf, qscale_table_buf, mb_type_buf}
                             then Some (table_number t) else None)\<rparr>) \<and>
   buf0 (pic_f (ff_mpeg_unref_picture
     (blank_picture\<lparr>pic_f := stale_frame,
            tables := (\<lambda>t. if t \<in> {mbskip_table_buf, qscale_table_buf, mb_type_buf}
                             then Some (table_number t) else None)\<rparr>))) = None \<and>
   tables (ff_mpeg_unref_picture
     (blank_picture\<lparr>pic_f := stale_frame,
            tables := (\<lambda>t. if t \<in> {mbskip_table_buf, qscale_table_buf, mb_type_buf}
                             then Some (table_number t) else None)\<rparr>)) qscale_table_buf = Some 14 \<and>
   tables (blank_picture\<lparr>pic_f := stale_frame,
            tables := (\<lambda>t. if t \<in> {mbskip_table_buf, qscale_table_buf, mb_type_buf}
                             then Some (table_number t) else None)\<rparr>) motion_val_buf0 = None \<and>
   buf0 (pic_f (blank_picture\<lparr>pic_f := stale_frame,
            tables := (\<lambda>t. if t \<in> {mbskip_table_buf, qscale_table_buf, mb_type_buf}
                             then Some (table_number t) else None)\<rparr>)) = Some 1"
  by (intro conjI, rule alloc1)
    (simp_all add: ff_mpeg_unref_picture_buf0 ff_mpeg_unref_picture_tables
      blank_picture_def table_number_def stale_frame_def)

text \<open>
  The case left out above: with an accelerator that has private data, a failed allocation
  of that data makes \<open>alloc_frame_buffer\<close> return at once, and \<open>ff_alloc_picture\<close> leaves
  the picture with its pixel buffer and without tables.
\<close>

lemma hwaccel_failure_keeps_pixels:
  "hwaccel_alloc_fails (decoder_ctx\<lparr>avctx_hwaccel := Some 16\<rparr>) good_env \<and>
   fst (projr (ff_alloc_picture (decoder_ctx\<lparr>avctx_hwaccel := Some 16\<rparr>)
                 blank_picture 0 good_env)) = - 1 \<and>
   buf0 (pic_f (snd (snd (projr (ff_alloc_picture (decoder_ctx\<lparr>avctx_hwaccel := Some 16\<rparr>)
                                   blank_picture 0 good_env))))) = Some 1 \<and>
   tables (snd (snd (projr (ff_alloc_picture (decoder_ctx\<lparr>avctx_hwaccel := Some 16\<rparr>)
                              blank_picture 0 good_env)))) qscale_table_buf = None"
  by (simp add: hwaccel_alloc_fails_def pool_eval)

lemmas pool_run_eval =
  pool_calls_def good_ref_env_def ff_mpeg_ref_picture_def update_picture_tables_def
  make_tables_writable_def picture_tables_def pixels_have_tables_def core_tables_def
  private_data_ok_def hwaccel_alloc_fails_def

theorem picture_pool_coherence_witness:
  "list_all pixels_have_tables (picture decoder_ctx) \<and>
   list_all (private_data_ok decoder_ctx) pool_calls \<and>
   pool_run decoder_ctx pool_calls = Inr (projr (pool_run decoder_ctx pool_calls)) \<and>
   list_all pixels_have_tables (picture (projr (pool_run decoder_ctx pool_calls))) \<and>
   buf0 (pic_f (picture (projr (pool_run decoder_ctx pool_calls)) ! 0)) = Some 1 \<and>
   buf0 (pic_f (picture (projr (pool_run decoder_ctx pool_calls)) ! 1)) = Some 1 \<and>
   tables (picture (projr (pool_run decoder_ctx pool_calls)) ! 1) qscale_table_buf = Some 14"
proof -
  let ?r = "pool_run decoder_ctx pool_calls"
  have init: "list_all pixels_have_tables (picture decoder_ctx)"
    by (simp add: decoder_ctx_def pixels_have_tables_def blank_picture_def blank_frame_def)
  have hw: "list_all (private_data_ok decoder_ctx) pool_calls"
    by (simp add: pool_calls_def private_data_ok_def hwaccel_alloc_fails_def decoder_ctx_def)
  have "\<not> isl ?r" by (simp add: pool_run_eval pool_eval)
  then have run: "?r = Inr (projr ?r)" by simp
  have e: "buf0 (pic_f (picture (projr ?r) ! 0)) = Some 1"
    "buf0 (pic_f (picture (projr ?r) ! 1)) = Some 1"
    "tables (picture (projr ?r) ! 1) qscale_table_buf = Some 14"
    by (simp_all add: pool_run_eval pool_eval)
  from picture_pool_coherence [OF init hw run, THEN conjunct1] init hw run e
  show ?thesis by blast
qed

section \<open>Properties of the dummy reference pictures\<close>

lemma memset_length: "length (memset p c n) = length p"
  by (simp add: memset_def)

lemma memset_nth:
  "k < length p \<Longrightarrow> memset p c n ! k = (if int k < n then c else p ! k)"
  by (auto simp: memset_def nth_append)

lemma memset_plane_fields:
  "buf0 (memset_plane fr i c n) = buf0 fr"
  "frame_linesize (memset_plane fr i c n) = frame_linesize fr"
  "length (data (memset_plane fr i c n)) = length (data fr)"
  by (simp_all add: memset_plane_def)

lemma memset_plane_linesize_at: "linesize_at (memset_plane fr i c n) j = linesize_at fr j"
  by (simp add: linesize_at_def memset_plane_fields)

lemma memset_plane_data_at:
  "data_at (memset_plane fr i c n) j =
     (if j = i \<and> i < length (data fr) then memset (data fr ! i) c n else data_at fr j)"
  by (auto simp: data_at_def memset_plane_def)

lemma set_tables_reference: "reference (set_tables env ts pic) = reference pic"
  unfolding set_tables_def by (induction ts arbitrary: pic) simp_all

lemma alloc_picture_tables_reference:
  "reference (snd (alloc_picture_tables s pic env)) = reference pic"
  by (simp add: alloc_picture_tables_def Let_def set_tables_reference)

lemma make_writable_from_reference:
  "reference (snd (make_writable_from env ts pic)) = reference pic"
  by (induction ts arbitrary: pic) (simp_all split: option.splits)

lemma alloc_picture_finish_success:
  assumes "alloc_picture_finish s pic env = Inr (ret, s1, pic1)" and "0 \<le> ret"
  shows "s1 = s" and "reference pic1 = reference pic"
proof -
  obtain r p where tb: "(if tables pic qscale_table_buf = None
            then alloc_picture_tables s pic env else make_tables_writable pic env) = (r, p)"
    by (cases "if tables pic qscale_table_buf = None
            then alloc_picture_tables s pic env else make_tables_writable pic env") auto
  have rf: "reference p = reference pic"
    using tb alloc_picture_tables_reference [of s pic env]
      make_writable_from_reference [of env picture_tables pic]
    by (auto simp: make_tables_writable_def split: if_splits)
  from assms tb have "\<not> r < 0"
    by (auto simp: alloc_picture_finish_def AVERROR_ENOMEM_def split: if_splits)
  with assms(1) tb have "pic1 = p \<and> s1 = s"
    by (auto simp: alloc_picture_finish_def split: if_splits)
  with rf show "s1 = s" and "reference pic1 = reference pic" by simp_all
qed

lemma frame_size_alloc_pool:
  "picture (snd (frame_size_alloc s a1 a2)) = picture s"
  "last_picture_ptr (snd (frame_size_alloc s a1 a2)) = last_picture_ptr s"
  "next_picture_ptr (snd (frame_size_alloc s a1 a2)) = next_picture_ptr s"
  "avctx_height (snd (frame_size_alloc s a1 a2)) = avctx_height s"
  "pict_type (snd (frame_size_alloc s a1 a2)) = pict_type s"
  by (simp_all add: frame_size_alloc_def Let_def)

lemma alloc_frame_buffer_checks_success:
  assumes "alloc_frame_buffer_checks s pic env = (ret, s1, pic1)" and "0 \<le> ret"
  shows "pic1 = pic" and "same_pool s1 s"
proof -
  from assms have "pic1 = pic \<and> (s1 = s \<or> s1 = snd (frame_size_alloc s (scratch_a1 env) (scratch_a2 env)))"
    by (auto simp: alloc_frame_buffer_checks_def split: if_splits prod.splits)
  then show "pic1 = pic" and "same_pool s1 s"
    by (auto simp: same_pool_def frame_size_alloc_pool)
qed

lemma get_buffer_cases:
  "get_buffer fr env = (got_ret env, if got_ret env < 0 then av_frame_unref fr else got_frame env)"
  by (simp add: get_buffer_def)

lemma alloc_frame_buffer_success:
  assumes fb: "alloc_frame_buffer s pic env = Inr (ret, s1, pic1)" and ok: "0 \<le> ret"
  shows "buf0 (pic_f pic1) \<noteq> None" and "reference pic1 = reference pic" and "same_pool s1 s"
proof -
  note p = alloc_frame_buffer_passes [OF fb ok]
  show "buf0 (pic_f pic1) \<noteq> None" and "reference pic1 = reference pic" by (rule p)+
  from p(5) show "same_pool s1 s" by (auto simp: same_pool_def frame_size_alloc_pool)
qed

lemma ff_alloc_picture_own_success:
  assumes al: "ff_alloc_picture s pic 0 env = Inr (ret, s1, pic1)" and ok: "0 \<le> ret"
  shows "buf0 (pic_f pic1) \<noteq> None" and "reference pic1 = reference pic" and "same_pool s1 s"
proof -
  have "buf0 (pic_f pic1) \<noteq> None \<and> reference pic1 = reference pic \<and> same_pool s1 s"
  proof (cases "alloc_frame_buffer s pic env")
    case (Inl flt)
    with al show ?thesis by (simp add: ff_alloc_picture_own split: if_splits)
  next
    case (Inr res)
    obtain r s2 pic2 where res: "res = (r, s2, pic2)" by (cases res) auto
    note fb = Inr [unfolded res]
    show ?thesis
    proof (cases "r < 0")
      case True
      with al fb have "ret = - 1" by (simp add: ff_alloc_picture_own split: if_splits)
      with ok show ?thesis by simp
    next
      case False
      then have r0: "0 \<le> r" by simp
      let ?s3 = "s2\<lparr>linesize := linesize_at (pic_f pic2) 0,
                     uvlinesize := linesize_at (pic_f pic2) 1\<rparr>"
      from False al fb have fin: "alloc_picture_finish ?s3 pic2 env = Inr (ret, s1, pic1)"
        by (simp add: ff_alloc_picture_own split: if_splits)
      note a = alloc_frame_buffer_success [OF fb r0]
      note b = alloc_picture_finish_success [OF fin ok]
      note c = alloc_picture_finish_ok [OF fin ok]
      from a b c show ?thesis by (simp add: same_pool_def)
    qed
  qed
  then show "buf0 (pic_f pic1) \<noteq> None" and "reference pic1 = reference pic" and "same_pool s1 s"
    by simp_all
qed

lemma ff_find_unused_picture_length:
  "length (snd (ff_find_unused_picture pool sh)) = length pool"
  by (simp add: ff_find_unused_picture_def Let_def)

lemma ff_find_unused_picture_range:
  assumes "0 \<le> fst (ff_find_unused_picture pool sh)"
  shows "nat (fst (ff_find_unused_picture pool sh)) < length pool"
proof -
  define test where
    "test = (if sh \<noteq> 0 then (\<lambda>p. buf0 (pic_f p) = None) else (\<lambda>p. pic_is_unused p \<noteq> 0))"
  from find_unused_picture_cases [OF test_def, of pool] assms
  show ?thesis
    by (auto simp: ff_find_unused_picture_fst AVERROR_INVALIDDATA_def)
qed

lemma fill_dummy_fields:
  "buf0 (fill_dummy fr h v) = buf0 fr"
  "linesize_at (fill_dummy fr h v) j = linesize_at fr j"
  by (simp_all add: fill_dummy_def Let_def memset_plane_fields memset_plane_linesize_at)

lemma data_at_length: "k < length (data_at fr i) \<Longrightarrow> i < length (data fr)"
  by (simp add: data_at_def split: if_splits)

lemma memset_plane_data_at_eq:
  "data_at (memset_plane fr i c n) j =
     (if j = i then memset (data_at fr i) c n else data_at fr j)"
  by (auto simp: data_at_def memset_plane_def memset_def)

lemma fill_dummy_data_at:
  "data_at (fill_dummy fr h v) 0 = memset (data_at fr 0) 0 (h * linesize_at fr 0)"
  "data_at (fill_dummy fr h v) 1 = memset (data_at fr 1) 0x80 (h div 2 ^ nat v * linesize_at fr 1)"
  "data_at (fill_dummy fr h v) 2 = memset (data_at fr 2) 0x80 (h div 2 ^ nat v * linesize_at fr 2)"
  by (simp_all add: fill_dummy_def Let_def memset_plane_data_at_eq memset_plane_linesize_at)

lemma fill_dummy_bytes:
  "k < length (data_at (fill_dummy fr h v) 0) \<Longrightarrow>
     int k < h * linesize_at (fill_dummy fr h v) 0 \<Longrightarrow> data_at (fill_dummy fr h v) 0 ! k = 0"
  "k < length (data_at (fill_dummy fr h v) 1) \<Longrightarrow>
     int k < h div 2 ^ nat v * linesize_at (fill_dummy fr h v) 1 \<Longrightarrow>
     data_at (fill_dummy fr h v) 1 ! k = 0x80"
  "k < length (data_at (fill_dummy fr h v) 2) \<Longrightarrow>
     int k < h div 2 ^ nat v * linesize_at (fill_dummy fr h v) 2 \<Longrightarrow>
     data_at (fill_dummy fr h v) 2 ! k = 0x80"
  using fill_dummy_data_at [of fr h v]
  by (simp_all add: fill_dummy_fields memset_length memset_nth del: One_nat_def)

lemma set_tables_needs_realloc: "needs_realloc (set_tables env ts pic) = needs_realloc pic"
  unfolding set_tables_def by (induction ts arbitrary: pic) simp_all

lemma alloc_picture_tables_needs_realloc:
  "needs_realloc (snd (alloc_picture_tables s pic env)) = needs_realloc pic"
  by (simp add: alloc_picture_tables_def Let_def set_tables_needs_realloc)

lemma make_writable_from_needs_realloc:
  "needs_realloc (snd (make_writable_from env ts pic)) = needs_realloc pic"
  by (induction ts arbitrary: pic) (simp_all split: option.splits)

lemma alloc_picture_finish_needs_realloc:
  assumes "alloc_picture_finish s pic env = Inr (ret, s1, pic1)" and "0 \<le> ret"
  shows "needs_realloc pic1 = needs_realloc pic"
proof -
  obtain r p where tb: "(if tables pic qscale_table_buf = None
            then alloc_picture_tables s pic env else make_tables_writable pic env) = (r, p)"
    by (cases "if tables pic qscale_table_buf = None
            then alloc_picture_tables s pic env else make_tables_writable pic env") auto
  have rf: "needs_realloc p = needs_realloc pic"
    using tb alloc_picture_tables_needs_realloc [of s pic env]
      make_writable_from_needs_realloc [of env picture_tables pic]
    by (auto simp: make_tables_writable_def split: if_splits)
  from assms tb have "\<not> r < 0"
    by (auto simp: alloc_picture_finish_def AVERROR_ENOMEM_def split: if_splits)
  with assms(1) tb have "pic1 = p"
    by (auto simp: alloc_picture_finish_def split: if_splits)
  with rf show ?thesis by simp
qed

lemma ff_alloc_picture_own_needs_realloc:
  assumes al: "ff_alloc_picture s pic 0 env = Inr (ret, s1, pic1)" and ok: "0 \<le> ret"
  shows "needs_realloc pic1 = needs_realloc pic"
proof (cases "alloc_frame_buffer s pic env")
  case (Inl flt)
  with al show ?thesis by (simp add: ff_alloc_picture_own split: if_splits)
next
  case (Inr res)
  obtain r s2 pic2 where res: "res = (r, s2, pic2)" by (cases res) auto
  note fb = Inr [unfolded res]
  show ?thesis
  proof (cases "r < 0")
    case True
    with al fb have "ret = - 1" by (simp add: ff_alloc_picture_own split: if_splits)
    with ok show ?thesis by simp
  next
    case False
    then have r0: "0 \<le> r" by simp
    let ?s3 = "s2\<lparr>linesize := linesize_at (pic_f pic2) 0,
                   uvlinesize := linesize_at (pic_f pic2) 1\<rparr>"
    from False al fb have fin: "alloc_picture_finish ?s3 pic2 env = Inr (ret, s1, pic1)"
      by (simp add: ff_alloc_picture_own split: if_splits)
    from alloc_frame_buffer_passes(3) [OF fb r0] alloc_picture_finish_needs_realloc [OF fin ok]
    show ?thesis by simp
  qed
qed

lemma ff_find_unused_picture_own:
  assumes fu: "ff_find_unused_picture pool 0 = (r, pool')" and r0: "0 \<le> r"
  shows "nat r < length pool" and "pic_is_unused (pool ! nat r) \<noteq> 0"
    and "length pool' = length pool"
    and "\<forall>k. k \<noteq> nat r \<longrightarrow> pool' ! k = pool ! k"
    and "buf0 (pic_f (pool' ! nat r)) = None" and "needs_realloc (pool' ! nat r) = 0"
proof -
  have r: "find_unused_picture pool 0 = r"
    using fu ff_find_unused_picture_fst [of pool 0] by simp
  from find_unused_picture_cases [of "\<lambda>p. pic_is_unused p \<noteq> 0" 0 pool] r r0
  have rng: "r < int (length pool)" and un: "pic_is_unused (pool ! nat r) \<noteq> 0"
    by (auto simp: AVERROR_INVALIDDATA_def)
  from rng r0 show n: "nat r < length pool" by simp
  show "pic_is_unused (pool ! nat r) \<noteq> 0" by (rule un)
  have pool': "pool' = (if needs_realloc (pool ! nat r) \<noteq> 0
                 then pool[nat r := ff_mpeg_unref_picture
                         (ff_free_picture_tables ((pool ! nat r)\<lparr>needs_realloc := 0\<rparr>))]
                 else pool)"
    using fu r r0 rng by (simp add: ff_find_unused_picture_def Let_def split: if_splits)
  show "length pool' = length pool" by (simp add: pool')
  show "\<forall>k. k \<noteq> nat r \<longrightarrow> pool' ! k = pool ! k" by (simp add: pool')
  show "buf0 (pic_f (pool' ! nat r)) = None"
    using un n by (auto simp: pool' ff_mpeg_unref_picture_buf0 pic_is_unused_iff)
  show "needs_realloc (pool' ! nat r) = 0"
    using n by (simp add: pool' ff_mpeg_unref_picture_def Let_def ff_free_picture_tables_fields)
qed

lemma dummy_last_picture_slot:
  assumes miss: "no_picture s (last_picture_ptr s)"
    and kind: "pict_type s \<noteq> AV_PICTURE_TYPE_I \<or> picture_structure s \<noteq> PICT_FRAME"
    and res: "dummy_last_picture s v env = Inr (0, s1)"
  shows "\<exists>i pic1 s2. i < length (picture s) \<and> pic_is_unused (picture s ! i) \<noteq> 0 \<and>
           buf0 (pic_f pic1) \<noteq> None \<and> reference pic1 = 3 \<and> needs_realloc pic1 = 0 \<and>
           length (picture s2) = length (picture s) \<and>
           (\<forall>k. k \<noteq> i \<longrightarrow> picture s2 ! k = picture s ! k) \<and>
           next_picture_ptr s2 = next_picture_ptr s \<and> pict_type s2 = pict_type s \<and>
           avctx_height s2 = avctx_height s \<and>
           s1 = s2\<lparr>picture := (picture s2)[i := pic1\<lparr>pic_f :=
                          fill_dummy (pic_f pic1) (avctx_height s2) v\<rparr>],
                    last_picture_ptr := Some i\<rparr>"
proof -
  obtain r pool where fu: "ff_find_unused_picture (picture s) 0 = (r, pool)"
    by (cases "ff_find_unused_picture (picture s) 0") auto
  have r0: "0 \<le> r"
  proof (rule ccontr)
    assume "\<not> 0 \<le> r"
    with miss kind fu have "dummy_last_picture s v env = Inr (r, s\<lparr>picture := pool\<rparr>)"
      by (simp add: dummy_last_picture_def)
    with res \<open>\<not> 0 \<le> r\<close> show False by simp
  qed
  note slot = ff_find_unused_picture_own [OF fu r0]
  define pic where "pic = mark_dummy (pool ! nat r)"
  define s0 where "s0 = s\<lparr>picture := pool[nat r := pic], last_picture_ptr := Some (nat r)\<rparr>"
  have step: "dummy_last_picture s v env =
     (case ff_alloc_picture s0 pic 0 env of
        Inl flt \<Rightarrow> Inl flt
      | Inr (ret, s2, pic1) \<Rightarrow>
          if ret < 0
          then Inr (- 1, s2\<lparr>picture := (picture s2)[nat r := pic1], last_picture_ptr := None\<rparr>)
          else Inr (0, s2\<lparr>picture := (picture s2)[nat r := pic1\<lparr>pic_f :=
                              fill_dummy (pic_f pic1) (avctx_height s2) v\<rparr>]\<rparr>))"
    using miss kind fu r0
    by (simp add: dummy_last_picture_def pic_def s0_def Let_def fill_dummy_def
          split: sum.splits prod.splits)
  show ?thesis
  proof (cases "ff_alloc_picture s0 pic 0 env")
    case (Inl flt)
    with step res show ?thesis by simp
  next
    case (Inr x)
    obtain ret s2 pic1 where x: "x = (ret, s2, pic1)" by (cases x) auto
    note al = Inr [unfolded x]
    have ok: "0 \<le> ret"
    proof (rule ccontr)
      assume "\<not> 0 \<le> ret"
      with step al res show False by simp
    qed
    from step al ok res
    have s1: "s1 = s2\<lparr>picture := (picture s2)[nat r := pic1\<lparr>pic_f :=
                              fill_dummy (pic_f pic1) (avctx_height s2) v\<rparr>]\<rparr>"
      by simp
    note a = ff_alloc_picture_own_success [OF al ok]
    note n = ff_alloc_picture_own_needs_realloc [OF al ok]
    from a(3) have sp: "picture s2 = pool[nat r := pic]" "last_picture_ptr s2 = Some (nat r)"
      "next_picture_ptr s2 = next_picture_ptr s" "pict_type s2 = pict_type s"
      "avctx_height s2 = avctx_height s"
      by (simp_all add: same_pool_def s0_def)
    have "reference pic1 = 3" using a(2) by (simp add: pic_def mark_dummy_def)
    moreover have "needs_realloc pic1 = 0" using n slot(6) by (simp add: pic_def mark_dummy_def)
    moreover have "s1 = s2\<lparr>picture := (picture s2)[nat r := pic1\<lparr>pic_f :=
                              fill_dummy (pic_f pic1) (avctx_height s2) v\<rparr>],
                    last_picture_ptr := Some (nat r)\<rparr>"
      using s1 sp(2) by simp
    moreover have "length (picture s2) = length (picture s)" using sp(1) slot(3) by simp
    moreover have "\<forall>k. k \<noteq> nat r \<longrightarrow> picture s2 ! k = picture s ! k"
      using sp(1) slot(4) by simp
    moreover note a(1) slot(1,2) sp(3,4,5)
    ultimately show ?thesis
      by (intro exI [of _ "nat r"] exI [of _ pic1] exI [of _ s2]) simp
  qed
qed

lemma dummy_next_picture_slot:
  assumes miss: "no_picture s (next_picture_ptr s)"
    and kind: "pict_type s = AV_PICTURE_TYPE_B"
    and res: "dummy_next_picture s env = Inr (0, s1)"
  shows "\<exists>j pic1 s2. j < length (picture s) \<and> pic_is_unused (picture s ! j) \<noteq> 0 \<and>
           buf0 (pic_f pic1) \<noteq> None \<and> reference pic1 = 3 \<and>
           length (picture s2) = length (picture s) \<and>
           (\<forall>k. k \<noteq> j \<longrightarrow> picture s2 ! k = picture s ! k) \<and>
           last_picture_ptr s2 = last_picture_ptr s \<and> avctx_height s2 = avctx_height s \<and>
           s1 = s2\<lparr>picture := (picture s2)[j := pic1], next_picture_ptr := Some j\<rparr>"
proof -
  obtain r pool where fu: "ff_find_unused_picture (picture s) 0 = (r, pool)"
    by (cases "ff_find_unused_picture (picture s) 0") auto
  have r0: "0 \<le> r"
  proof (rule ccontr)
    assume "\<not> 0 \<le> r"
    with miss kind fu have "dummy_next_picture s env = Inr (r, s\<lparr>picture := pool\<rparr>)"
      by (simp add: dummy_next_picture_def)
    with res \<open>\<not> 0 \<le> r\<close> show False by simp
  qed
  note slot = ff_find_unused_picture_own [OF fu r0]
  define pic where "pic = mark_dummy (pool ! nat r)"
  define s0 where "s0 = s\<lparr>picture := pool[nat r := pic], next_picture_ptr := Some (nat r)\<rparr>"
  have step: "dummy_next_picture s env =
     (case ff_alloc_picture s0 pic 0 env of
        Inl flt \<Rightarrow> Inl flt
      | Inr (ret, s2, pic1) \<Rightarrow>
          if ret < 0
          then Inr (- 1, s2\<lparr>picture := (picture s2)[nat r := pic1], next_picture_ptr := None\<rparr>)
          else Inr (0, s2\<lparr>picture := (picture s2)[nat r := pic1]\<rparr>))"
    using miss kind fu r0
    by (simp add: dummy_next_picture_def pic_def s0_def Let_def
          split: sum.splits prod.splits)
  show ?thesis
  proof (cases "ff_alloc_picture s0 pic 0 env")
    case (Inl flt)
    with step res show ?thesis by simp
  next
    case (Inr x)
    obtain ret s2 pic1 where x: "x = (ret, s2, pic1)" by (cases x) auto
    note al = Inr [unfolded x]
    have ok: "0 \<le> ret"
    proof (rule ccontr)
      assume "\<not> 0 \<le> ret"
      with step al res show False by simp
    qed
    from step al ok res
    have s1: "s1 = s2\<lparr>picture := (picture s2)[nat r := pic1]\<rparr>" by simp
    note a = ff_alloc_picture_own_success [OF al ok]
    from a(3) have sp: "picture s2 = pool[nat r := pic]" "next_picture_ptr s2 = Some (nat r)"
      "last_picture_ptr s2 = last_picture_ptr s" "avctx_height s2 = avctx_height s"
      by (simp_all add: same_pool_def s0_def)
    have "reference pic1 = 3" using a(2) by (simp add: pic_def mark_dummy_def)
    moreover have "s1 = s2\<lparr>picture := (picture s2)[nat r := pic1],
                            next_picture_ptr := Some (nat r)\<rparr>"
      using s1 sp(2) by simp
    moreover have "length (picture s2) = length (picture s)" using sp(1) slot(3) by simp
    moreover have "\<forall>k. k \<noteq> nat r \<longrightarrow> picture s2 ! k = picture s ! k"
      using sp(1) slot(4) by simp
    moreover note a(1) slot(1,2) sp(3,4)
    ultimately show ?thesis
      by (intro exI [of _ "nat r"] exI [of _ pic1] exI [of _ s2]) simp
  qed
qed

lemma dummy_last_picture_skipped:
  assumes "\<not> (no_picture s (last_picture_ptr s) \<and>
              (pict_type s \<noteq> AV_PICTURE_TYPE_I \<or> picture_structure s \<noteq> PICT_FRAME))"
  shows "dummy_last_picture s v env = Inr (0, s)"
  by (subst dummy_last_picture_def) (rule if_not_P [OF assms])

lemma dummy_next_picture_skipped:
  assumes "\<not> (no_picture s (next_picture_ptr s) \<and> pict_type s = AV_PICTURE_TYPE_B)"
  shows "dummy_next_picture s env = Inr (0, s)"
  by (subst dummy_next_picture_def) (rule if_not_P [OF assms])

lemma dummy_last_picture_pict_type:
  assumes res: "dummy_last_picture s v env = Inr (0, s1)"
  shows "pict_type s1 = pict_type s"
proof (cases "no_picture s (last_picture_ptr s) \<and>
              (pict_type s \<noteq> AV_PICTURE_TYPE_I \<or> picture_structure s \<noteq> PICT_FRAME)")
  case True
  then have miss: "no_picture s (last_picture_ptr s)"
    and kind: "pict_type s \<noteq> AV_PICTURE_TYPE_I \<or> picture_structure s \<noteq> PICT_FRAME"
    by simp_all
  from dummy_last_picture_slot [OF miss kind res] show ?thesis by auto
next
  case False
  from dummy_last_picture_skipped [OF False, of v env] res show ?thesis by simp
qed

lemma frame_start_dummies_steps:
  assumes res: "frame_start_dummies s v el en = Inr (0, s1)"
  shows "\<exists>s0. dummy_last_picture s v el = Inr (0, s0) \<and> dummy_next_picture s0 en = Inr (0, s1)"
proof (cases "dummy_last_picture s v el")
  case (Inl flt)
  with res show ?thesis by (simp add: frame_start_dummies_def)
next
  case (Inr x)
  obtain r s0 where x: "x = (r, s0)" by (cases x) auto
  note l = Inr [unfolded x]
  have nneg: "\<not> r < 0"
  proof
    assume "r < 0"
    with l res show False by (simp add: frame_start_dummies_def)
  qed
  have "r \<le> 0"
    using l
    by (auto simp: dummy_last_picture_def Let_def split: if_splits prod.splits sum.splits)
  with nneg have "r = 0" by simp
  with l res show ?thesis by (simp add: frame_start_dummies_def)
qed

lemma dummy_next_picture_keeps:
  assumes n: "dummy_next_picture s0 env = Inr (0, s1)"
    and used: "pic_is_unused (picture s0 ! i) = 0"
  shows "picture s1 ! i = picture s0 ! i" and "last_picture_ptr s1 = last_picture_ptr s0"
    and "avctx_height s1 = avctx_height s0" and "length (picture s1) = length (picture s0)"
proof -
  have "picture s1 ! i = picture s0 ! i \<and> last_picture_ptr s1 = last_picture_ptr s0 \<and>
        avctx_height s1 = avctx_height s0 \<and> length (picture s1) = length (picture s0)"
  proof (cases "no_picture s0 (next_picture_ptr s0) \<and> pict_type s0 = AV_PICTURE_TYPE_B")
    case False
    from dummy_next_picture_skipped [OF False, of env] n show ?thesis by simp
  next
    case True
    then have miss: "no_picture s0 (next_picture_ptr s0)"
      and kind: "pict_type s0 = AV_PICTURE_TYPE_B" by simp_all
    from dummy_next_picture_slot [OF miss kind n]
    obtain j pic1 s2 where un: "pic_is_unused (picture s0 ! j) \<noteq> 0"
      and len: "length (picture s2) = length (picture s0)"
      and same: "\<forall>k. k \<noteq> j \<longrightarrow> picture s2 ! k = picture s0 ! k"
      and lp: "last_picture_ptr s2 = last_picture_ptr s0"
      and ah: "avctx_height s2 = avctx_height s0"
      and s1: "s1 = s2\<lparr>picture := (picture s2)[j := pic1], next_picture_ptr := Some j\<rparr>"
      by blast
    from un used have "i \<noteq> j" by auto
    with same have "picture s1 ! i = picture s0 ! i" by (simp add: s1)
    with len lp ah show ?thesis by (simp add: s1)
  qed
  then show "picture s1 ! i = picture s0 ! i" and "last_picture_ptr s1 = last_picture_ptr s0"
    and "avctx_height s1 = avctx_height s0" and "length (picture s1) = length (picture s0)"
    by simp_all
qed

text \<open>
  C6, as the code has it. When the two blocks of frame start that substitute missing
  references both return without error: if there was no last picture and the frame is
  not an intra frame picture, \<open>last_picture_ptr\<close> points to a pool picture that was
  unused before and now has pixel storage, marked \<open>reference = 3\<close>, whose luma plane
  is set to 0 over \<open>height * linesize[0]\<close> bytes and whose two chroma planes are set to
  \<open>0x80\<close> over \<open>(height >> v_chroma_shift) * linesize\<close> bytes each; if after that there
  is no next picture and the frame is a B frame, \<open>next_picture_ptr\<close> points to a pool
  picture that was unused before and now has pixel storage, marked \<open>reference = 3\<close>.
  The dummy last picture is still in place and filled after the second block.
\<close>

theorem frame_start_dummy_references:
  fixes s s1 :: "'a MpegEncContext_scheme"
  assumes res: "frame_start_dummies s v env_last env_next = Inr (0, s1)"
  shows "\<exists>s0. dummy_last_picture s v env_last = Inr (0, s0) \<and>
           dummy_next_picture s0 env_next = Inr (0, s1) \<and>
           (no_picture s (last_picture_ptr s) \<and>
            (pict_type s \<noteq> AV_PICTURE_TYPE_I \<or> picture_structure s \<noteq> PICT_FRAME) \<longrightarrow>
              (\<exists>i < length (picture s1).
                 last_picture_ptr s1 = Some i \<and>
                 pic_is_unused (picture s ! i) \<noteq> 0 \<and>
                 buf0 (pic_f (picture s1 ! i)) \<noteq> None \<and>
                 reference (picture s1 ! i) = 3 \<and>
                 (\<forall>k < length (data_at (pic_f (picture s1 ! i)) 0).
                    int k < avctx_height s1 * linesize_at (pic_f (picture s1 ! i)) 0 \<longrightarrow>
                    data_at (pic_f (picture s1 ! i)) 0 ! k = 0) \<and>
                 (\<forall>k < length (data_at (pic_f (picture s1 ! i)) 1).
                    int k < avctx_height s1 div 2 ^ nat v *
                            linesize_at (pic_f (picture s1 ! i)) 1 \<longrightarrow>
                    data_at (pic_f (picture s1 ! i)) 1 ! k = 0x80) \<and>
                 (\<forall>k < length (data_at (pic_f (picture s1 ! i)) 2).
                    int k < avctx_height s1 div 2 ^ nat v *
                            linesize_at (pic_f (picture s1 ! i)) 2 \<longrightarrow>
                    data_at (pic_f (picture s1 ! i)) 2 ! k = 0x80))) \<and>
           (no_picture s0 (next_picture_ptr s0) \<and> pict_type s = AV_PICTURE_TYPE_B \<longrightarrow>
              (\<exists>j < length (picture s1).
                 next_picture_ptr s1 = Some j \<and>
                 pic_is_unused (picture s0 ! j) \<noteq> 0 \<and>
                 buf0 (pic_f (picture s1 ! j)) \<noteq> None \<and>
                 reference (picture s1 ! j) = 3))"
proof -
  from frame_start_dummies_steps [OF res]
  obtain s0 where l: "dummy_last_picture s v env_last = Inr (0, s0)"
    and n: "dummy_next_picture s0 env_next = Inr (0, s1)" by blast
  have A: "\<exists>i < length (picture s1).
             last_picture_ptr s1 = Some i \<and>
             pic_is_unused (picture s ! i) \<noteq> 0 \<and>
             buf0 (pic_f (picture s1 ! i)) \<noteq> None \<and>
             reference (picture s1 ! i) = 3 \<and>
             (\<forall>k < length (data_at (pic_f (picture s1 ! i)) 0).
                int k < avctx_height s1 * linesize_at (pic_f (picture s1 ! i)) 0 \<longrightarrow>
                data_at (pic_f (picture s1 ! i)) 0 ! k = 0) \<and>
             (\<forall>k < length (data_at (pic_f (picture s1 ! i)) 1).
                int k < avctx_height s1 div 2 ^ nat v *
                        linesize_at (pic_f (picture s1 ! i)) 1 \<longrightarrow>
                data_at (pic_f (picture s1 ! i)) 1 ! k = 0x80) \<and>
             (\<forall>k < length (data_at (pic_f (picture s1 ! i)) 2).
                int k < avctx_height s1 div 2 ^ nat v *
                        linesize_at (pic_f (picture s1 ! i)) 2 \<longrightarrow>
                data_at (pic_f (picture s1 ! i)) 2 ! k = 0x80)"
    if miss: "no_picture s (last_picture_ptr s)"
      and kind: "pict_type s \<noteq> AV_PICTURE_TYPE_I \<or> picture_structure s \<noteq> PICT_FRAME"
  proof -
    from dummy_last_picture_slot [OF miss kind l]
    obtain i pic1 s2 where i: "i < length (picture s)"
      and un: "pic_is_unused (picture s ! i) \<noteq> 0"
      and b: "buf0 (pic_f pic1) \<noteq> None" and r: "reference pic1 = 3"
      and nr: "needs_realloc pic1 = 0"
      and len: "length (picture s2) = length (picture s)"
      and s0: "s0 = s2\<lparr>picture := (picture s2)[i := pic1\<lparr>pic_f :=
                          fill_dummy (pic_f pic1) (avctx_height s2) v\<rparr>],
                    last_picture_ptr := Some i\<rparr>"
      by blast
    let ?fr = "fill_dummy (pic_f pic1) (avctx_height s2) v"
    have p0: "picture s0 ! i = pic1\<lparr>pic_f := ?fr\<rparr>" "length (picture s0) = length (picture s)"
      "last_picture_ptr s0 = Some i" "avctx_height s0 = avctx_height s2"
      using i len by (simp_all add: s0)
    have used: "pic_is_unused (picture s0 ! i) = 0"
      using b nr by (simp add: p0(1) pic_is_unused_def fill_dummy_fields)
    note keep = dummy_next_picture_keeps [OF n used]
    have p: "picture s1 ! i = pic1\<lparr>pic_f := ?fr\<rparr>" "length (picture s1) = length (picture s)"
      "last_picture_ptr s1 = Some i" "avctx_height s1 = avctx_height s2"
      using keep p0 by simp_all
    have "i < length (picture s1)" using i p(2) by simp
    moreover have "buf0 (pic_f (picture s1 ! i)) \<noteq> None"
      using b by (simp add: p(1) fill_dummy_fields)
    moreover have "reference (picture s1 ! i) = 3" using r by (simp add: p(1))
    moreover have "\<forall>k < length (data_at (pic_f (picture s1 ! i)) 0).
                int k < avctx_height s1 * linesize_at (pic_f (picture s1 ! i)) 0 \<longrightarrow>
                data_at (pic_f (picture s1 ! i)) 0 ! k = 0"
      by (simp add: p(1) p(4) fill_dummy_bytes(1))
    moreover have "\<forall>k < length (data_at (pic_f (picture s1 ! i)) 1).
                int k < avctx_height s1 div 2 ^ nat v *
                        linesize_at (pic_f (picture s1 ! i)) 1 \<longrightarrow>
                data_at (pic_f (picture s1 ! i)) 1 ! k = 0x80"
      by (simp add: p(1) p(4) fill_dummy_bytes(2) del: One_nat_def)
    moreover have "\<forall>k < length (data_at (pic_f (picture s1 ! i)) 2).
                int k < avctx_height s1 div 2 ^ nat v *
                        linesize_at (pic_f (picture s1 ! i)) 2 \<longrightarrow>
                data_at (pic_f (picture s1 ! i)) 2 ! k = 0x80"
      by (simp add: p(1) p(4) fill_dummy_bytes(3))
    ultimately show ?thesis using p(3) un by blast
  qed
  have B: "\<exists>j < length (picture s1).
             next_picture_ptr s1 = Some j \<and>
             pic_is_unused (picture s0 ! j) \<noteq> 0 \<and>
             buf0 (pic_f (picture s1 ! j)) \<noteq> None \<and>
             reference (picture s1 ! j) = 3"
    if miss: "no_picture s0 (next_picture_ptr s0)" and kind: "pict_type s = AV_PICTURE_TYPE_B"
  proof -
    from kind dummy_last_picture_pict_type [OF l] have k0: "pict_type s0 = AV_PICTURE_TYPE_B"
      by simp
    from dummy_next_picture_slot [OF miss k0 n]
    obtain j pic1 s2 where j: "j < length (picture s0)"
      and un: "pic_is_unused (picture s0 ! j) \<noteq> 0"
      and b: "buf0 (pic_f pic1) \<noteq> None" and r: "reference pic1 = 3"
      and len: "length (picture s2) = length (picture s0)"
      and s1: "s1 = s2\<lparr>picture := (picture s2)[j := pic1], next_picture_ptr := Some j\<rparr>"
      by blast
    have "j < length (picture s1)" "next_picture_ptr s1 = Some j" "picture s1 ! j = pic1"
      using j len by (simp_all add: s1)
    with un b r show ?thesis by auto
  qed
  from l n A B show ?thesis by blast
qed


lemmas dummy_eval =
  dummy_last_picture_def dummy_next_picture_def frame_start_dummies_def no_picture_def
  ff_find_unused_picture_def find_unused_picture_def pic_is_unused_def mark_dummy_def
  memset_plane_def memset_def data_at_def
  AV_PICTURE_TYPE_I_def AV_PICTURE_TYPE_B_def PICT_FRAME_def

text \<open>
  C6 as stated fails: the dummy last picture of a P frame has its luma plane set to 0,
  not to the mid-scale value, and the dummy next picture allocated for a B frame keeps
  the bytes the buffer came with (\<open>0xAA\<close> here).
\<close>

theorem dummy_reference_counterexample:
  "fst (projr (dummy_last_picture decoder_ctx 1 good_env)) = 0 \<and>
   last_picture_ptr (snd (projr (dummy_last_picture decoder_ctx 1 good_env))) = Some 0 \<and>
   data (pic_f (picture (snd (projr (dummy_last_picture decoder_ctx 1 good_env))) ! 0)) =
     [replicate 8 0, replicate 2 0x80 @ replicate 2 0xAA, replicate 2 0x80 @ replicate 2 0xAA] \<and>
   (0 :: uint8_t) \<noteq> 0x80 \<and>
   fst (projr (frame_start_dummies (decoder_ctx\<lparr>pict_type := AV_PICTURE_TYPE_B\<rparr>) 1 good_env
          (good_env\<lparr>got_frame := stale_frame\<lparr>buf0 := Some 2\<rparr>\<rparr>))) = 0 \<and>
   next_picture_ptr (snd (projr (frame_start_dummies (decoder_ctx\<lparr>pict_type := AV_PICTURE_TYPE_B\<rparr>) 1 good_env
          (good_env\<lparr>got_frame := stale_frame\<lparr>buf0 := Some 2\<rparr>\<rparr>)))) = Some 1 \<and>
   data (pic_f (picture (snd (projr (frame_start_dummies (decoder_ctx\<lparr>pict_type := AV_PICTURE_TYPE_B\<rparr>) 1 good_env
          (good_env\<lparr>got_frame := stale_frame\<lparr>buf0 := Some 2\<rparr>\<rparr>)))) ! 1)) =
     [replicate 8 0xAA, replicate 4 0xAA, replicate 4 0xAA]"
  by (simp add: dummy_eval pool_eval)

theorem frame_start_dummy_references_witness:
  "frame_start_dummies b_decoder_ctx 1 good_env next_env =
     Inr (0, snd (projr (frame_start_dummies b_decoder_ctx 1 good_env next_env))) \<and>
   no_picture b_decoder_ctx (last_picture_ptr b_decoder_ctx) \<and>
   pict_type b_decoder_ctx = AV_PICTURE_TYPE_B \<and>
   last_picture_ptr (snd (projr (frame_start_dummies b_decoder_ctx 1 good_env next_env))) = Some 0 \<and>
   next_picture_ptr (snd (projr (frame_start_dummies b_decoder_ctx 1 good_env next_env))) = Some 1 \<and>
   reference (picture (snd (projr (frame_start_dummies b_decoder_ctx 1 good_env next_env))) ! 0) = 3 \<and>
   data_at (pic_f (picture (snd (projr (frame_start_dummies b_decoder_ctx 1 good_env next_env))) ! 0)) 0 ! 7 = 0 \<and>
   data_at (pic_f (picture (snd (projr (frame_start_dummies b_decoder_ctx 1 good_env next_env))) ! 0)) 2 ! 1 = 0x80 \<and>
   buf0 (pic_f (picture (snd (projr (frame_start_dummies b_decoder_ctx 1 good_env next_env))) ! 1)) \<noteq> None \<and>
   reference (picture (snd (projr (frame_start_dummies b_decoder_ctx 1 good_env next_env))) ! 1) = 3"
proof -
  let ?r = "frame_start_dummies b_decoder_ctx 1 good_env next_env"
  let ?S = "snd (projr ?r)"
  have h1: "no_picture b_decoder_ctx (last_picture_ptr b_decoder_ctx)"
    by (simp add: no_picture_def b_decoder_ctx_def decoder_ctx_def)
  have h2: "pict_type b_decoder_ctx = AV_PICTURE_TYPE_B"
    by (simp add: b_decoder_ctx_def)
  have h3: "pict_type b_decoder_ctx \<noteq> AV_PICTURE_TYPE_I \<or>
            picture_structure b_decoder_ctx \<noteq> PICT_FRAME"
    by (simp add: b_decoder_ctx_def AV_PICTURE_TYPE_I_def AV_PICTURE_TYPE_B_def)
  have isr: "\<not> isl ?r" and f0: "fst (projr ?r) = 0"
    by (simp_all add: b_decoder_ctx_def next_env_def dummy_eval pool_eval)
  then have res: "?r = Inr (0, ?S)"
    by (metis prod.collapse sum.collapse(2))
  have e: "last_picture_ptr ?S = Some 0" "next_picture_ptr ?S = Some 1" "avctx_height ?S = 2"
    "frame_linesize (pic_f (picture ?S ! 0)) = [4, 2, 2]"
    "length (data (pic_f (picture ?S ! 0))) = 3"
    "length (data (pic_f (picture ?S ! 0)) ! 0) = 8"
    "length (data (pic_f (picture ?S ! 0)) ! 2) = 4"
    by (simp_all add: b_decoder_ctx_def next_env_def dummy_eval pool_eval)
  from frame_start_dummy_references [OF res]
  obtain s0 where l: "dummy_last_picture b_decoder_ctx 1 good_env = Inr (0, s0)"
    and A: "no_picture b_decoder_ctx (last_picture_ptr b_decoder_ctx) \<and>
            (pict_type b_decoder_ctx \<noteq> AV_PICTURE_TYPE_I \<or>
             picture_structure b_decoder_ctx \<noteq> PICT_FRAME) \<longrightarrow>
              (\<exists>i < length (picture ?S).
                 last_picture_ptr ?S = Some i \<and>
                 pic_is_unused (picture b_decoder_ctx ! i) \<noteq> 0 \<and>
                 buf0 (pic_f (picture ?S ! i)) \<noteq> None \<and>
                 reference (picture ?S ! i) = 3 \<and>
                 (\<forall>k < length (data_at (pic_f (picture ?S ! i)) 0).
                    int k < avctx_height ?S * linesize_at (pic_f (picture ?S ! i)) 0 \<longrightarrow>
                    data_at (pic_f (picture ?S ! i)) 0 ! k = 0) \<and>
                 (\<forall>k < length (data_at (pic_f (picture ?S ! i)) 1).
                    int k < avctx_height ?S div 2 ^ nat 1 *
                            linesize_at (pic_f (picture ?S ! i)) 1 \<longrightarrow>
                    data_at (pic_f (picture ?S ! i)) 1 ! k = 0x80) \<and>
                 (\<forall>k < length (data_at (pic_f (picture ?S ! i)) 2).
                    int k < avctx_height ?S div 2 ^ nat 1 *
                            linesize_at (pic_f (picture ?S ! i)) 2 \<longrightarrow>
                    data_at (pic_f (picture ?S ! i)) 2 ! k = 0x80))"
    and B: "no_picture s0 (next_picture_ptr s0) \<and> pict_type b_decoder_ctx = AV_PICTURE_TYPE_B \<longrightarrow>
              (\<exists>j < length (picture ?S).
                 next_picture_ptr ?S = Some j \<and>
                 pic_is_unused (picture s0 ! j) \<noteq> 0 \<and>
                 buf0 (pic_f (picture ?S ! j)) \<noteq> None \<and>
                 reference (picture ?S ! j) = 3)"
    by blast
  from l have s0: "s0 = snd (projr (dummy_last_picture b_decoder_ctx 1 good_env))" by simp
  have m0: "no_picture s0 (next_picture_ptr s0)"
    unfolding s0 by (simp add: b_decoder_ctx_def dummy_eval pool_eval)
  from A h1 h3 obtain i where i: "last_picture_ptr ?S = Some i"
    and r: "reference (picture ?S ! i) = 3"
    and p0: "\<forall>k < length (data_at (pic_f (picture ?S ! i)) 0).
              int k < avctx_height ?S * linesize_at (pic_f (picture ?S ! i)) 0 \<longrightarrow>
              data_at (pic_f (picture ?S ! i)) 0 ! k = 0"
    and p2: "\<forall>k < length (data_at (pic_f (picture ?S ! i)) 2).
              int k < avctx_height ?S div 2 ^ nat 1 * linesize_at (pic_f (picture ?S ! i)) 2 \<longrightarrow>
              data_at (pic_f (picture ?S ! i)) 2 ! k = 0x80"
    by blast
  from i e(1) have i0: "i = 0" by simp
  from B m0 h2 obtain j where j: "next_picture_ptr ?S = Some j"
    and bj: "buf0 (pic_f (picture ?S ! j)) \<noteq> None" and rj: "reference (picture ?S ! j) = 3"
    by blast
  from j e(2) have j1: "j = 1" by simp
  have "data_at (pic_f (picture ?S ! 0)) 0 ! 7 = 0"
    using p0 [unfolded i0, rule_format, of 7] e
    by (simp add: data_at_def linesize_at_def)
  moreover have "data_at (pic_f (picture ?S ! 0)) 2 ! 1 = 0x80"
    using p2 [unfolded i0, rule_format, of 1] e
    by (simp add: data_at_def linesize_at_def)
  ultimately show ?thesis
    using res h1 h2 e(1,2) r [unfolded i0] bj [unfolded j1] rj [unfolded j1] by blast
qed

section \<open>Properties of ff_mpv_lowest_referenced_row and the motion handling\<close>



































lemmas mc_eval =
  ff_mpv_lowest_referenced_row_def frame_motion_def mv_row_offset_def my_extent_def
  mv_count_def qpel_shift_def FFMAX_def FFMIN_def c_int_of_def c_shr_def INT_MIN_def INT_MAX_def
  MV_TYPE_16X16_def MV_TYPE_16X8_def MV_TYPE_8X8_def PICT_FRAME_def word_sless_alt
  b_frame_ctx_def decoder_ctx_def MpegEncContext.defs dup_ctx.defs slice_rows.defs



text \<open>
  Outside that range the computation wraps as the source's \<open>int\<close> does: with a vertical
  component of \<open>INT_MAX\<close> quarter samples the sum \<open>my_max + 63\<close> is negative and the row
  is 0, while the vector points below the picture, whose last row is 9.
\<close>

lemma ff_mpv_lowest_referenced_row_wrap:
  "ff_mpv_lowest_referenced_row
     (b_frame_ctx\<lparr>mv := [[[0, INT_MAX], [0, 0], [0, 0], [0, 0]],
                          [[0, 0], [0, 0], [0, 0], [0, 0]]],
                   quarter_sample := 1\<rparr>) 0 = 0 \<and>
   referenced_rows
     (b_frame_ctx\<lparr>mv := [[[0, INT_MAX], [0, 0], [0, 0], [0, 0]],
                          [[0, 0], [0, 0], [0, 0], [0, 0]]],
                   quarter_sample := 1\<rparr>) 0 = {9 .. 9}"
  by (simp add: referenced_rows_def row_of_line_def top_line_def bottom_line_def
      my_quarter_def mc_eval)





end
